theory Spec2Isabelle
  imports Complex_Main
begin

section \<open>Dense arrays\<close>

text \<open>
  The numerical arrays of the program are modelled over exact real arithmetic: a
  one-dimensional array is a list of reals, a two-dimensional array is the list of its
  rows (so an array without rows has no columns either). \<open>is_mat r c A\<close> says that \<open>A\<close>
  has shape \<open>(r, c)\<close>. Every operation that raises in the program is a function into
  \<open>py_error + 'a\<close>; \<open>NotFinite\<close> stands for a result in which a division by zero has
  produced \<open>inf\<close> or \<open>nan\<close>, values that the reals do not have.
\<close>

datatype py_error = AttributeError | ValueError | IndexError | TypeError | LinAlgError | NotFinite

type_synonym vec = "real list"
type_synonym mat = "real list list"

definition nrows :: "mat \<Rightarrow> nat" where
  "nrows A = length A"

definition ncols :: "mat \<Rightarrow> nat" where
  "ncols A = (case A of [] \<Rightarrow> 0 | r # _ \<Rightarrow> length r)"

definition is_mat :: "nat \<Rightarrow> nat \<Rightarrow> mat \<Rightarrow> bool" where
  "is_mat r c A = (length A = r \<and> list_all (\<lambda>row. length row = c) A)"

definition mk_mat :: "nat \<Rightarrow> nat \<Rightarrow> (nat \<Rightarrow> nat \<Rightarrow> real) \<Rightarrow> mat" where
  "mk_mat r c f = map (\<lambda>i. map (\<lambda>j. f i j) [0..<c]) [0..<r]"

definition zeros :: "nat \<Rightarrow> nat \<Rightarrow> mat" where
  "zeros r c = replicate r (replicate c 0)"

definition set2 :: "mat \<Rightarrow> nat \<Rightarrow> nat \<Rightarrow> real \<Rightarrow> mat" where
  "set2 A r c v = A[r := (A ! r)[c := v]]"

text \<open>\<open>np.eye(n)\<close>, \<open>A.T\<close>, \<open>A @ B\<close>, \<open>A @ v\<close>, \<open>c * A\<close>, \<open>A + B\<close> and their vector forms.\<close>

definition eye :: "nat \<Rightarrow> mat" where
  "eye n = mk_mat n n (\<lambda>i j. if i = j then 1 else 0)"

definition mT :: "mat \<Rightarrow> mat" where
  "mT A = mk_mat (ncols A) (nrows A) (\<lambda>i j. A ! j ! i)"

definition matmul :: "mat \<Rightarrow> mat \<Rightarrow> mat" where
  "matmul A B = mk_mat (nrows A) (ncols B) (\<lambda>i j. \<Sum>k\<leftarrow>[0..<ncols A]. A ! i ! k * B ! k ! j)"

definition matvec :: "mat \<Rightarrow> vec \<Rightarrow> vec" where
  "matvec A v = map (\<lambda>i. \<Sum>k\<leftarrow>[0..<ncols A]. A ! i ! k * v ! k) [0..<nrows A]"

definition smul :: "real \<Rightarrow> mat \<Rightarrow> mat" where
  "smul c A = map (map (\<lambda>x. c * x)) A"

definition madd :: "mat \<Rightarrow> mat \<Rightarrow> mat" where
  "madd A B = map2 (map2 (+)) A B"

definition vsmul :: "real \<Rightarrow> vec \<Rightarrow> vec" where
  "vsmul c v = map (\<lambda>x. c * x) v"

definition vadd :: "vec \<Rightarrow> vec \<Rightarrow> vec" where
  "vadd v w = map2 (+) v w"

definition vsub :: "vec \<Rightarrow> vec \<Rightarrow> vec" where
  "vsub v w = map2 (-) v w"

text \<open>\<open>v.reshape(-1, c)\<close>: consecutive runs of \<open>c\<close> entries become the rows.\<close>

definition reshape :: "vec \<Rightarrow> nat \<Rightarrow> mat" where
  "reshape v c = mk_mat (length v div c) c (\<lambda>i j. v ! (c * i + j))"

text \<open>\<open>np.linalg.norm\<close> of a vector.\<close>

definition norm2 :: "vec \<Rightarrow> real" where
  "norm2 v = sqrt (\<Sum>x\<leftarrow>v. x * x)"

definition symmetric :: "mat \<Rightarrow> bool" where
  "symmetric A = (is_mat (length A) (length A) A \<and> mT A = A)"

subsection \<open>Shared kernels of the element library\<close>

text \<open>
  \<open>scatter_matrix\<close> (element.py): the three nested \<open>for\<close> loops over
  \<open>range(dof_small_row)\<close>, \<open>range(dof_small_col)\<close> and \<open>range(ndim)\<close> are the
  three folds; \<open>set2 M r c v\<close> is the assignment \<open>M[r, c] = v\<close>.
\<close>

definition scatter_matrix :: "mat \<Rightarrow> nat \<Rightarrow> mat" where
  "scatter_matrix Mat ndim =
     (let dof_small_row = nrows Mat;
          dof_small_col = ncols Mat;
          Mat_scattered = zeros (dof_small_row * ndim) (dof_small_col * ndim)
      in fold (\<lambda>i. fold (\<lambda>j. fold (\<lambda>k M. set2 M (ndim * i + k) (ndim * j + k) (Mat ! i ! j))
                                  [0..<ndim])
                       [0..<dof_small_col])
              [0..<dof_small_row] Mat_scattered)"

section \<open>Materials\<close>

text \<open>
  The material module is not part of the sources at hand; an element only reads
  attributes of its material object and calls its two constitutive laws. The material is
  therefore a parameter: a record of the attributes that the elements read
  (\<open>material.E\<close>, \<open>material.crossec\<close>, \<open>material.rho\<close>, \<open>material.thickness\<close>) and of the
  two laws \<open>S_Sv_and_C_2d\<close> and \<open>S_Sv_and_C\<close>, which map a Green-Lagrange strain tensor to
  the stress tensor \<open>S\<close>, its Voigt vector \<open>S_v\<close> and the tangent \<open>C_SE\<close>.
\<close>

record material =
  m_E :: real
  m_crossec :: real
  m_rho :: real
  m_thickness :: real
  S_Sv_and_C_2d :: "mat \<Rightarrow> mat \<times> vec \<times> mat"
  S_Sv_and_C :: "mat \<Rightarrow> mat \<times> vec \<times> mat"

section \<open>The lumped bar element\<close>

text \<open>
  \<open>Bar2Dlumped\<close> (element.py). The object's attributes are the fields of a record. The
  constructor sets \<open>material\<close> (default \<open>None\<close>), \<open>K\<close>, \<open>M\<close> and \<open>f\<close>; the attributes
  \<open>e_modul\<close>, \<open>crosssec\<close> and \<open>rho\<close> do not exist until \<open>foo\<close> assigns them, which the
  model writes as \<open>None\<close>. Reading an attribute that does not exist raises
  \<open>AttributeError\<close>. A method returns its value together with the object after the call.
\<close>

record Bar2Dlumped =
  bar_material :: "material option"
  bar_K :: mat
  bar_M :: mat
  bar_f :: vec
  bar_e_modul :: "real option"
  bar_crosssec :: "real option"
  bar_rho :: "real option"

definition Bar2Dlumped_init :: "material option \<Rightarrow> Bar2Dlumped" where
  "Bar2Dlumped_init mat =
     \<lparr>bar_material = mat, bar_K = zeros 4 4, bar_M = zeros 4 4, bar_f = replicate 4 0,
      bar_e_modul = None, bar_crosssec = None, bar_rho = None\<rparr>"

definition getattr :: "'a option \<Rightarrow> py_error + 'a" where
  "getattr a = (case a of None \<Rightarrow> Inl AttributeError | Some v \<Rightarrow> Inr v)"

definition foo :: "Bar2Dlumped \<Rightarrow> py_error + Bar2Dlumped" where
  "foo self =
     (case bar_material self of
        None \<Rightarrow> Inl AttributeError
      | Some m \<Rightarrow> Inr (self\<lparr>bar_e_modul := Some (m_E m), bar_crosssec := Some (m_crossec m),
                             bar_rho := Some (m_rho m)\<rparr>))"

text \<open>
  \<open>_k_and_m_int\<close>. \<open>X.reshape(-1, 2)\<close> raises \<open>ValueError\<close> for an odd number of entries and
  \<open>X_mat[1,:]\<close> raises \<open>IndexError\<close> when there is no second row. The attributes are read
  in the order of the source: \<open>e_modul\<close> and \<open>crosssec\<close> for the stiffness, then \<open>rho\<close> and
  \<open>crosssec\<close> for the mass. A bar of length zero divides by zero.
\<close>

definition Bar2Dlumped__k_and_m_int :: "Bar2Dlumped \<Rightarrow> vec \<Rightarrow> vec \<Rightarrow> real \<Rightarrow> py_error + ((mat \<times> mat) \<times> Bar2Dlumped)" where
  "Bar2Dlumped__k_and_m_int self X u t =
     (if length X mod 2 \<noteq> 0 then Inl ValueError
      else let X_mat = reshape X 2 in
      if nrows X_mat < 2 then Inl IndexError
      else let l = norm2 (vsub (X_mat ! 1) (X_mat ! 0)) in
      case getattr (bar_e_modul self) of Inl e \<Rightarrow> Inl e | Inr e_modul' \<Rightarrow>
      case getattr (bar_crosssec self) of Inl e \<Rightarrow> Inl e | Inr crosssec' \<Rightarrow>
      if l = 0 then Inl NotFinite
      else let k_el_loc = smul (e_modul' * crosssec' / l) [[1, -1], [-1, 1]];
               temp = vsmul (1 / l) (vsub (X_mat ! 1) (X_mat ! 0));
               A = [[temp ! 0, temp ! 1, 0, 0],
                    [0, 0, temp ! 0, temp ! 1]];
               k_el = matmul (mT A) (matmul k_el_loc A) in
      case getattr (bar_rho self) of Inl e \<Rightarrow> Inl e | Inr rho' \<Rightarrow>
      let m_el = smul (rho' * crosssec' * l / 6) [[3, 0, 0, 0],
                                                   [0, 3, 0, 0],
                                                   [0, 0, 3, 0],
                                                   [0, 0, 0, 3]];
          K' = smul (1 / 2) (madd k_el (mT k_el));
          M' = smul (1 / 2) (madd m_el (mT m_el))
      in Inr ((K', M'), self\<lparr>bar_K := K', bar_M := M'\<rparr>))"

text \<open>\<open>_compute_tensors\<close> calls \<open>_k_and_m_int\<close> and drops its value; \<open>_m_int\<close> keeps the mass.\<close>

definition Bar2Dlumped_compute_tensors :: "Bar2Dlumped \<Rightarrow> vec \<Rightarrow> vec \<Rightarrow> real \<Rightarrow> py_error + Bar2Dlumped" where
  "Bar2Dlumped_compute_tensors self X u t =
     (case Bar2Dlumped__k_and_m_int self X u t of Inl e \<Rightarrow> Inl e | Inr (_, self') \<Rightarrow> Inr self')"

definition Bar2Dlumped__m_int :: "Bar2Dlumped \<Rightarrow> vec \<Rightarrow> vec \<Rightarrow> real \<Rightarrow> py_error + (mat \<times> Bar2Dlumped)" where
  "Bar2Dlumped__m_int self X u t =
     (case Bar2Dlumped__k_and_m_int self X u t of Inl e \<Rightarrow> Inl e | Inr ((k_el, m_el), self') \<Rightarrow> Inr (m_el, self'))"

text \<open>
  The public methods inherited from \<open>Element\<close>: each runs the tensor computation and
  returns the buffers of the object.
\<close>

definition Bar2Dlumped_k_and_f_int :: "Bar2Dlumped \<Rightarrow> vec \<Rightarrow> vec \<Rightarrow> real \<Rightarrow> py_error + ((mat \<times> vec) \<times> Bar2Dlumped)" where
  "Bar2Dlumped_k_and_f_int self X u t =
     (case Bar2Dlumped_compute_tensors self X u t of Inl e \<Rightarrow> Inl e
      | Inr self' \<Rightarrow> Inr ((bar_K self', bar_f self'), self'))"

definition Bar2Dlumped_k_int :: "Bar2Dlumped \<Rightarrow> vec \<Rightarrow> vec \<Rightarrow> real \<Rightarrow> py_error + (mat \<times> Bar2Dlumped)" where
  "Bar2Dlumped_k_int self X u t =
     (case Bar2Dlumped_compute_tensors self X u t of Inl e \<Rightarrow> Inl e
      | Inr self' \<Rightarrow> Inr (bar_K self', self'))"

definition Bar2Dlumped_f_int :: "Bar2Dlumped \<Rightarrow> vec \<Rightarrow> vec \<Rightarrow> real \<Rightarrow> py_error + (vec \<times> Bar2Dlumped)" where
  "Bar2Dlumped_f_int self X u t =
     (case Bar2Dlumped_compute_tensors self X u t of Inl e \<Rightarrow> Inl e
      | Inr self' \<Rightarrow> Inr (bar_f self', self'))"

definition Bar2Dlumped_m_int :: "Bar2Dlumped \<Rightarrow> vec \<Rightarrow> vec \<Rightarrow> real \<Rightarrow> py_error + (mat \<times> Bar2Dlumped)" where
  "Bar2Dlumped_m_int self X u t = Bar2Dlumped__m_int self X u t"

section \<open>The finite elements\<close>

subsection \<open>The strain-displacement operator\<close>

text \<open>
  \<open>compute_B_matrix\<close> (element.py). The loop over the nodes writes the block of node \<open>i\<close>
  into the columns \<open>i*no_of_dims\<close> to \<open>(i+1)*no_of_dims - 1\<close>; so column \<open>c\<close> of the result
  belongs to the node \<open>c div no_of_dims\<close> and is column \<open>c mod no_of_dims\<close> of its block. The
  elements call it with two or with three columns only.
\<close>

definition compute_B_matrix :: "mat \<Rightarrow> mat \<Rightarrow> mat" where
  "compute_B_matrix B_tilde F =
     (let no_of_nodes = nrows B_tilde;
          no_of_dims = ncols B_tilde;
          b = B_tilde;
          F11 = F ! 0 ! 0;
          F12 = F ! 0 ! 1;
          F21 = F ! 1 ! 0;
          F22 = F ! 1 ! 1
      in if no_of_dims = 2
         then mk_mat (no_of_dims * (no_of_dims + 1) div 2) (no_of_nodes * no_of_dims)
                (\<lambda>r c. let i = c div no_of_dims in
                   [[F11*b!i!0, F21*b!i!0],
                    [F12*b!i!1, F22*b!i!1],
                    [F11*b!i!1 + F12*b!i!0, F21*b!i!1 + F22*b!i!0]] ! r ! (c mod no_of_dims))
         else let F13 = F ! 0 ! 2;
                  F31 = F ! 2 ! 0;
                  F23 = F ! 1 ! 2;
                  F32 = F ! 2 ! 1;
                  F33 = F ! 2 ! 2
              in mk_mat (no_of_dims * (no_of_dims + 1) div 2) (no_of_nodes * no_of_dims)
                (\<lambda>r c. let i = c div no_of_dims in
                   [[F11*b!i!0, F21*b!i!0, F31*b!i!0],
                    [F12*b!i!1, F22*b!i!1, F32*b!i!1],
                    [F13*b!i!2, F23*b!i!2, F33*b!i!2],
                    [F12*b!i!2 + F13*b!i!1, F22*b!i!2 + F23*b!i!1, F32*b!i!2 + F33*b!i!1],
                    [F13*b!i!0 + F11*b!i!2, F23*b!i!0 + F21*b!i!2, F33*b!i!0 + F31*b!i!2],
                    [F11*b!i!1 + F12*b!i!0, F21*b!i!1 + F22*b!i!0, F31*b!i!1 + F32*b!i!0]]
                   ! r ! (c mod no_of_dims)))"

subsection \<open>The computation at one integration point\<close>

text \<open>
  From \<open>H = u_mat.T @ B0_tilde\<close> to the contributions to \<open>K\<close> and \<open>f\<close>, every plane and solid
  element runs the same lines; they differ in the factor (\<open>det/2*d\<close>, \<open>det*t\<close>, \<open>det/6\<close> or
  \<open>det\<close>) that multiplies the three products, which is the argument \<open>c\<close> here. The values
  of \<open>F\<close>, \<open>E\<close> and \<open>S\<close> at the point are local variables of the program; the model keeps
  them, as the properties of the elements speak about them. The products with the
  material's \<open>S\<close>, \<open>S_v\<close> and \<open>C_SE\<close> raise \<open>ValueError\<close> when their shapes do not fit.
\<close>

record gp_tensors =
  gp_F :: mat
  gp_E :: mat
  gp_S :: mat
  gp_K :: mat
  gp_f :: vec

definition voigt :: "nat \<Rightarrow> mat \<Rightarrow> vec" where
  "voigt ndim S =
     (if ndim = 2 then [S ! 0 ! 0, S ! 0 ! 1, 0, S ! 1 ! 1, 0, 0]
      else [S ! 0 ! 0, S ! 0 ! 1, S ! 0 ! 2, S ! 1 ! 1, S ! 1 ! 2, S ! 2 ! 2])"

definition point_tensors ::
    "nat \<Rightarrow> (mat \<Rightarrow> mat \<times> vec \<times> mat) \<Rightarrow> mat \<Rightarrow> mat \<Rightarrow> real \<Rightarrow> py_error + gp_tensors" where
  "point_tensors ndim law u_mat B0_tilde c =
     (let H = matmul (mT u_mat) B0_tilde;
          F = madd H (eye ndim);
          E = smul (1/2) (madd (madd H (mT H)) (matmul (mT H) H));
          (S, S_v, C_SE) = law E;
          nv = ndim * (ndim + 1) div 2
      in if \<not> (is_mat ndim ndim S \<and> length S_v = nv \<and> is_mat nv nv C_SE) then Inl ValueError
         else let B0 = compute_B_matrix B0_tilde F;
                  K_geo_small = smul c (matmul (matmul B0_tilde S) (mT B0_tilde));
                  K_geo = scatter_matrix K_geo_small ndim;
                  K_mat = smul c (matmul (matmul (mT B0) C_SE) B0)
              in Inr \<lparr>gp_F = F, gp_E = E, gp_S = S, gp_K = madd K_geo K_mat,
                      gp_f = vsmul c (matvec (mT B0) S_v)\<rparr>)"

subsection \<open>The loop over the integration points\<close>

text \<open>
  The result of \<open>_compute_tensors\<close>: the buffers \<open>K\<close>, \<open>f\<close>, \<open>S\<close> and \<open>E\<close> of the element after the
  call, and the values at the integration points in the order of the loop.
\<close>

record tensors =
  t_K :: mat
  t_f :: vec
  t_S :: mat
  t_E :: mat
  t_points :: "gp_tensors list"

text \<open>
  \<open>gauss_loop\<close> runs the points in order and stops at the first error. Each point comes
  with its weight \<open>w\<close>, its factor \<open>c\<close> and its \<open>B0_tilde\<close>, or with the error that its
  geometry raises.
\<close>

fun gauss_loop ::
    "nat \<Rightarrow> (mat \<Rightarrow> mat \<times> vec \<times> mat) \<Rightarrow> mat \<Rightarrow> (py_error + real \<times> real \<times> mat) list
     \<Rightarrow> py_error + (real \<times> gp_tensors) list" where
  "gauss_loop ndim law u_mat [] = Inr []"
| "gauss_loop ndim law u_mat (g # gs) =
     (case g of
        Inl e \<Rightarrow> Inl e
      | Inr (w, c, B0_tilde) \<Rightarrow>
         (case point_tensors ndim law u_mat B0_tilde c of
            Inl e \<Rightarrow> Inl e
          | Inr p \<Rightarrow>
             (case gauss_loop ndim law u_mat gs of
                Inl e \<Rightarrow> Inl e
              | Inr ps \<Rightarrow> Inr ((w, p) # ps))))"

text \<open>
  The accumulation: \<open>self.K *= 0\<close> and its like clear the buffers, then every point adds
  \<open>(K_geo + K_mat) * w\<close> to \<open>K\<close>, its force times \<open>w\<close> to \<open>f\<close>, and
  \<open>extrapol @ [[S00, S01, ...]]\<close> to the nodal tables, where \<open>extrapol\<close> is the column
  \<open>n_gauss\<close> of the extrapolation matrix.
\<close>

definition column :: "mat \<Rightarrow> nat \<Rightarrow> mat" where
  "column A n = map (\<lambda>row. [row ! n]) A"

definition accumulate :: "nat \<Rightarrow> nat \<Rightarrow> mat \<Rightarrow> (real \<times> gp_tensors) list \<Rightarrow> tensors" where
  "accumulate ndim no_of_nodes extrapolation_points ps =
     \<lparr>t_K = fold (\<lambda>(w, p) K. madd K (smul w (gp_K p))) ps
              (zeros (no_of_nodes * ndim) (no_of_nodes * ndim)),
      t_f = fold (\<lambda>(w, p) f. vadd f (vsmul w (gp_f p))) ps (replicate (no_of_nodes * ndim) 0),
      t_S = fold (\<lambda>(n_gauss, (w, p)) S.
                    madd S (matmul (column extrapolation_points n_gauss) [voigt ndim (gp_S p)]))
              (enumerate 0 ps) (zeros no_of_nodes 6),
      t_E = fold (\<lambda>(n_gauss, (w, p)) E.
                    madd E (matmul (column extrapolation_points n_gauss) [voigt ndim (gp_E p)]))
              (enumerate 0 ps) (zeros no_of_nodes 6),
      t_points = map snd ps\<rparr>"

text \<open>
  An element with an integration loop is given by its dimension, its number of nodes,
  the law of its material, its extrapolation matrix, the error of a singular Jacobian
  (\<open>1/det\<close> is infinite, \<open>np.linalg.inv\<close> raises \<open>LinAlgError\<close>), the factor as a function of
  the determinant, and for every integration point its weight and its geometry: the
  determinant and \<open>B0_tilde\<close>.
\<close>

definition gauss_element ::
    "nat \<Rightarrow> nat \<Rightarrow> (mat \<Rightarrow> mat \<times> vec \<times> mat) \<Rightarrow> mat \<Rightarrow> py_error \<Rightarrow> (real \<Rightarrow> real) \<Rightarrow> ('g \<Rightarrow> real)
     \<Rightarrow> ('g \<Rightarrow> real \<times> mat) \<Rightarrow> 'g list \<Rightarrow> vec \<Rightarrow> py_error + tensors" where
  "gauss_element ndim no_of_nodes law extrapolation_points err scale weight geometry gauss_points u =
     (case gauss_loop ndim law (reshape u ndim)
             (map (\<lambda>gp. let (det, B0_tilde) = geometry gp in
                         if det = 0 then Inl err else Inr (weight gp, scale det, B0_tilde))
                  gauss_points) of
        Inl e \<Rightarrow> Inl e
      | Inr ps \<Rightarrow> Inr (accumulate ndim no_of_nodes extrapolation_points ps))"

text \<open>
  The determinant and the inverse of a \<open>3 \<times> 3\<close> matrix (\<open>np.linalg.det\<close>, \<open>np.linalg.inv\<close>)
  over exact arithmetic.
\<close>

definition det3 :: "mat \<Rightarrow> real" where
  "det3 A = A!0!0 * (A!1!1 * A!2!2 - A!1!2 * A!2!1)
          - A!0!1 * (A!1!0 * A!2!2 - A!1!2 * A!2!0)
          + A!0!2 * (A!1!0 * A!2!1 - A!1!1 * A!2!0)"

definition inv3 :: "mat \<Rightarrow> mat" where
  "inv3 A = smul (1 / det3 A)
     [[A!1!1 * A!2!2 - A!1!2 * A!2!1, A!0!2 * A!2!1 - A!0!1 * A!2!2, A!0!1 * A!1!2 - A!0!2 * A!1!1],
      [A!1!2 * A!2!0 - A!1!0 * A!2!2, A!0!0 * A!2!2 - A!0!2 * A!2!0, A!0!2 * A!1!0 - A!0!0 * A!1!2],
      [A!1!0 * A!2!1 - A!1!1 * A!2!0, A!0!1 * A!2!0 - A!0!0 * A!2!1, A!0!0 * A!1!1 - A!0!1 * A!1!0]]"


subsection \<open>Tri3\<close>

definition Tri3_geometry :: "vec \<Rightarrow> real \<times> mat" where
  "Tri3_geometry X =
     (let X1 = X ! 0; Y1 = X ! 1; X2 = X ! 2; Y2 = X ! 3; X3 = X ! 4; Y3 = X ! 5;
          det = (X3-X2)*(Y1-Y2) - (X1-X2)*(Y3-Y2);
          dN_dX = smul (1/det) [[Y2-Y3, X3-X2], [Y3-Y1, X1-X3], [Y1-Y2, X2-X1]]
      in (det, dN_dX))"

text \<open>
  Unpacking \<open>X\<close> and the product \<open>u_mat.T @ dN_dX\<close> raise \<open>ValueError\<close> unless \<open>X\<close> and \<open>u\<close>
  have six entries. \<open>np.ones((3,1)) @ [[...]]\<close> repeats the row for each node.
\<close>

definition Tri3_compute_tensors :: "material \<Rightarrow> vec \<Rightarrow> vec \<Rightarrow> real \<Rightarrow> py_error + tensors" where
  "Tri3_compute_tensors m X u t =
     (if length X \<noteq> 6 \<or> length u \<noteq> 6 then Inl ValueError
      else let d = m_thickness m;
               u_mat = reshape u 2;
               (det, dN_dX) = Tri3_geometry X
           in if det = 0 then Inl NotFinite
              else case point_tensors 2 (S_Sv_and_C_2d m) u_mat dN_dX (det/2 * d) of
                     Inl e \<Rightarrow> Inl e
                   | Inr p \<Rightarrow>
                      Inr \<lparr>t_K = gp_K p, t_f = gp_f p,
                           t_S = matmul (replicate 3 [1]) [voigt 2 (gp_S p)],
                           t_E = matmul (replicate 3 [1]) [voigt 2 (gp_E p)],
                           t_points = [p]\<rparr>)"


subsection \<open>Tri6\<close>

definition Tri6_gauss_points :: "(real \<times> real \<times> real \<times> real) list" where
  "Tri6_gauss_points =
     [(2/3, 1/6, 1/6, 1/3),
      (1/6, 2/3, 1/6, 1/3),
      (1/6, 1/6, 2/3, 1/3)]"

definition Tri6_extrapolation_points :: mat where
  "Tri6_extrapolation_points = mT
     [[5/3, -1/3, -1/3, 2/3, -1/3, 2/3],
      [-1/3, 5/3, -1/3, 2/3, 2/3, -1/3],
      [-1/3, -1/3, 5/3, -1/3, 2/3, 2/3]]"

definition Tri6_dN_dL :: "real \<Rightarrow> real \<Rightarrow> real \<Rightarrow> mat" where
  "Tri6_dN_dL L1 L2 L3 =
     [[4*L1 - 1, 0, 0],
      [0, 4*L2 - 1, 0],
      [0, 0, 4*L3 - 1],
      [4*L2, 4*L1, 0],
      [0, 4*L3, 4*L2],
      [4*L3, 0, 4*L1]]"

definition Tri6_geometry :: "vec \<Rightarrow> real \<times> real \<times> real \<times> real \<Rightarrow> real \<times> mat" where
  "Tri6_geometry X gp =
     (case gp of (L1, L2, L3, w) \<Rightarrow>
      let X1 = X ! 0; Y1 = X ! 1; X2 = X ! 2; Y2 = X ! 3; X3 = X ! 4; Y3 = X ! 5;
          X4 = X ! 6; Y4 = X ! 7; X5 = X ! 8; Y5 = X ! 9; X6 = X ! 10; Y6 = X ! 11;
          dN_dL = Tri6_dN_dL L1 L2 L3;
          Jx1 = 4*L2*X4 + 4*L3*X6 + X1*(4*L1 - 1);
          Jx2 = 4*L1*X4 + 4*L3*X5 + X2*(4*L2 - 1);
          Jx3 = 4*L1*X6 + 4*L2*X5 + X3*(4*L3 - 1);
          Jy1 = 4*L2*Y4 + 4*L3*Y6 + Y1*(4*L1 - 1);
          Jy2 = 4*L1*Y4 + 4*L3*Y5 + Y2*(4*L2 - 1);
          Jy3 = 4*L1*Y6 + 4*L2*Y5 + Y3*(4*L3 - 1);
          det = Jx1*Jy2 - Jx1*Jy3 - Jx2*Jy1 + Jx2*Jy3 + Jx3*Jy1 - Jx3*Jy2;
          dL_dX = smul (1/det)
            [[Jy2 - Jy3, -Jx2 + Jx3],
             [-Jy1 + Jy3, Jx1 - Jx3],
             [Jy1 - Jy2, -Jx1 + Jx2]];
          B0_tilde = matmul dN_dL dL_dX
      in (det, B0_tilde))"

definition Tri6_compute_tensors :: "material \<Rightarrow> vec \<Rightarrow> vec \<Rightarrow> real \<Rightarrow> py_error + tensors" where
  "Tri6_compute_tensors m X u t =
     (if length X \<noteq> 12 \<or> length u \<noteq> 12 then Inl ValueError
      else let d = m_thickness m
           in gauss_element 2 6 (S_Sv_and_C_2d m) Tri6_extrapolation_points NotFinite
                (\<lambda>det. det / 2 * d) (\<lambda>(L1, L2, L3, w). w) (Tri6_geometry X) Tri6_gauss_points u)"


subsection \<open>Quad4\<close>

definition Quad4_gauss_points :: "(real \<times> real \<times> real) list" where
  "Quad4_gauss_points =
     (let g1 = 1/sqrt(3)
      in [(-g1, -g1, 1),
           (g1, -g1, 1),
           (g1, g1, 1),
           (-g1, g1, 1)])"

definition Quad4_extrapolation_points :: mat where
  "Quad4_extrapolation_points = mT
     [[1+sqrt(3)/2, -1/2, 1-sqrt(3)/2, -1/2],
      [-1/2, 1+sqrt(3)/2, -1/2, 1-sqrt(3)/2],
      [1-sqrt(3)/2, -1/2, 1+sqrt(3)/2, -1/2],
      [-1/2, 1-sqrt(3)/2, -1/2, 1+sqrt(3)/2]]"

definition Quad4_dN_dxi :: "real \<Rightarrow> real \<Rightarrow> mat" where
  "Quad4_dN_dxi xi eta =
     [[eta/4 - 1/4, xi/4 - 1/4],
      [-eta/4 + 1/4, -xi/4 - 1/4],
      [eta/4 + 1/4, xi/4 + 1/4],
      [-eta/4 - 1/4, -xi/4 + 1/4]]"

text \<open>
  The Jacobian of a plane quadrilateral, as \<open>Quad4\<close> and \<open>Quad8\<close> compute it from their
  \<open>dN_dxi\<close>.
\<close>

definition quad_geometry :: "mat \<Rightarrow> mat \<Rightarrow> real \<times> mat" where
  "quad_geometry X_mat dN_dxi =
     (let dX_dxi = matmul (mT X_mat) dN_dxi;
          det = dX_dxi!0!0 * dX_dxi!1!1 - dX_dxi!1!0 * dX_dxi!0!1;
          dxi_dX = smul (1/det) [[ dX_dxi!1!1, - (dX_dxi!0!1)],
                                 [- (dX_dxi!1!0),  dX_dxi!0!0]];
          B0_tilde = matmul dN_dxi dxi_dX
      in (det, B0_tilde))"

definition Quad4_geometry :: "vec \<Rightarrow> real \<times> real \<times> real \<Rightarrow> real \<times> mat" where
  "Quad4_geometry X gp =
     (case gp of (xi, eta, w) \<Rightarrow> quad_geometry (reshape X 2) (Quad4_dN_dxi xi eta))"

definition Quad4_compute_tensors :: "material \<Rightarrow> vec \<Rightarrow> vec \<Rightarrow> real \<Rightarrow> py_error + tensors" where
  "Quad4_compute_tensors m X u t' =
     (if length X \<noteq> 8 \<or> length u \<noteq> 8 then Inl ValueError
      else let t = m_thickness m
           in gauss_element 2 4 (S_Sv_and_C_2d m) Quad4_extrapolation_points NotFinite
                (\<lambda>det. det * t) (\<lambda>(xi, eta, w). w) (Quad4_geometry X) Quad4_gauss_points u)"


subsection \<open>Quad8\<close>

definition Quad8_gauss_points :: "(real \<times> real \<times> real) list" where
  "Quad8_gauss_points =
     (let g = sqrt(3/5);
          w = 5/9;
          w0 = 8/9
      in [(-g, -g, w*w),
           (g, -g, w*w ),
           (g, g, w*w),
           (-g, g, w*w),
           (0, -g, w0*w ),
           (g, 0, w*w0),
           (0, g, w0*w),
           (-g, 0, w*w0),
           (0, 0, w0*w0)])"

definition Quad8_extrapolation_points :: mat where
  "Quad8_extrapolation_points =
     [[5*sqrt(15)/18 + 10/9, 5/18, -5*sqrt(15)/18 + 10/9, 5/18, -5/9 - sqrt(15)/9, -5/9 + sqrt(15)/9, -5/9 + sqrt(15)/9, -5/9 - sqrt(15)/9, 4/9],
      [5/18, 5*sqrt(15)/18 + 10/9, 5/18, -5*sqrt(15)/18 + 10/9, -5/9 - sqrt(15)/9, -5/9 - sqrt(15)/9, -5/9 + sqrt(15)/9, -5/9 + sqrt(15)/9, 4/9],
      [-5*sqrt(15)/18 + 10/9, 5/18, 5*sqrt(15)/18 + 10/9, 5/18, -5/9 + sqrt(15)/9, -5/9 - sqrt(15)/9, -5/9 - sqrt(15)/9, -5/9 + sqrt(15)/9, 4/9],
      [5/18, -5*sqrt(15)/18 + 10/9, 5/18, 5*sqrt(15)/18 + 10/9, -5/9 + sqrt(15)/9, -5/9 + sqrt(15)/9, -5/9 - sqrt(15)/9, -5/9 - sqrt(15)/9, 4/9],
      [0, 0, 0, 0, sqrt(15)/6 + 5/6, 0, -sqrt(15)/6 + 5/6, 0, -2/3],
      [0, 0, 0, 0, 0, sqrt(15)/6 + 5/6, 0, -sqrt(15)/6 + 5/6, -2/3],
      [0, 0, 0, 0, -sqrt(15)/6 + 5/6, 0, sqrt(15)/6 + 5/6, 0, -2/3],
      [0, 0, 0, 0, 0, -sqrt(15)/6 + 5/6, 0, sqrt(15)/6 + 5/6, -2/3]]"

definition Quad8_dN_dxi :: "real \<Rightarrow> real \<Rightarrow> mat" where
  "Quad8_dN_dxi xi eta =
     [[-(eta - 1)*(eta + 2*xi)/4, -(2*eta + xi)*(xi - 1)/4],
      [(eta - 1)*(eta - 2*xi)/4, (2*eta - xi)*(xi + 1)/4],
      [(eta + 1)*(eta + 2*xi)/4, (2*eta + xi)*(xi + 1)/4],
      [-(eta + 1)*(eta - 2*xi)/4, -(2*eta - xi)*(xi - 1)/4],
      [xi*(eta - 1), (xi * xi)/2 - 1/2],
      [-(eta * eta)/2 + 1/2, -eta*(xi + 1)],
      [-xi*(eta + 1), -(xi * xi)/2 + 1/2],
      [(eta * eta)/2 - 1/2, eta*(xi - 1)]]"

definition Quad8_geometry :: "vec \<Rightarrow> real \<times> real \<times> real \<Rightarrow> real \<times> mat" where
  "Quad8_geometry X gp =
     (case gp of (xi, eta, w) \<Rightarrow> quad_geometry (reshape X 2) (Quad8_dN_dxi xi eta))"

definition Quad8_compute_tensors :: "material \<Rightarrow> vec \<Rightarrow> vec \<Rightarrow> real \<Rightarrow> py_error + tensors" where
  "Quad8_compute_tensors m X u t' =
     (if length X \<noteq> 16 \<or> length u \<noteq> 16 then Inl ValueError
      else let t = m_thickness m
           in gauss_element 2 8 (S_Sv_and_C_2d m) Quad8_extrapolation_points NotFinite
                (\<lambda>det. det * t) (\<lambda>(xi, eta, w). w) (Quad8_geometry X) Quad8_gauss_points u)"


subsection \<open>Tet4\<close>

definition Tet4_geometry :: "vec \<Rightarrow> real \<times> mat" where
  "Tet4_geometry X =
     (let X1 = X ! 0; Y1 = X ! 1; Z1 = X ! 2; X2 = X ! 3; Y2 = X ! 4; Z2 = X ! 5;
          X3 = X ! 6; Y3 = X ! 7; Z3 = X ! 8; X4 = X ! 9; Y4 = X ! 10; Z4 = X ! 11;
          det = -X1*Y2*Z3 + X1*Y2*Z4 + X1*Y3*Z2 - X1*Y3*Z4 - X1*Y4*Z2 + X1*Y4*Z3 + X2*Y1*Z3 - X2*Y1*Z4 - X2*Y3*Z1 + X2*Y3*Z4 + X2*Y4*Z1 - X2*Y4*Z3 - X3*Y1*Z2 + X3*Y1*Z4 + X3*Y2*Z1 - X3*Y2*Z4 - X3*Y4*Z1 + X3*Y4*Z2 + X4*Y1*Z2 - X4*Y1*Z3 - X4*Y2*Z1 + X4*Y2*Z3 + X4*Y3*Z1 - X4*Y3*Z2;
          B0_tilde = smul (1/det)
            [[-Y2*Z3 + Y2*Z4 + Y3*Z2 - Y3*Z4 - Y4*Z2 + Y4*Z3, X2*Z3 - X2*Z4 - X3*Z2 + X3*Z4 + X4*Z2 - X4*Z3, -X2*Y3 + X2*Y4 + X3*Y2 - X3*Y4 - X4*Y2 + X4*Y3],
             [Y1*Z3 - Y1*Z4 - Y3*Z1 + Y3*Z4 + Y4*Z1 - Y4*Z3, -X1*Z3 + X1*Z4 + X3*Z1 - X3*Z4 - X4*Z1 + X4*Z3, X1*Y3 - X1*Y4 - X3*Y1 + X3*Y4 + X4*Y1 - X4*Y3],
             [-Y1*Z2 + Y1*Z4 + Y2*Z1 - Y2*Z4 - Y4*Z1 + Y4*Z2, X1*Z2 - X1*Z4 - X2*Z1 + X2*Z4 + X4*Z1 - X4*Z2, -X1*Y2 + X1*Y4 + X2*Y1 - X2*Y4 - X4*Y1 + X4*Y2],
             [Y1*Z2 - Y1*Z3 - Y2*Z1 + Y2*Z3 + Y3*Z1 - Y3*Z2, -X1*Z2 + X1*Z3 + X2*Z1 - X2*Z3 - X3*Z1 + X3*Z2, X1*Y2 - X1*Y3 - X2*Y1 + X2*Y3 + X3*Y1 - X3*Y2]]
      in (det, B0_tilde))"

definition Tet4_compute_tensors :: "material \<Rightarrow> vec \<Rightarrow> vec \<Rightarrow> real \<Rightarrow> py_error + tensors" where
  "Tet4_compute_tensors m X u t =
     (if length X \<noteq> 12 \<or> length u \<noteq> 12 then Inl ValueError
      else let u_mat = reshape u 3;
               (det, B0_tilde) = Tet4_geometry X
           in if det = 0 then Inl NotFinite
              else case point_tensors 3 (S_Sv_and_C m) u_mat B0_tilde (det/6) of
                     Inl e \<Rightarrow> Inl e
                   | Inr p \<Rightarrow>
                      Inr \<lparr>t_K = gp_K p, t_f = gp_f p,
                           t_S = matmul (replicate 4 [1]) [voigt 3 (gp_S p)],
                           t_E = matmul (replicate 4 [1]) [voigt 3 (gp_E p)],
                           t_points = [p]\<rparr>)"


subsection \<open>Tet10\<close>

definition Tet10_gauss_points :: "(real \<times> real \<times> real \<times> real \<times> real) list" where
  "Tet10_gauss_points =
     (let a = (5 - sqrt(5)) / 20;
          b = (5 + 3*sqrt(5)) / 20;
          w = 1/4
      in [(b,a,a,a,w),
           (a,b,a,a,w),
           (a,a,b,a,w),
           (a,a,a,b,w)])"

definition Tet10_extrapolation_points :: mat where
  "Tet10_extrapolation_points =
     (let c1 = 1/4 + 3*sqrt(5)/4;
          c2 = -sqrt(5)/4 + 1/4;
          m1 = 1/4 + sqrt(5)/4;
          m2 = -sqrt(5)/4 + 1/4
      in mT
          [[c1, c2, c2, c2, m1, m2, m1, m1, m2, m2],
           [c2, c1, c2, c2, m1, m1, m2, m2, m1, m2],
           [c2, c2, c1, c2, m2, m1, m1, m2, m2, m1],
           [c2, c2, c2, c1, m2, m2, m2, m1, m1, m1]])"

definition Tet10_geometry :: "vec \<Rightarrow> real \<times> real \<times> real \<times> real \<times> real \<Rightarrow> real \<times> mat" where
  "Tet10_geometry X gp =
     (case gp of (L1, L2, L3, L4, w) \<Rightarrow>
      let X1 = X ! 0; Y1 = X ! 1; Z1 = X ! 2; X2 = X ! 3; Y2 = X ! 4; Z2 = X ! 5;
          X3 = X ! 6; Y3 = X ! 7; Z3 = X ! 8; X4 = X ! 9; Y4 = X ! 10; Z4 = X ! 11;
          X5 = X ! 12; Y5 = X ! 13; Z5 = X ! 14; X6 = X ! 15; Y6 = X ! 16; Z6 = X ! 17;
          X7 = X ! 18; Y7 = X ! 19; Z7 = X ! 20; X8 = X ! 21; Y8 = X ! 22; Z8 = X ! 23;
          X9 = X ! 24; Y9 = X ! 25; Z9 = X ! 26; X10 = X ! 27; Y10 = X ! 28; Z10 = X ! 29;
          Jx1 = 4*L2*X5 + 4*L3*X7 + 4*L4*X8 + X1*(4*L1 - 1);
          Jx2 = 4*L1*X5 + 4*L3*X6 + 4*L4*X9 + X2*(4*L2 - 1);
          Jx3 = 4*L1*X7 + 4*L2*X6 + 4*L4*X10 + X3*(4*L3 - 1);
          Jx4 = 4*L1*X8 + 4*L2*X9 + 4*L3*X10 + X4*(4*L4 - 1);
          Jy1 = 4*L2*Y5 + 4*L3*Y7 + 4*L4*Y8 + Y1*(4*L1 - 1);
          Jy2 = 4*L1*Y5 + 4*L3*Y6 + 4*L4*Y9 + Y2*(4*L2 - 1);
          Jy3 = 4*L1*Y7 + 4*L2*Y6 + 4*L4*Y10 + Y3*(4*L3 - 1);
          Jy4 = 4*L1*Y8 + 4*L2*Y9 + 4*L3*Y10 + Y4*(4*L4 - 1);
          Jz1 = 4*L2*Z5 + 4*L3*Z7 + 4*L4*Z8 + Z1*(4*L1 - 1);
          Jz2 = 4*L1*Z5 + 4*L3*Z6 + 4*L4*Z9 + Z2*(4*L2 - 1);
          Jz3 = 4*L1*Z7 + 4*L2*Z6 + 4*L4*Z10 + Z3*(4*L3 - 1);
          Jz4 = 4*L1*Z8 + 4*L2*Z9 + 4*L3*Z10 + Z4*(4*L4 - 1);
          det = -Jx1*Jy2*Jz3 + Jx1*Jy2*Jz4 + Jx1*Jy3*Jz2 - Jx1*Jy3*Jz4 - Jx1*Jy4*Jz2 + Jx1*Jy4*Jz3 + Jx2*Jy1*Jz3 - Jx2*Jy1*Jz4 - Jx2*Jy3*Jz1 + Jx2*Jy3*Jz4 + Jx2*Jy4*Jz1 - Jx2*Jy4*Jz3 - Jx3*Jy1*Jz2 + Jx3*Jy1*Jz4 + Jx3*Jy2*Jz1 - Jx3*Jy2*Jz4 - Jx3*Jy4*Jz1 + Jx3*Jy4*Jz2 + Jx4*Jy1*Jz2 - Jx4*Jy1*Jz3 - Jx4*Jy2*Jz1 + Jx4*Jy2*Jz3 + Jx4*Jy3*Jz1 - Jx4*Jy3*Jz2;
          a1 = -Jy2*Jz3 + Jy2*Jz4 + Jy3*Jz2 - Jy3*Jz4 - Jy4*Jz2 + Jy4*Jz3;
          a2 = Jy1*Jz3 - Jy1*Jz4 - Jy3*Jz1 + Jy3*Jz4 + Jy4*Jz1 - Jy4*Jz3;
          a3 = -Jy1*Jz2 + Jy1*Jz4 + Jy2*Jz1 - Jy2*Jz4 - Jy4*Jz1 + Jy4*Jz2;
          a4 = Jy1*Jz2 - Jy1*Jz3 - Jy2*Jz1 + Jy2*Jz3 + Jy3*Jz1 - Jy3*Jz2;
          b1 = Jx2*Jz3 - Jx2*Jz4 - Jx3*Jz2 + Jx3*Jz4 + Jx4*Jz2 - Jx4*Jz3;
          b2 = -Jx1*Jz3 + Jx1*Jz4 + Jx3*Jz1 - Jx3*Jz4 - Jx4*Jz1 + Jx4*Jz3;
          b3 = Jx1*Jz2 - Jx1*Jz4 - Jx2*Jz1 + Jx2*Jz4 + Jx4*Jz1 - Jx4*Jz2;
          b4 = -Jx1*Jz2 + Jx1*Jz3 + Jx2*Jz1 - Jx2*Jz3 - Jx3*Jz1 + Jx3*Jz2;
          c1 = -Jx2*Jy3 + Jx2*Jy4 + Jx3*Jy2 - Jx3*Jy4 - Jx4*Jy2 + Jx4*Jy3;
          c2 = Jx1*Jy3 - Jx1*Jy4 - Jx3*Jy1 + Jx3*Jy4 + Jx4*Jy1 - Jx4*Jy3;
          c3 = -Jx1*Jy2 + Jx1*Jy4 + Jx2*Jy1 - Jx2*Jy4 - Jx4*Jy1 + Jx4*Jy2;
          c4 = Jx1*Jy2 - Jx1*Jy3 - Jx2*Jy1 + Jx2*Jy3 + Jx3*Jy1 - Jx3*Jy2;
          B0_tilde = smul (1/det)
            [[a1*(4*L1 - 1), b1*(4*L1 - 1), c1*(4*L1 - 1)],
             [a2*(4*L2 - 1), b2*(4*L2 - 1), c2*(4*L2 - 1)],
             [a3*(4*L3 - 1), b3*(4*L3 - 1), c3*(4*L3 - 1)],
             [a4*(4*L4 - 1), b4*(4*L4 - 1), c4*(4*L4 - 1)],
             [4*L1*a2 + 4*L2*a1, 4*L1*b2 + 4*L2*b1, 4*L1*c2 + 4*L2*c1],
             [4*L2*a3 + 4*L3*a2, 4*L2*b3 + 4*L3*b2, 4*L2*c3 + 4*L3*c2],
             [4*L1*a3 + 4*L3*a1, 4*L1*b3 + 4*L3*b1, 4*L1*c3 + 4*L3*c1],
             [4*L1*a4 + 4*L4*a1, 4*L1*b4 + 4*L4*b1, 4*L1*c4 + 4*L4*c1],
             [4*L2*a4 + 4*L4*a2, 4*L2*b4 + 4*L4*b2, 4*L2*c4 + 4*L4*c2],
             [4*L3*a4 + 4*L4*a3, 4*L3*b4 + 4*L4*b3, 4*L3*c4 + 4*L4*c3]]
      in (det, B0_tilde))"

definition Tet10_compute_tensors :: "material \<Rightarrow> vec \<Rightarrow> vec \<Rightarrow> real \<Rightarrow> py_error + tensors" where
  "Tet10_compute_tensors m X u t =
     (if length X \<noteq> 30 \<or> length u \<noteq> 30 then Inl ValueError
      else gauss_element 3 10 (S_Sv_and_C m) Tet10_extrapolation_points NotFinite
             (\<lambda>det. det / 6) (\<lambda>(L1, L2, L3, L4, w). w) (Tet10_geometry X) Tet10_gauss_points u)"


subsection \<open>Hexa8\<close>

definition Hexa8_gauss_points :: "(real \<times> real \<times> real \<times> real) list" where
  "Hexa8_gauss_points =
     (let a = sqrt(1/3)
      in [(-a, a, a, 1),
           (a, a, a, 1),
           (-a, -a, a, 1),
           (a, -a, a, 1),
           (-a, a, -a, 1),
           (a, a, -a, 1),
           (-a, -a, -a, 1),
           (a, -a, -a, 1)])"

definition Hexa8_extrapolation_points :: mat where
  "Hexa8_extrapolation_points =
     (let b = ((-sqrt(3) + 1) * (-sqrt(3) + 1))*(sqrt(3) + 1)/8;
          c = ((-sqrt(3) + 1) * (-sqrt(3) + 1) * (-sqrt(3) + 1))/8;
          d = ((sqrt(3) + 1) * (sqrt(3) + 1) * (sqrt(3) + 1))/8;
          e = ((sqrt(3) + 1) * (sqrt(3) + 1))*(-sqrt(3) + 1)/8
      in [[b, c, e, b, e, b, d, e],
          [c, b, b, e, b, e, e, d],
          [b, e, c, b, e, d, b, e],
          [e, b, b, c, d, e, e, b],
          [e, b, d, e, b, c, e, b],
          [b, e, e, d, c, b, b, e],
          [e, d, b, e, b, e, c, b],
          [d, e, e, b, e, b, b, c]])"

definition Hexa8_dN_dxi :: "real \<Rightarrow> real \<Rightarrow> real \<Rightarrow> mat" where
  "Hexa8_dN_dxi xi eta zeta = smul (1/8)
     [[-(-eta+1)*(-zeta+1), -(-xi+1)*(-zeta+1), -(-eta+1)*(-xi+1)],
      [(-eta+1)*(-zeta+1), -(xi+1)*(-zeta+1), -(-eta+1)*(xi+1)],
      [(eta+1)*(-zeta+1), (xi+1)*(-zeta+1), -(eta+1)*(xi+1)],
      [-(eta+1)*(-zeta+1), (-xi+1)*(-zeta+1), -(eta+1)*(-xi+1)],
      [-(-eta+1)*(zeta+1), -(-xi+1)*(zeta+1), (-eta+1)*(-xi+1)],
      [(-eta+1)*(zeta+1), -(xi+1)*(zeta+1), (-eta+1)*(xi+1)],
      [(eta+1)*(zeta+1), (xi+1)*(zeta+1), (eta+1)*(xi+1)],
      [-(eta+1)*(zeta+1), (-xi+1)*(zeta+1), (eta+1)*(-xi+1)]]"

text \<open>
  The Jacobian of a hexahedron, as \<open>Hexa8\<close> and \<open>Hexa20\<close> compute it from their \<open>dN_dxi\<close>.
\<close>

definition hexa_geometry :: "mat \<Rightarrow> mat \<Rightarrow> real \<times> mat" where
  "hexa_geometry X_mat dN_dxi =
     (let dX_dxi = matmul (mT X_mat) dN_dxi;
          dxi_dX = inv3 dX_dxi;
          det = det3 dX_dxi;
          B0_tilde = matmul dN_dxi dxi_dX
      in (det, B0_tilde))"

definition Hexa8_geometry :: "vec \<Rightarrow> real \<times> real \<times> real \<times> real \<Rightarrow> real \<times> mat" where
  "Hexa8_geometry X gp =
     (case gp of (xi, eta, zeta, w) \<Rightarrow> hexa_geometry (reshape X 3) (Hexa8_dN_dxi xi eta zeta))"

definition Hexa8_compute_tensors :: "material \<Rightarrow> vec \<Rightarrow> vec \<Rightarrow> real \<Rightarrow> py_error + tensors" where
  "Hexa8_compute_tensors m X u t =
     (if length X \<noteq> 24 \<or> length u \<noteq> 24 then Inl ValueError
      else gauss_element 3 8 (S_Sv_and_C m) Hexa8_extrapolation_points LinAlgError
             (\<lambda>det. det) (\<lambda>(xi, eta, zeta, w). w) (Hexa8_geometry X) Hexa8_gauss_points u)"


subsection \<open>Hexa20\<close>

definition Hexa20_gauss_points :: "(real \<times> real \<times> real \<times> real) list" where
  "Hexa20_gauss_points =
     (let a = sqrt(3/5);
          wa = 5/9;
          w0 = 8/9
      in [(-a, -a, -a, wa*wa*wa),
           (0, -a, -a, w0*wa*wa),
           (a, -a, -a, wa*wa*wa),
           (-a, 0, -a, wa*w0*wa),
           (0, 0, -a, w0*w0*wa),
           (a, 0, -a, wa*w0*wa),
           (-a, a, -a, wa*wa*wa),
           (0, a, -a, w0*wa*wa),
           (a, a, -a, wa*wa*wa),
           (-a, -a, 0, wa*wa*w0),
           (0, -a, 0, w0*wa*w0),
           (a, -a, 0, wa*wa*w0),
           (-a, 0, 0, wa*w0*w0),
           (0, 0, 0, w0*w0*w0),
           (a, 0, 0, wa*w0*w0),
           (-a, a, 0, wa*wa*w0),
           (0, a, 0, w0*wa*w0),
           (a, a, 0, wa*wa*w0),
           (-a, -a, a, wa*wa*wa),
           (0, -a, a, w0*wa*wa),
           (a, -a, a, wa*wa*wa),
           (-a, 0, a, wa*w0*wa),
           (0, 0, a, w0*w0*wa),
           (a, 0, a, wa*w0*wa),
           (-a, a, a, wa*wa*wa),
           (0, a, a, w0*wa*wa),
           (a, a, a, wa*wa*wa)])"

definition Hexa20_extrapolation_points :: mat where
  "Hexa20_extrapolation_points =
     (let b = 13*sqrt(15)/36 + 17/12;
          c = (4 + sqrt(15))/9;
          d = (1 + sqrt(15))/36;
          e = (3 + sqrt(15))/27;
          f = 1/9;
          g = (1 - sqrt(15))/36;
          h = -2/27;
          i = (3 - sqrt(15))/27;
          j = -13*sqrt(15)/36 + 17/12;
          k = (-4 + sqrt(15))/9;
          l = (3 + sqrt(15))/18;
          m = sqrt(15)/6 + 2/3;
          n = 3/18;
          p = (- 3 + sqrt(15))/18;
          q = (4 - sqrt(15))/6
      in [[b,-c,d,-c,e,f,d,f,g,-c,e,f,e,h,i,f,i,k,d,f,g,f,i,k,g,k,j],
          [d,-c,b,f,e,-c,g,f,d,f,e,-c,i,h,e,k,i,f,g,f,d,k,i,f,j,k,g],
          [g,f,d,f,e,-c,d,-c,b,k,i,f,i,h,e,f,e,-c,j,k,g,k,i,f,g,f,d],
          [d,f,g,-c,e,f,b,-c,d,f,i,k,e,h,i,-c,e,f,g,k,j,f,i,k,d,f,g],
          [d,f,g,f,i,k,g,k,j,-c,e,f,e,h,i,f,i,k,b,-c,d,-c,e,f,d,f,g],
          [g,f,d,k,i,f,j,k,g,f,e,-c,i,h,e,k,i,f,d,-c,b,f,e,-c,g,f,d],
          [j,k,g,k,i,f,g,f,d,k,i,f,i,h,e,f,e,-c,g,f,d,f,e,-c,d,-c,b],
          [g,k,j,f,i,k,d,f,g,f,i,k,e,h,i,-c,e,f,d,f,g,-c,e,f,b,-c,d],
          [l,m,l,-l,-l,-l,n,-n,n,-l,-l,-l,f,f,f,p,p,p,n,-n,n,p,p,p,-p,q,-p],
          [n,-l,l,-n,-l,m,n,-l,l,p,f,-l,p,f,-l,p,f,-l,-p,p,n,q,p,-n,-p,p,n],
          [n,-n,n,-l,-l,-l,l,m,l,p,p,p,f,f,f,-l,-l,-l,-p,q,-p,p,p,p,n,-n,n],
          [l,-l,n,m,-l,-n,l,-l,n,-l,f,p,-l,f,p,-l,f,p,n,p,-p,-n,p,q,n,p,-p],
          [n,-n,n,p,p,p,-p,q,-p,-l,-l,-l,f,f,f,p,p,p,l,m,l,-l,-l,-l,n,-n,n],
          [-p,p,n,q,p,-n,-p,p,n,p,f,-l,p,f,-l,p,f,-l,n,-l,l,-n,-l,m,n,-l,l],
          [-p,q,-p,p,p,p,n,-n,n,p,p,p,f,f,f,-l,-l,-l,n,-n,n,-l,-l,-l,l,m,l],
          [n,p,-p,-n,p,q,n,p,-p,-l,f,p,-l,f,p,-l,f,p,l,-l,n,m,-l,-n,l,-l,n],
          [l,-l,n,-l,f,p,n,p,-p,m,-l,-n,-l,f,p,-n,p,q,l,-l,n,-l,f,p,n,p,-p],
          [n,-l,l,p,f,-l,-p,p,n,-n,-l,m,p,f,-l,q,p,-n,n,-l,l,p,f,-l,-p,p,n],
          [-p,p,n,p,f,-l,n,-l,l,q,p,-n,p,f,-l,-n,-l,m,-p,p,n,p,f,-l,n,-l,l],
          [n,p,-p,-l,f,p,l,-l,n,-n,p,q,-l,f,p,m,-l,-n,n,p,-p,-l,f,p,l,-l,n]])"

definition Hexa20_dN_dxi :: "real \<Rightarrow> real \<Rightarrow> real \<Rightarrow> mat" where
  "Hexa20_dN_dxi xi eta zeta = smul (1/8)
     [[(eta-1)*(zeta-1)*(eta+2*xi+zeta+1), (xi-1)*(zeta-1)*(2*eta+xi+zeta+1), (eta-1)*(xi-1)*(eta+xi+2*zeta+1)],
      [(eta-1)*(zeta-1)*(-eta+2*xi-zeta-1), (xi+1)*(zeta-1)*(-2*eta+xi-zeta-1), (eta-1)*(xi+1)*(-eta+xi-2*zeta-1)],
      [(eta+1)*(zeta-1)*(-eta-2*xi+zeta+1), (xi+1)*(zeta-1)*(-2*eta-xi+zeta+1), (eta+1)*(xi+1)*(-eta-xi+2*zeta+1)],
      [(eta+1)*(zeta-1)*(eta-2*xi-zeta-1), (xi-1)*(zeta-1)*(2*eta-xi-zeta-1), (eta+1)*(xi-1)*(eta-xi-2*zeta-1)],
      [(eta-1)*(zeta+1)*(-eta-2*xi+zeta-1), (xi-1)*(zeta+1)*(-2*eta-xi+zeta-1), (eta-1)*(xi-1)*(-eta-xi+2*zeta-1)],
      [(eta-1)*(zeta+1)*(eta-2*xi-zeta+1), (xi+1)*(zeta+1)*(2*eta-xi-zeta+1), (eta-1)*(xi+1)*(eta-xi-2*zeta+1)],
      [(eta+1)*(zeta+1)*(eta+2*xi+zeta-1), (xi+1)*(zeta+1)*(2*eta+xi+zeta-1), (eta+1)*(xi+1)*(eta+xi+2*zeta-1)],
      [(eta+1)*(zeta+1)*(-eta+2*xi-zeta+1), (xi-1)*(zeta+1)*(-2*eta+xi-zeta+1), (eta+1)*(xi-1)*(-eta+xi-2*zeta+1)],
      [-4*xi*(eta-1)*(zeta-1), -2*((xi * xi)-1)*(zeta-1), -2*(eta-1)*((xi * xi)-1)],
      [2*((eta * eta)-1)*(zeta-1), 4*eta*(xi+1)*(zeta-1), 2*((eta * eta)-1)*(xi+1)],
      [4*xi*(eta+1)*(zeta-1), 2*((xi * xi)-1)*(zeta-1), 2*(eta+1)*((xi * xi)-1)],
      [-2*((eta * eta)-1)*(zeta-1),-4*eta*(xi-1)*(zeta-1), -2*((eta * eta)-1)*(xi-1)],
      [4*xi*(eta-1)*(zeta+1), 2*((xi * xi)-1)*(zeta+1), 2*(eta-1)*((xi * xi)-1)],
      [-2*((eta * eta)-1)*(zeta+1),-4*eta*(xi+1)*(zeta+1), -2*((eta * eta)-1)*(xi+1)],
      [-4*xi*(eta+1)*(zeta+1), -2*((xi * xi)-1)*(zeta+1), -2*(eta+1)*((xi * xi)-1)],
      [2*((eta * eta)-1)*(zeta+1), 4*eta*(xi-1)*(zeta+1), 2*((eta * eta)-1)*(xi-1)],
      [-2*(eta-1)*((zeta * zeta)-1), -2*(xi-1)*((zeta * zeta)-1), -4*zeta*(eta-1)*(xi-1)],
      [2*(eta-1)*((zeta * zeta)-1), 2*(xi+1)*((zeta * zeta)-1), 4*zeta*(eta-1)*(xi+1)],
      [-2*(eta+1)*((zeta * zeta)-1), -2*(xi+1)*((zeta * zeta)-1), -4*zeta*(eta+1)*(xi+1)],
      [2*(eta+1)*((zeta * zeta)-1), 2*(xi-1)*((zeta * zeta)-1), 4*zeta*(eta+1)*(xi-1)]]"

definition Hexa20_geometry :: "vec \<Rightarrow> real \<times> real \<times> real \<times> real \<Rightarrow> real \<times> mat" where
  "Hexa20_geometry X gp =
     (case gp of (xi, eta, zeta, w) \<Rightarrow> hexa_geometry (reshape X 3) (Hexa20_dN_dxi xi eta zeta))"

definition Hexa20_compute_tensors :: "material \<Rightarrow> vec \<Rightarrow> vec \<Rightarrow> real \<Rightarrow> py_error + tensors" where
  "Hexa20_compute_tensors m X u t =
     (if length X \<noteq> 60 \<or> length u \<noteq> 60 then Inl ValueError
      else gauss_element 3 20 (S_Sv_and_C m) Hexa20_extrapolation_points LinAlgError
             (\<lambda>det. det) (\<lambda>(xi, eta, zeta, w). w) (Hexa20_geometry X) Hexa20_gauss_points u)"


subsection \<open>Prism6 and the boundary elements\<close>

text \<open>
  \<open>Prism6._compute_tensors\<close> prints a warning and returns: the buffers keep the zeros of
  the constructor, and there are no integration points. A boundary element sets
  \<open>K = np.zeros((ndof, ndof))\<close> in its constructor, and none of its methods assigns \<open>K\<close>
  again.
\<close>

definition Prism6_compute_tensors :: "material \<Rightarrow> vec \<Rightarrow> vec \<Rightarrow> real \<Rightarrow> py_error + tensors" where
  "Prism6_compute_tensors m X u t =
     Inr \<lparr>t_K = zeros 18 18, t_f = replicate 18 0, t_S = zeros 6 6, t_E = zeros 6 6, t_points = []\<rparr>"

definition BoundaryElement_K :: "nat \<Rightarrow> mat" where
  "BoundaryElement_K ndof = zeros ndof ndof"

subsection \<open>The element kinds\<close>

text \<open>
  The classes of plane and solid elements, and the dispatch of \<open>_compute_tensors\<close> on the
  class of the object. \<open>jacobians\<close> lists the determinants that the tensor computation
  divides by, one for every integration point.
\<close>

datatype element_kind = Tri3 | Tri6 | Quad4 | Quad8 | Tet4 | Tet10 | Hexa8 | Hexa20 | Prism6

fun no_of_nodes :: "element_kind \<Rightarrow> nat" where
  "no_of_nodes Tri3 = 3"
| "no_of_nodes Tri6 = 6"
| "no_of_nodes Quad4 = 4"
| "no_of_nodes Quad8 = 8"
| "no_of_nodes Tet4 = 4"
| "no_of_nodes Tet10 = 10"
| "no_of_nodes Hexa8 = 8"
| "no_of_nodes Hexa20 = 20"
| "no_of_nodes Prism6 = 6"

fun no_of_dims :: "element_kind \<Rightarrow> nat" where
  "no_of_dims Tri3 = 2"
| "no_of_dims Tri6 = 2"
| "no_of_dims Quad4 = 2"
| "no_of_dims Quad8 = 2"
| "no_of_dims Tet4 = 3"
| "no_of_dims Tet10 = 3"
| "no_of_dims Hexa8 = 3"
| "no_of_dims Hexa20 = 3"
| "no_of_dims Prism6 = 3"

definition no_of_dofs :: "element_kind \<Rightarrow> nat" where
  "no_of_dofs k = no_of_nodes k * no_of_dims k"

fun compute_tensors :: "element_kind \<Rightarrow> material \<Rightarrow> vec \<Rightarrow> vec \<Rightarrow> real \<Rightarrow> py_error + tensors" where
  "compute_tensors Tri3 = Tri3_compute_tensors"
| "compute_tensors Tri6 = Tri6_compute_tensors"
| "compute_tensors Quad4 = Quad4_compute_tensors"
| "compute_tensors Quad8 = Quad8_compute_tensors"
| "compute_tensors Tet4 = Tet4_compute_tensors"
| "compute_tensors Tet10 = Tet10_compute_tensors"
| "compute_tensors Hexa8 = Hexa8_compute_tensors"
| "compute_tensors Hexa20 = Hexa20_compute_tensors"
| "compute_tensors Prism6 = Prism6_compute_tensors"

fun jacobians :: "element_kind \<Rightarrow> vec \<Rightarrow> real list" where
  "jacobians Tri3 X = [fst (Tri3_geometry X)]"
| "jacobians Tri6 X = map (\<lambda>gp. fst (Tri6_geometry X gp)) Tri6_gauss_points"
| "jacobians Quad4 X = map (\<lambda>gp. fst (Quad4_geometry X gp)) Quad4_gauss_points"
| "jacobians Quad8 X = map (\<lambda>gp. fst (Quad8_geometry X gp)) Quad8_gauss_points"
| "jacobians Tet4 X = [fst (Tet4_geometry X)]"
| "jacobians Tet10 X = map (\<lambda>gp. fst (Tet10_geometry X gp)) Tet10_gauss_points"
| "jacobians Hexa8 X = map (\<lambda>gp. fst (Hexa8_geometry X gp)) Hexa8_gauss_points"
| "jacobians Hexa20 X = map (\<lambda>gp. fst (Hexa20_geometry X gp)) Hexa20_gauss_points"
| "jacobians Prism6 X = []"

text \<open>
  The law of the material that the elements of a kind call, the Voigt length, and the
  displacement field with a constant vector added at every node.
\<close>

definition law_of :: "element_kind \<Rightarrow> material \<Rightarrow> mat \<Rightarrow> mat \<times> vec \<times> mat" where
  "law_of k m = (if no_of_dims k = 2 then S_Sv_and_C_2d m else S_Sv_and_C m)"

definition no_of_voigt :: "element_kind \<Rightarrow> nat" where
  "no_of_voigt k = no_of_dims k * (no_of_dims k + 1) div 2"

definition translate :: "nat \<Rightarrow> vec \<Rightarrow> vec \<Rightarrow> vec" where
  "translate ndim u c = map (\<lambda>p. u ! p + c ! (p mod ndim)) [0..<length u]"

subsection \<open>Properties of materials and of shape-function tables\<close>

text \<open>
  The material returns a symmetric stress tensor and a symmetric tangent, of the shapes
  of the element's dimension, for every symmetric strain tensor of that dimension.
\<close>

definition law_symmetric :: "nat \<Rightarrow> (mat \<Rightarrow> mat \<times> vec \<times> mat) \<Rightarrow> bool" where
  "law_symmetric ndim law =
     (\<forall>E. symmetric E \<and> length E = ndim \<longrightarrow>
        (case law E of (S, S_v, C_SE) \<Rightarrow>
           symmetric S \<and> length S = ndim \<and> length S_v = ndim * (ndim + 1) div 2 \<and>
           symmetric C_SE \<and> length C_SE = ndim * (ndim + 1) div 2))"


text \<open>
  A material for the examples, with the stress twice the strain in both laws and a
  diagonal tangent.
\<close>

definition example_material :: material where
  "example_material =
     \<lparr>m_E = 1, m_crossec = 1, m_rho = 1, m_thickness = 1,
      S_Sv_and_C_2d = (\<lambda>E. (smul 2 E, [2 * E ! 0 ! 0, 2 * E ! 1 ! 1, 2 * E ! 0 ! 1],
                              [[2, 0, 0], [0, 2, 0], [0, 0, 1]])),
      S_Sv_and_C = (\<lambda>E. (smul 2 E,
                           [2 * E ! 0 ! 0, 2 * E ! 1 ! 1, 2 * E ! 2 ! 2,
                            2 * E ! 1 ! 2, 2 * E ! 0 ! 2, 2 * E ! 0 ! 1],
                           [[2, 0, 0, 0, 0, 0], [0, 2, 0, 0, 0, 0], [0, 0, 2, 0, 0, 0],
                            [0, 0, 0, 1, 0, 0], [0, 0, 0, 0, 1, 0], [0, 0, 0, 0, 0, 1]]))\<rparr>"

section \<open>The sparse non-negative least-squares solver\<close>

subsection \<open>Array helpers\<close>

text \<open>
  \<open>x[mask]\<close>, \<open>np.where(mask)[0]\<close>, \<open>np.where(x)[0]\<close>, \<open>G[:, mask]\<close>, the assignment
  \<open>x[mask] = vals\<close>, and \<open>np.argmax\<close>, \<open>np.argmin\<close>, \<open>np.min\<close>, which raise \<open>ValueError\<close> on
  an empty array and return the first position of the extremum.
\<close>

definition select :: "'a list \<Rightarrow> bool list \<Rightarrow> 'a list" where
  "select xs msk = map fst (filter snd (zip xs msk))"

definition where_true :: "bool list \<Rightarrow> nat list" where
  "where_true msk = filter (\<lambda>i. msk ! i) [0..<length msk]"

definition where_nonzero :: "vec \<Rightarrow> nat list" where
  "where_nonzero x = filter (\<lambda>i. x ! i \<noteq> 0) [0..<length x]"

definition cols :: "mat \<Rightarrow> bool list \<Rightarrow> mat" where
  "cols G msk = map (\<lambda>row. select row msk) G"

fun put_masked :: "vec \<Rightarrow> bool list \<Rightarrow> vec \<Rightarrow> vec" where
  "put_masked (z # zs) (True # ms) (v # vs) = v # put_masked zs ms vs"
| "put_masked (z # zs) (False # ms) vs = z # put_masked zs ms vs"
| "put_masked zs ms vs = zs"

fun arg_best :: "(real \<Rightarrow> real \<Rightarrow> bool) \<Rightarrow> nat \<Rightarrow> real \<Rightarrow> nat \<Rightarrow> vec \<Rightarrow> nat" where
  "arg_best better bi bv i [] = bi"
| "arg_best better bi bv i (x # xs) =
     (if better x bv then arg_best better i x (Suc i) xs else arg_best better bi bv (Suc i) xs)"

definition argmax :: "vec \<Rightarrow> py_error + nat" where
  "argmax xs = (case xs of [] \<Rightarrow> Inl ValueError | x # xs' \<Rightarrow> Inr (arg_best (\<lambda>a b. a > b) 0 x 1 xs'))"

definition argmin :: "vec \<Rightarrow> py_error + nat" where
  "argmin xs = (case xs of [] \<Rightarrow> Inl ValueError | x # xs' \<Rightarrow> Inr (arg_best (\<lambda>a b. a < b) 0 x 1 xs'))"

definition np_min :: "vec \<Rightarrow> py_error + real" where
  "np_min xs = (case xs of [] \<Rightarrow> Inl ValueError | x # xs' \<Rightarrow> Inr (fold min xs' x))"

subsection \<open>The linear solver\<close>

text \<open>
  \<open>scipy.linalg.solve(A, rhs)\<close> is a library routine: it returns the solution of the
  square system, and raises \<open>LinAlgError\<close> when the matrix is singular. Over exact
  arithmetic that is Gaussian elimination. \<open>gauss n rows\<close> works on the \<open>n\<close> rows of the
  augmented matrix: it takes the first row with a non-zero leading entry as pivot row,
  eliminates the leading column from the other rows, solves the remaining system and
  substitutes back.
\<close>

fun pivot :: "vec list \<Rightarrow> vec list \<Rightarrow> (vec \<times> vec list) option" where
  "pivot seen [] = None"
| "pivot seen (r # rs) = (if hd r \<noteq> 0 then Some (r, rev seen @ rs) else pivot (r # seen) rs)"

fun gauss :: "nat \<Rightarrow> vec list \<Rightarrow> vec option" where
  "gauss 0 rows = Some []"
| "gauss (Suc n) rows =
     (case pivot [] rows of
        None \<Rightarrow> None
      | Some (p, rest) \<Rightarrow>
          let p' = map (\<lambda>x. x / hd p) (tl p);
              rest' = map (\<lambda>r. map2 (\<lambda>x y. x - hd r * y) (tl r) p') rest
          in (case gauss n rest' of
                None \<Rightarrow> None
              | Some xs \<Rightarrow> Some ((last p' - (\<Sum>k\<leftarrow>[0..<n]. p' ! k * xs ! k)) # xs)))"

definition solve :: "mat \<Rightarrow> vec \<Rightarrow> py_error + vec" where
  "solve A rhs =
     (if \<not> is_mat (length A) (length A) A \<or> length rhs \<noteq> length A then Inl ValueError
      else case gauss (length A) (map2 (\<lambda>row y. row @ [y]) A rhs) of
             None \<Rightarrow> Inl LinAlgError
           | Some x \<Rightarrow> Inr x)"

subsection \<open>The inner loop\<close>

text \<open>
  The state of \<open>sparse_nnls\<close>. Inside the inner loop \<open>xi\<close> can become \<open>nan\<close>: the quotient
  \<open>xi[mask] / (xi[mask] - zeta[mask])\<close> is \<open>0/0\<close> at an entry where both are zero, \<open>np.min\<close>
  and \<open>np.argmin\<close> then return \<open>nan\<close> and the position of the first \<open>nan\<close>, and
  \<open>xi += alpha * (zeta - xi)\<close> makes every entry of \<open>xi\<close> \<open>nan\<close>. The model writes that vector
  as \<open>None\<close>; with it every quotient is \<open>nan\<close> and \<open>np.argmin\<close> returns position \<open>0\<close>. The
  vector becomes a real vector again when a trial solution is accepted. A quotient with
  a non-zero numerator over zero would be infinite; it needs a negative entry of \<open>xi\<close>
  and is reported as \<open>NotFinite\<close>.
\<close>

record nnls_state =
  nn_xi :: "vec option"
  nn_zeta :: vec
  nn_active_set :: "bool list"
  nn_r :: vec
  nn_stats :: "(nat \<times> real) list"

datatype 'a loop = Break 'a | Continue 'a

definition quotients :: "vec option \<Rightarrow> vec \<Rightarrow> bool list \<Rightarrow> py_error + (nat \<times> real option)" where
  "quotients x z msk =
     (case x of
        None \<Rightarrow> (if where_true msk = [] then Inl ValueError else Inr (0, None))
      | Some x' \<Rightarrow>
          let xm = select x' msk; zm = select z msk;
              nans = filter (\<lambda>k. xm ! k = 0 \<and> zm ! k = 0) [0..<length xm]
          in if xm = [] then Inl ValueError
             else if nans \<noteq> [] then Inr (hd nans, None)
             else if list_ex (\<lambda>k. xm ! k - zm ! k = 0) [0..<length xm] then Inl NotFinite
             else let q = map2 (\<lambda>a c. a / (a - c)) xm zm in
               (case argmin q of Inl e \<Rightarrow> Inl e | Inr ele_const \<Rightarrow>
                case np_min q of Inl e \<Rightarrow> Inl e | Inr alpha \<Rightarrow> Inr (ele_const, Some alpha)))"

definition inner_step :: "mat \<Rightarrow> vec \<Rightarrow> nnls_state \<Rightarrow> py_error + nnls_state loop" where
  "inner_step G b s =
     (let zeta1 = map2 (\<lambda>z a. if a then z else 0) (nn_zeta s) (nn_active_set s);
          G_red = cols G (nn_active_set s)
      in case solve (matmul (mT G_red) G_red) (matvec (mT G_red) b) of Inl e \<Rightarrow> Inl e | Inr sol \<Rightarrow>
         let zeta2 = put_masked zeta1 (nn_active_set s) sol in
         case np_min (select zeta2 (nn_active_set s)) of Inl e \<Rightarrow> Inl e | Inr m \<Rightarrow>
         if m \<ge> 0 then Inr (Break (s\<lparr>nn_xi := Some zeta2, nn_zeta := zeta2\<rparr>))
         else let msk = map2 (\<lambda>z a. z \<le> 0 \<and> a) zeta2 (nn_active_set s) in
           case quotients (nn_xi s) zeta2 msk of Inl e \<Rightarrow> Inl e | Inr (ele_const, alpha) \<Rightarrow>
           let const_idx = where_true msk ! ele_const;
               xi' = (case (nn_xi s, alpha) of
                        (Some x, Some al) \<Rightarrow> Some (vadd x (vsmul al (vsub zeta2 x)))
                      | _ \<Rightarrow> None)
           in Inr (Continue (s\<lparr>nn_xi := xi', nn_zeta := zeta2,
                                  nn_active_set := (nn_active_set s)[const_idx := False]\<rparr>)))"

text \<open>
  The loop \<open>while True\<close> terminates: every pass that does not break takes one index out of
  the active set.
\<close>

lemma arg_best_bound: "bi < i \<Longrightarrow> arg_best better bi bv i xs < i + length xs"
proof (induction xs arbitrary: bi bv i)
  case Nil
  then show ?case by simp
next
  case (Cons x xs)
  have "arg_best better i x (Suc i) xs < Suc i + length xs"
    by (rule Cons.IH) simp
  moreover have "arg_best better bi bv (Suc i) xs < Suc i + length xs"
    by (rule Cons.IH) (use Cons.prems in simp)
  ultimately show ?case by simp
qed

lemma argmin_bound: "argmin q = Inr k \<Longrightarrow> k < length q"
  using arg_best_bound[of 0 1] by (cases q) (auto simp: argmin_def)

lemma length_where_true: "length (where_true msk) = length (filter id msk)"
proof -
  have "filter id msk = filter id (map ((!) msk) [0..<length msk])"
    by (simp only: map_nth)
  also have "\<dots> = map ((!) msk) (filter (\<lambda>i. msk ! i) [0..<length msk])"
    by (simp add: filter_map comp_def)
  finally show ?thesis by (simp add: where_true_def)
qed

lemma length_filter_zip_le: "length (filter snd (zip xs msk)) \<le> length (filter id msk)"
proof (induction msk arbitrary: xs)
  case Nil
  then show ?case by simp
next
  case (Cons m msk)
  show ?case
  proof (cases xs)
    case Nil
    then show ?thesis by simp
  next
    case (Cons x xs')
    with Cons.IH[of xs'] show ?thesis by simp
  qed
qed

lemma length_select_le: "length (select xs msk) \<le> length (where_true msk)"
  by (simp add: select_def length_where_true length_filter_zip_le)

lemma quotients_bound:
  "quotients x z msk = Inr (k, al) \<Longrightarrow> k < length (where_true msk)"
proof (cases x)
  case None
  assume "quotients x z msk = Inr (k, al)"
  with None show ?thesis by (auto simp: quotients_def split: if_splits)
next
  case (Some x')
  assume q: "quotients x z msk = Inr (k, al)"
  let ?xm = "select x' msk" and ?zm = "select z msk"
  let ?nans = "filter (\<lambda>k. ?xm ! k = 0 \<and> ?zm ! k = 0) [0..<length ?xm]"
  have le: "length ?xm \<le> length (where_true msk)" by (rule length_select_le)
  show ?thesis
  proof (cases "?nans = []")
    case True
    with q Some have "\<exists>alpha. argmin (map2 (\<lambda>a c. a / (a - c)) ?xm ?zm) = Inr k"
      by (auto simp: quotients_def Let_def split: if_splits sum.splits)
    then have "k < length ?xm" by (auto dest: argmin_bound)
    with le show ?thesis by simp
  next
    case False
    with q Some have k: "k = hd ?nans"
      by (auto simp: quotients_def Let_def split: if_splits)
    have "set ?nans \<subseteq> {0..<length ?xm}" by auto
    with hd_in_set[OF False] have "hd ?nans < length ?xm" by auto
    with k le show ?thesis by simp
  qed
qed

lemma count_update_False:
  "i < length m \<Longrightarrow> m ! i \<Longrightarrow> length (filter id (m[i := False])) < length (filter id m)"
proof (induction m arbitrary: i)
  case Nil
  then show ?case by simp
next
  case (Cons a m)
  then show ?case by (cases i) auto
qed

lemma inner_step_decreases:
  assumes "inner_step G b s = Inr (Continue s')"
  shows "length (filter id (nn_active_set s')) < length (filter id (nn_active_set s))"
proof -
  from assms obtain zeta2 k al where
    q: "quotients (nn_xi s) zeta2 (map2 (\<lambda>z a. z \<le> 0 \<and> a) zeta2 (nn_active_set s)) = Inr (k, al)"
    and s': "nn_active_set s' = (nn_active_set s)
        [where_true (map2 (\<lambda>z a. z \<le> 0 \<and> a) zeta2 (nn_active_set s)) ! k := False]"
    by (auto simp: inner_step_def Let_def split: sum.splits if_splits prod.splits)
  let ?msk = "map2 (\<lambda>z a. z \<le> 0 \<and> a) zeta2 (nn_active_set s)"
  have "k < length (where_true ?msk)" using q by (rule quotients_bound)
  then have "where_true ?msk ! k \<in> set (where_true ?msk)" by simp
  then have "where_true ?msk ! k < length ?msk \<and> ?msk ! (where_true ?msk ! k)"
    by (simp add: where_true_def)
  then have "where_true ?msk ! k < length (nn_active_set s) \<and> nn_active_set s ! (where_true ?msk ! k)"
    by auto
  then show ?thesis unfolding s' by (intro count_update_False) simp_all
qed

function inner_loop :: "mat \<Rightarrow> vec \<Rightarrow> nnls_state \<Rightarrow> py_error + nnls_state" where
  "inner_loop G b s =
     (case inner_step G b s of
        Inl e \<Rightarrow> Inl e
      | Inr (Break s') \<Rightarrow> Inr s'
      | Inr (Continue s') \<Rightarrow> inner_loop G b s')"
  by pat_completeness auto
termination
  by (relation "measure (\<lambda>(G, b, s). length (filter id (nn_active_set s)))")
     (auto dest: inner_step_decreases)

subsection \<open>The outer loop and the solver\<close>

text \<open>
  One pass of \<open>while np.linalg.norm(r) > tau * norm_b\<close>. \<open>G.T @ r\<close> raises \<open>ValueError\<close> when
  the shapes do not fit. The printed messages are no part of the model.
\<close>

definition outer_body :: "mat \<Rightarrow> vec \<Rightarrow> bool \<Rightarrow> nnls_state \<Rightarrow> py_error + nnls_state" where
  "outer_body G b conv_stats s =
     (if length (nn_r s) \<noteq> nrows G then Inl ValueError
      else let mu = matvec (mT G) (nn_r s) in
      case argmax mu of Inl e \<Rightarrow> Inl e | Inr idx \<Rightarrow>
      case inner_loop G b (s\<lparr>nn_active_set := (nn_active_set s)[idx := True]\<rparr>) of
        Inl e \<Rightarrow> Inl e
      | Inr s1 \<Rightarrow>
         (case nn_xi s1 of
            None \<Rightarrow> Inl NotFinite
          | Some x \<Rightarrow>
             let r = vsub b (matvec (cols G (nn_active_set s1)) (select x (nn_active_set s1)))
             in Inr (s1\<lparr>nn_r := r,
                        nn_stats := (if conv_stats
                                     then nn_stats s1 @ [(length (where_nonzero x), norm2 r)]
                                     else nn_stats s1)\<rparr>)))"

text \<open>
  The outer loop has no bound on its passes and need not terminate; \<open>None\<close> is the run
  that never returns.
\<close>

partial_function (option) nnls_while ::
    "mat \<Rightarrow> vec \<Rightarrow> real \<Rightarrow> bool \<Rightarrow> real \<Rightarrow> nnls_state \<Rightarrow> (py_error + nnls_state) option" where
  "nnls_while G b tau conv_stats norm_b s =
     (if norm2 (nn_r s) > tau * norm_b
      then (case outer_body G b conv_stats s of
              Inl e \<Rightarrow> Some (Inl e)
            | Inr s' \<Rightarrow> nnls_while G b tau conv_stats norm_b s')
      else Some (Inr s))"

definition sparse_nnls_run :: "mat \<Rightarrow> vec \<Rightarrow> real \<Rightarrow> bool \<Rightarrow> (py_error + nnls_state) option" where
  "sparse_nnls_run G b tau conv_stats =
     (let no_of_elements = ncols G;
          norm_b = norm2 b
      in nnls_while G b tau conv_stats norm_b
           \<lparr>nn_xi = Some (replicate no_of_elements 0), nn_zeta = replicate no_of_elements 0,
            nn_active_set = replicate no_of_elements False, nn_r = b, nn_stats = []\<rparr>)"

text \<open>
  \<open>sparse_nnls\<close> returns \<open>indices = np.where(xi)[0]\<close>, \<open>xi_red = xi[active_set]\<close> and the
  statistics.
\<close>

definition sparse_nnls ::
    "mat \<Rightarrow> vec \<Rightarrow> real \<Rightarrow> bool \<Rightarrow> bool \<Rightarrow> (py_error + (nat list \<times> vec \<times> (nat \<times> real) list)) option" where
  "sparse_nnls G b tau conv_stats verbose =
     (case sparse_nnls_run G b tau conv_stats of
        None \<Rightarrow> None
      | Some (Inl e) \<Rightarrow> Some (Inl e)
      | Some (Inr s) \<Rightarrow>
          (case nn_xi s of
             None \<Rightarrow> Some (Inl NotFinite)
           | Some x \<Rightarrow> Some (Inr (where_nonzero x, select x (nn_active_set s), nn_stats s))))"

section \<open>The hyper-reduced system\<close>

text \<open>
  \<open>ECSWSystem\<close> (ecsw.py) extends \<open>ReducedSystem\<close>, whose module is not part of the
  sources at hand. A system object is a record of the attributes that ecsw.py reads and
  writes; an attribute that holds \<open>None\<close> (or does not exist yet) is \<open>None\<close>, and the
  \<open>more\<close> part of the record stands for every other attribute. The collaborators are
  parameters: the assembly engine with its direct and indirect hyper-reduced assembly and
  the assembly of \<open>G\<close> and \<open>b\<close>, the mesh with its number of elements, and the Dirichlet
  constraint set with \<open>unconstrain_vec\<close>. \<open>sys_class\<close> is the object's \<open>__class__\<close>.
\<close>

datatype sys_class = MechanicalSystem | ReducedSystem | ECSWSystem

record assembly =
  assemble_k_and_f_hyper ::
    "mat option \<Rightarrow> nat list option \<Rightarrow> vec option \<Rightarrow> vec \<Rightarrow> real \<Rightarrow> py_error + (mat \<times> vec)"
  assemble_k_and_f_hyper_no_inplace ::
    "mat option \<Rightarrow> nat list option \<Rightarrow> vec option \<Rightarrow> vec \<Rightarrow> real \<Rightarrow> py_error + (mat \<times> vec)"
  assemble_g_and_b :: "mat \<Rightarrow> mat \<Rightarrow> bool \<Rightarrow> py_error + (mat \<times> vec)"

record mesh =
  no_of_elements :: nat

record dirichlet =
  unconstrain_vec :: "mat \<Rightarrow> mat"

record system =
  sys_class :: sys_class
  sys_V :: "mat option"
  sys_V_unconstr :: "mat option"
  sys_weights :: "vec option"
  sys_weight_idx :: "nat list option"
  sys_u_red_output :: "vec list"
  sys_M_constr :: "mat option"
  sys_D_constr :: "mat option"
  sys_assembly_type :: string
  sys_assembly_class :: assembly
  sys_mesh_class :: mesh
  sys_dirichlet_class :: dirichlet

subsection \<open>The operator accessors\<close>

text \<open>
  The argument \<open>u\<close> of a call is either left out or passed, and what is passed is an
  array or \<open>None\<close>. \<open>K_and_f\<close> and \<open>K\<close> declare \<open>u=None\<close>: a call without \<open>u\<close> binds
  \<open>None\<close>. \<open>f_int\<close> declares \<open>u\<close> without a default: a call without \<open>u\<close> raises
  \<open>TypeError\<close> before the body runs.
\<close>

datatype 'a argument = Omitted | Passed 'a

definition with_default :: "'a \<Rightarrow> 'a argument \<Rightarrow> 'a" where
  "with_default d a = (case a of Omitted \<Rightarrow> d | Passed v \<Rightarrow> v)"

definition required :: "'a argument \<Rightarrow> py_error + 'a" where
  "required a = (case a of Omitted \<Rightarrow> Inl TypeError | Passed v \<Rightarrow> Inr v)"

text \<open>
  The three accessors have the same body and differ in what they return. A \<open>u\<close> that is
  \<open>None\<close> is replaced by \<open>np.zeros(self.V.shape[1])\<close>. The \<open>ValueError\<close> of the last branch
  is the error that the specification calls InvalidConfiguration.
\<close>

definition default_u :: "'a system_scheme \<Rightarrow> vec option \<Rightarrow> py_error + vec" where
  "default_u self u =
     (case u of
        Some u' \<Rightarrow> Inr u'
      | None \<Rightarrow> (case sys_V self of None \<Rightarrow> Inl AttributeError
                 | Some V \<Rightarrow> Inr (replicate (ncols V) 0)))"

definition hyper_assembly :: "'a system_scheme \<Rightarrow> vec option \<Rightarrow> real \<Rightarrow> py_error + (mat \<times> vec)" where
  "hyper_assembly self u t =
     (case default_u self u of Inl e \<Rightarrow> Inl e | Inr u' \<Rightarrow>
      if sys_assembly_type self = ''direct''
      then assemble_k_and_f_hyper (sys_assembly_class self)
             (sys_V_unconstr self) (sys_weight_idx self) (sys_weights self) u' t
      else if sys_assembly_type self = ''indirect''
      then assemble_k_and_f_hyper_no_inplace (sys_assembly_class self)
             (sys_V_unconstr self) (sys_weight_idx self) (sys_weights self) u' t
      else Inl ValueError)"

definition K_and_f ::
    "'a system_scheme \<Rightarrow> vec option argument \<Rightarrow> real \<Rightarrow> py_error + (mat \<times> vec)" where
  "K_and_f self u t =
     (case hyper_assembly self (with_default None u) t of
        Inl e \<Rightarrow> Inl e | Inr (K, f_int) \<Rightarrow> Inr (K, f_int))"

definition ecsw_K :: "'a system_scheme \<Rightarrow> vec option argument \<Rightarrow> real \<Rightarrow> py_error + mat" where
  "ecsw_K self u t =
     (case hyper_assembly self (with_default None u) t of
        Inl e \<Rightarrow> Inl e | Inr (K, f_int) \<Rightarrow> Inr K)"

definition ecsw_f_int :: "'a system_scheme \<Rightarrow> vec option argument \<Rightarrow> real \<Rightarrow> py_error + vec" where
  "ecsw_f_int self u t =
     (case required u of
        Inl e \<Rightarrow> Inl e
      | Inr u' \<Rightarrow>
         (case hyper_assembly self u' t of Inl e \<Rightarrow> Inl e | Inr (K, f_int) \<Rightarrow> Inr f_int))"

subsection \<open>Mesh reduction\<close>

text \<open>
  \<open>reduce_mesh\<close> stores what \<open>sparse_nnls\<close> returns. The result is \<open>None\<close> when the solver
  does not return.
\<close>

definition reduce_mesh ::
    "'a system_scheme \<Rightarrow> mat \<Rightarrow> real \<Rightarrow> bool \<Rightarrow>
     (py_error + ((nat list \<times> vec \<times> (nat \<times> real) list) \<times> 'a system_scheme)) option" where
  "reduce_mesh self W_red tau verbose =
     (case sys_V_unconstr self of None \<Rightarrow> Some (Inl TypeError) | Some V_unconstr \<Rightarrow>
      let W_unconstr = matmul V_unconstr W_red in
      case assemble_g_and_b (sys_assembly_class self) V_unconstr W_unconstr verbose of
        Inl e \<Rightarrow> Some (Inl e)
      | Inr (G, b) \<Rightarrow>
         (case sparse_nnls G b tau verbose verbose of
            None \<Rightarrow> None
          | Some (Inl e) \<Rightarrow> Some (Inl e)
          | Some (Inr (xi_indices, xi, stats)) \<Rightarrow>
              Some (Inr ((xi_indices, xi, stats),
                         self\<lparr>sys_weight_idx := Some xi_indices, sys_weights := Some xi\<rparr>))))"

subsection \<open>Export\<close>

text \<open>
  A field of the export is a pair of an array and a dictionary of attributes. Lists are
  objects: a list store holds the content of every list, and a reference is a position
  in the store. \<open>field_list.copy()\<close> and \<open>[]\<close> allocate a new list, \<open>append\<close> changes the
  list that the reference names.
\<close>

datatype h5val = HBool bool | HStr string | HInt int

datatype ndarray = Arr1 vec | Arr2 mat

type_synonym field = "ndarray \<times> (string \<times> h5val) list"

type_synonym list_store = "field list list"

text \<open>
  \<open>xi[idx] = w\<close> for an array of indices: the shapes must agree, up to broadcasting a
  single value; an index beyond the end raises \<open>IndexError\<close>; the values are stored one
  after the other, so the last one wins at a repeated index. While the attributes are
  still \<open>None\<close>: \<open>xi[None] = w\<close> assigns to the whole array, and the value \<open>None\<close> is
  stored as \<open>nan\<close>, which leaves no real array as soon as one position is assigned.
\<close>

definition index_put :: "vec \<Rightarrow> nat list option \<Rightarrow> vec option \<Rightarrow> py_error + vec" where
  "index_put x idx w =
     (case (idx, w) of
        (None, None) \<Rightarrow> (if x = [] then Inr x else Inl NotFinite)
      | (Some idx', None) \<Rightarrow>
          (if list_ex (\<lambda>i. i \<ge> length x) idx' then Inl IndexError
           else if idx' = [] then Inr x else Inl NotFinite)
      | (None, Some w') \<Rightarrow>
          (if length w' = length x then Inr w'
           else if length w' = 1 then Inr (replicate (length x) (w' ! 0))
           else Inl ValueError)
      | (Some idx', Some w') \<Rightarrow>
          (if length w' \<noteq> length idx' \<and> length w' \<noteq> 1 then Inl ValueError
           else if list_ex (\<lambda>i. i \<ge> length x) idx' then Inl IndexError
           else let w'' = (if length w' = length idx' then w' else replicate (length idx') (w' ! 0))
                in Inr (fold (\<lambda>(i, v) y. y[i := v]) (zip idx' w'') x)))"

definition h5_xi_dict :: "(string \<times> h5val) list" where
  "h5_xi_dict = [(''ParaView'', HBool True),
                 (''AttributeType'', HStr ''Scalar''),
                 (''Center'', HStr ''Cell''),
                 (''Name'', HStr ''weights_hyper_red''),
                 (''NoOfComponents'', HInt 1)]"

text \<open>
  \<open>export_paraview\<close> ends in the call \<open>ReducedSystem.export_paraview(self, filename,
  new_field_list)\<close> of the inherited method. The model returns the arguments of that call
  (the file name and the reference of the new list) and the list store at the call.
\<close>

definition export_paraview ::
    "'a system_scheme \<Rightarrow> list_store \<Rightarrow> string \<Rightarrow> nat option \<Rightarrow> py_error + ((string \<times> nat) \<times> list_store)" where
  "export_paraview self store filename field_list =
     (let new_field_list = length store;
          store1 = (case field_list of None \<Rightarrow> store @ [[]]
                    | Some l \<Rightarrow> store @ [store ! l]);
          xi = replicate (no_of_elements (sys_mesh_class self)) 0
      in case index_put xi (sys_weight_idx self) (sys_weights self) of
           Inl e \<Rightarrow> Inl e
         | Inr xi' \<Rightarrow>
            Inr ((filename, new_field_list),
                 store1[new_field_list := store1 ! new_field_list @ [(Arr1 xi', h5_xi_dict)]]))"

subsection \<open>Turning a mechanical system into a hyper-reduced one\<close>

text \<open>
  Systems are objects too: a heap holds the attributes of every system, a reference is a
  position in it. \<open>copy.deepcopy\<close> allocates a new object with equal attributes; with
  \<open>overwrite\<close> the given object itself is changed. The product \<open>V.T @ D_constr @ V\<close>
  raises \<open>ValueError\<close> when the shapes do not fit, after the earlier assignments have
  been made; the result carries the heap in either case.
\<close>

definition reduce_mechanical_system_ecsw ::
    "'a system_scheme list \<Rightarrow> nat \<Rightarrow> mat \<Rightarrow> bool \<Rightarrow> string \<Rightarrow> (py_error + nat) \<times> 'a system_scheme list" where
  "reduce_mechanical_system_ecsw heap mechanical_system V overwrite assembly =
     (let (reduced_sys, heap1) =
            (if overwrite then (mechanical_system, heap)
             else (length heap, heap @ [heap ! mechanical_system]));
          obj = heap1 ! reduced_sys;
          obj1 = obj\<lparr>sys_class := ECSWSystem,
                     sys_V := Some V,
                     sys_V_unconstr := Some (unconstrain_vec (sys_dirichlet_class obj) V),
                     sys_weights := None,
                     sys_weight_idx := None,
                     sys_u_red_output := [],
                     sys_M_constr := None\<rparr>
      in case sys_D_constr obj1 of
           None \<Rightarrow> (Inr reduced_sys, heap1[reduced_sys := obj1\<lparr>sys_assembly_type := assembly\<rparr>])
         | Some D \<Rightarrow>
            if is_mat (nrows V) (nrows V) D
            then (Inr reduced_sys,
                  heap1[reduced_sys := obj1\<lparr>sys_D_constr := Some (matmul (matmul (mT V) D) V),
                                             sys_assembly_type := assembly\<rparr>])
            else (Inl ValueError, heap1[reduced_sys := obj1]))"

section \<open>Properties of the array operations\<close>

lemma is_mat_iff: "is_mat r c A \<longleftrightarrow> length A = r \<and> (\<forall>i<r. length (A ! i) = c)"
  by (auto simp: is_mat_def list_all_length)

lemma is_mat_set2: "is_mat r c A \<Longrightarrow> is_mat r c (set2 A p q v)"
  by (cases "p < length A") (auto simp: is_mat_iff set2_def nth_list_update)

lemma ent_set2:
  "is_mat r c A \<Longrightarrow> p < r \<Longrightarrow> q < c \<Longrightarrow>
   set2 A p' q' v ! p ! q = (if p = p' \<and> q = q' then v else A ! p ! q)"
  by (cases "p' < length A") (auto simp: is_mat_iff set2_def nth_list_update)

lemma is_mat_zeros: "is_mat r c (zeros r c)"
  by (simp add: is_mat_iff zeros_def)

lemma ent_zeros: "p < r \<Longrightarrow> q < c \<Longrightarrow> zeros r c ! p ! q = 0"
  by (simp add: zeros_def)

lemma ncols_is_mat: "is_mat r c A \<Longrightarrow> 0 < r \<Longrightarrow> ncols A = c"
  by (cases A) (auto simp: is_mat_def ncols_def)

subsection \<open>The scatter loops\<close>

text \<open>The innermost loop over \<open>k\<close> writes the value on a diagonal run.\<close>

lemma scatter_k:
  assumes "is_mat r c M"
  shows "is_mat r c (fold (\<lambda>k M. set2 M (a + k) (b + k) v) [0..<m] M) \<and>
     (\<forall>p<r. \<forall>q<c. fold (\<lambda>k M. set2 M (a + k) (b + k) v) [0..<m] M ! p ! q =
        (if \<exists>k<m. p = a + k \<and> q = b + k then v else M ! p ! q))"
proof (induction m)
  case 0
  show ?case using assms by simp
next
  case (Suc m)
  let ?N = "fold (\<lambda>k M. set2 M (a + k) (b + k) v) [0..<m] M"
  from Suc have N: "is_mat r c ?N" by simp
  have *: "fold (\<lambda>k M. set2 M (a + k) (b + k) v) [0..<Suc m] M = set2 ?N (a + m) (b + m) v"
    by simp
  show ?case unfolding *
  proof (intro conjI allI impI)
    show "is_mat r c (set2 ?N (a + m) (b + m) v)" using N by (rule is_mat_set2)
  next
    fix p q assume pq: "p < r" "q < c"
    have h1: "(\<exists>k<Suc m. p = a + k \<and> q = b + k) \<longleftrightarrow> (p = a + m \<and> q = b + m) \<or> (\<exists>k<m. p = a + k \<and> q = b + k)"
      by (auto simp: less_Suc_eq)
    have h2: "?N ! p ! q = (if \<exists>k<m. p = a + k \<and> q = b + k then v else M ! p ! q)"
      using Suc pq by blast
    show "set2 ?N (a + m) (b + m) v ! p ! q =
       (if \<exists>k<Suc m. p = a + k \<and> q = b + k then v else M ! p ! q)"
      unfolding h1 ent_set2[OF N pq] h2 by auto
  qed
qed

text \<open>The loop over \<open>j\<close> fills one block row.\<close>

lemma scatter_j:
  assumes "is_mat r c M"
  shows "is_mat r c (fold (\<lambda>j. fold (\<lambda>k M. set2 M (a + k) (nd * j + k) (g j)) [0..<nd]) [0..<n] M) \<and>
     (\<forall>p<r. \<forall>q<c. fold (\<lambda>j. fold (\<lambda>k M. set2 M (a + k) (nd * j + k) (g j)) [0..<nd]) [0..<n] M ! p ! q =
        (if a \<le> p \<and> p < a + nd \<and> q < nd * n \<and> q mod nd = p - a then g (q div nd) else M ! p ! q))"
proof (induction n)
  case 0
  show ?case using assms by simp
next
  case (Suc n)
  let ?N = "fold (\<lambda>j. fold (\<lambda>k M. set2 M (a + k) (nd * j + k) (g j)) [0..<nd]) [0..<n] M"
  from Suc have N: "is_mat r c ?N" by simp
  have *: "fold (\<lambda>j. fold (\<lambda>k M. set2 M (a + k) (nd * j + k) (g j)) [0..<nd]) [0..<Suc n] M
     = fold (\<lambda>k M. set2 M (a + k) (nd * n + k) (g n)) [0..<nd] ?N"
    by simp
  note K = scatter_k[OF N, of a "nd * n" "g n" nd]
  show ?case unfolding *
  proof (intro conjI allI impI)
    show "is_mat r c (fold (\<lambda>k M. set2 M (a + k) (nd * n + k) (g n)) [0..<nd] ?N)"
      using K by simp
  next
    fix p q assume pq: "p < r" "q < c"
    have h2: "?N ! p ! q = (if a \<le> p \<and> p < a + nd \<and> q < nd * n \<and> q mod nd = p - a then g (q div nd) else M ! p ! q)"
      using Suc pq by blast
    have h3: "fold (\<lambda>k M. set2 M (a + k) (nd * n + k) (g n)) [0..<nd] ?N ! p ! q =
        (if \<exists>k<nd. p = a + k \<and> q = nd * n + k then g n else ?N ! p ! q)"
      using K pq by blast
    have h1: "(\<exists>k<nd. p = a + k \<and> q = nd * n + k) \<longleftrightarrow>
        (a \<le> p \<and> p < a + nd \<and> nd * n \<le> q \<and> q < nd * Suc n \<and> q mod nd = p - a)"
    proof
      assume "\<exists>k<nd. p = a + k \<and> q = nd * n + k"
      then obtain k where k: "k < nd" "p = a + k" "q = nd * n + k" by blast
      then show "a \<le> p \<and> p < a + nd \<and> nd * n \<le> q \<and> q < nd * Suc n \<and> q mod nd = p - a"
        by simp
    next
      assume R: "a \<le> p \<and> p < a + nd \<and> nd * n \<le> q \<and> q < nd * Suc n \<and> q mod nd = p - a"
      then have nd: "0 < nd" by simp
      from R have "q div nd = n"
        by (metis div_nat_eqI mult.commute)
      then have "q = nd * n + q mod nd" using div_mult_mod_eq[of q nd] by (simp add: mult.commute)
      with R show "\<exists>k<nd. p = a + k \<and> q = nd * n + k"
        by (intro exI[of _ "p - a"]) auto
    qed
    have h4: "q < nd * Suc n \<Longrightarrow> \<not> q < nd * n \<Longrightarrow> q div nd = n"
      by (metis div_nat_eqI mult.commute not_le)
    show "fold (\<lambda>k M. set2 M (a + k) (nd * n + k) (g n)) [0..<nd] ?N ! p ! q =
       (if a \<le> p \<and> p < a + nd \<and> q < nd * Suc n \<and> q mod nd = p - a then g (q div nd) else M ! p ! q)"
      unfolding h3 h1 h2 using h4 by auto
  qed
qed

text \<open>The loop over \<open>i\<close> fills every block row.\<close>

lemma scatter_i:
  assumes "is_mat r c M"
  shows "is_mat r c (fold (\<lambda>i. fold (\<lambda>j. fold (\<lambda>k M. set2 M (nd * i + k) (nd * j + k) (Mat ! i ! j)) [0..<nd]) [0..<n]) [0..<m] M) \<and>
     (\<forall>p<r. \<forall>q<c. fold (\<lambda>i. fold (\<lambda>j. fold (\<lambda>k M. set2 M (nd * i + k) (nd * j + k) (Mat ! i ! j)) [0..<nd]) [0..<n]) [0..<m] M ! p ! q =
        (if p < nd * m \<and> q < nd * n \<and> q mod nd = p mod nd then Mat ! (p div nd) ! (q div nd) else M ! p ! q))"
proof (induction m)
  case 0
  show ?case using assms by simp
next
  case (Suc m)
  let ?body = "\<lambda>i. fold (\<lambda>j. fold (\<lambda>k M. set2 M (nd * i + k) (nd * j + k) (Mat ! i ! j)) [0..<nd]) [0..<n]"
  let ?N = "fold ?body [0..<m] M"
  from Suc have N: "is_mat r c ?N" by simp
  have *: "fold ?body [0..<Suc m] M = ?body m ?N"
    by simp
  note J = scatter_j[OF N, of "nd * m" nd "\<lambda>j. Mat ! m ! j" n]
  show ?case unfolding *
  proof (intro conjI allI impI)
    show "is_mat r c (?body m ?N)"
      using J by simp
  next
    fix p q assume pq: "p < r" "q < c"
    have h2: "?N ! p ! q = (if p < nd * m \<and> q < nd * n \<and> q mod nd = p mod nd then Mat ! (p div nd) ! (q div nd) else M ! p ! q)"
      using Suc pq by blast
    have h3: "?body m ?N ! p ! q =
        (if nd * m \<le> p \<and> p < nd * m + nd \<and> q < nd * n \<and> q mod nd = p - nd * m then Mat ! m ! (q div nd) else ?N ! p ! q)"
      using J pq by blast
    have h4: "nd * m \<le> p \<Longrightarrow> p < nd * m + nd \<Longrightarrow> p div nd = m \<and> p mod nd = p - nd * m"
    proof -
      assume a: "nd * m \<le> p" "p < nd * m + nd"
      then have d: "p div nd = m" by (metis div_nat_eqI mult.commute mult_Suc_right add.commute)
      have "p = nd * (p div nd) + p mod nd" by simp
      with d show ?thesis by simp
    qed
    show "?body m ?N ! p ! q =
       (if p < nd * Suc m \<and> q < nd * n \<and> q mod nd = p mod nd then Mat ! (p div nd) ! (q div nd) else M ! p ! q)"
      unfolding h3 h2 using h4 by (auto simp: not_less)
  qed
qed

text \<open>
  Claim C6. For an \<open>n \<times> n\<close> matrix \<open>Mat\<close> and \<open>ndim \<ge> 1\<close>, \<open>scatter_matrix Mat ndim\<close> has
  shape \<open>(n\<cdot>ndim, n\<cdot>ndim)\<close>, and its entry in row \<open>ndim\<cdot>i+k\<close>, column \<open>ndim\<cdot>j+l\<close> is
  \<open>Mat[i,j]\<close> when \<open>k = l\<close> and \<open>0\<close> otherwise: block \<open>(i,j)\<close> is \<open>Mat[i,j]\<close> times the
  identity of size \<open>ndim\<close>.
\<close>

theorem scatter_matrix_blocks:
  assumes "is_mat n n Mat" and "1 \<le> ndim"
  shows "is_mat (n * ndim) (n * ndim) (scatter_matrix Mat ndim) \<and>
    (\<forall>i<n. \<forall>j<n. \<forall>k<ndim. \<forall>l<ndim.
       scatter_matrix Mat ndim ! (ndim * i + k) ! (ndim * j + l) = (if k = l then Mat ! i ! j else 0))"
proof (cases "n = 0")
  case True
  with assms show ?thesis
    by (simp add: scatter_matrix_def is_mat_iff nrows_def ncols_def zeros_def)
next
  case False
  then have nc: "ncols Mat = n" and nr: "nrows Mat = n"
    using assms ncols_is_mat[of n n Mat] by (simp_all add: nrows_def is_mat_iff)
  have Z: "is_mat (n * ndim) (n * ndim) (zeros (n * ndim) (n * ndim))"
    by (rule is_mat_zeros)
  note I = scatter_i[OF Z, of ndim Mat n n]
  have eq: "scatter_matrix Mat ndim =
     fold (\<lambda>i. fold (\<lambda>j. fold (\<lambda>k M. set2 M (ndim * i + k) (ndim * j + k) (Mat ! i ! j)) [0..<ndim]) [0..<n]) [0..<n]
       (zeros (n * ndim) (n * ndim))"
    by (simp add: scatter_matrix_def nc nr)
  show ?thesis unfolding eq
  proof (intro conjI allI impI)
    show "is_mat (n * ndim) (n * ndim) (fold (\<lambda>i. fold (\<lambda>j. fold (\<lambda>k M. set2 M (ndim * i + k) (ndim * j + k) (Mat ! i ! j)) [0..<ndim]) [0..<n]) [0..<n]
       (zeros (n * ndim) (n * ndim)))" using I by simp
  next
    fix i j k l assume b: "i < n" "j < n" "k < ndim" "l < ndim"
    have p: "ndim * i + k < n * ndim"
    proof -
      have "ndim * i + k < ndim * i + ndim" using b by simp
      also have "\<dots> = ndim * Suc i" by simp
      also have "\<dots> \<le> ndim * n" using b by (intro mult_le_mono2) simp
      finally show ?thesis by (simp add: mult.commute)
    qed
    have q: "ndim * j + l < n * ndim"
    proof -
      have "ndim * j + l < ndim * j + ndim" using b by simp
      also have "\<dots> = ndim * Suc j" by simp
      also have "\<dots> \<le> ndim * n" using b by (intro mult_le_mono2) simp
      finally show ?thesis by (simp add: mult.commute)
    qed
    have e: "fold (\<lambda>i. fold (\<lambda>j. fold (\<lambda>k M. set2 M (ndim * i + k) (ndim * j + k) (Mat ! i ! j)) [0..<ndim]) [0..<n]) [0..<n]
       (zeros (n * ndim) (n * ndim)) ! (ndim * i + k) ! (ndim * j + l) =
       (if ndim * i + k < ndim * n \<and> ndim * j + l < ndim * n \<and> (ndim * j + l) mod ndim = (ndim * i + k) mod ndim
        then Mat ! ((ndim * i + k) div ndim) ! ((ndim * j + l) div ndim)
        else zeros (n * ndim) (n * ndim) ! (ndim * i + k) ! (ndim * j + l))"
      using I p q by blast
    show "fold (\<lambda>i. fold (\<lambda>j. fold (\<lambda>k M. set2 M (ndim * i + k) (ndim * j + k) (Mat ! i ! j)) [0..<ndim]) [0..<n]) [0..<n]
       (zeros (n * ndim) (n * ndim)) ! (ndim * i + k) ! (ndim * j + l) = (if k = l then Mat ! i ! j else 0)"
      unfolding e using b p q by (auto simp: ent_zeros mult.commute)
  qed
qed

text \<open>The theorem at a concrete \<open>2 \<times> 2\<close> matrix with \<open>ndim = 2\<close>.\<close>

theorem scatter_matrix_blocks_witness:
  "is_mat 2 2 [[1, 2], [3, 4]] \<and> (1::nat) \<le> 2 \<and>
   is_mat (2 * 2) (2 * 2) (scatter_matrix [[1, 2], [3, 4]] 2) \<and>
   scatter_matrix [[1, 2], [3, 4]] 2 ! (2 * 1 + 1) ! (2 * 0 + 1) = 3 \<and>
   scatter_matrix [[1, 2], [3, 4]] 2 ! (2 * 1 + 1) ! (2 * 0 + 0) = 0 \<and>
   scatter_matrix [[1, 2], [3, 4]] 2 = [[1, 0, 2, 0], [0, 1, 0, 2], [3, 0, 4, 0], [0, 3, 0, 4]]"
proof -
  have h: "is_mat 2 2 [[1, 2], [3, 4]]" by (simp add: is_mat_def)
  have v: "scatter_matrix [[1, 2], [3, 4]] 2 = [[1, 0, 2, 0], [0, 1, 0, 2], [3, 0, 4, 0], [0, 3, 0, 4]]"
    by (simp add: scatter_matrix_def nrows_def ncols_def zeros_def set2_def upt_rec numeral_2_eq_2 eval_nat_numeral)
  note t = scatter_matrix_blocks[OF h, of 2]
  from t have a: "is_mat (2 * 2) (2 * 2) (scatter_matrix [[1, 2], [3, 4]] 2)" by simp
  from t have "\<forall>k<2. \<forall>l<2. scatter_matrix [[1, 2], [3, 4]] 2 ! (2 * 1 + k) ! (2 * 0 + l)
      = (if k = l then [[1, 2], [3, 4::real]] ! 1 ! 0 else 0)"
    by (metis one_le_numeral one_less_numeral_iff pos2 semiring_norm(76))
  then have b: "scatter_matrix [[1, 2], [3, 4]] 2 ! (2 * 1 + 1) ! (2 * 0 + 1) = 3"
    and c: "scatter_matrix [[1, 2], [3, 4]] 2 ! (2 * 1 + 1) ! (2 * 0 + 0) = 0"
    by (metis nth_Cons_0 nth_Cons_Suc One_nat_def one_less_numeral_iff semiring_norm(76) pos2 zero_neq_one)+
  show ?thesis using h v a b c by simp
qed

subsection \<open>Matrices given by their entries\<close>

lemma length_mk_mat [simp]: "length (mk_mat r c f) = r"
  by (simp add: mk_mat_def)

lemma nrows_mk_mat [simp]: "nrows (mk_mat r c f) = r"
  by (simp add: nrows_def)

lemma length_row_mk_mat [simp]: "i < r \<Longrightarrow> length (mk_mat r c f ! i) = c"
  by (simp add: mk_mat_def)

lemma nth_mk_mat [simp]: "i < r \<Longrightarrow> j < c \<Longrightarrow> mk_mat r c f ! i ! j = f i j"
  by (simp add: mk_mat_def)

lemma ncols_mk_mat [simp]: "0 < r \<Longrightarrow> ncols (mk_mat r c f) = c"
  using ncols_is_mat[of r c "mk_mat r c f"] by (simp add: is_mat_iff mk_mat_def)

lemma is_mat_mk_mat [simp]: "is_mat r c (mk_mat r c f)"
  by (simp add: is_mat_iff)

lemma mk_mat_cong:
  "(\<And>i j. i < r \<Longrightarrow> j < c \<Longrightarrow> f i j = g i j) \<Longrightarrow> mk_mat r c f = mk_mat r c g"
  by (simp add: mk_mat_def)

lemma mk_mat_ent: "is_mat r c A \<Longrightarrow> mk_mat r c (\<lambda>i j. A ! i ! j) = A"
  by (auto simp: is_mat_iff mk_mat_def list_eq_iff_nth_eq)

lemma mat_eqI:
  "is_mat r c A \<Longrightarrow> is_mat r c B \<Longrightarrow> (\<And>i j. i < r \<Longrightarrow> j < c \<Longrightarrow> A ! i ! j = B ! i ! j) \<Longrightarrow> A = B"
  by (auto simp: is_mat_iff list_eq_iff_nth_eq)

lemma nrows_is_mat: "is_mat r c A \<Longrightarrow> nrows A = r"
  by (simp add: is_mat_iff nrows_def)

lemma zeros_mk_mat: "zeros r c = mk_mat r c (\<lambda>i j. 0)"
  by (simp add: zeros_def mk_mat_def map_replicate_const)

lemma sum_list_upt: "(\<Sum>k\<leftarrow>[0..<n]. f k) = (\<Sum>k<n. (f k :: real))"
  by (induction n) simp_all

lemma sum_list_upt_cong:
  "(\<And>k. k < n \<Longrightarrow> f k = g k) \<Longrightarrow> (\<Sum>k\<leftarrow>[0..<n]. f k) = (\<Sum>k\<leftarrow>[0..<n]. (g k :: real))"
  by (simp add: sum_list_upt)

lemma sum_list_upt_zero: "(\<And>k. k < n \<Longrightarrow> f k = 0) \<Longrightarrow> (\<Sum>k\<leftarrow>[0..<n]. (f k :: real)) = 0"
  by (simp add: sum_list_upt)

text \<open>The operations on matrices of known shape, entry by entry.\<close>

lemma matmul_shape:
  assumes "is_mat r k A" and "is_mat k c B" and "0 < r" and "0 < k"
  shows "matmul A B = mk_mat r c (\<lambda>i j. \<Sum>l<k. A ! i ! l * B ! l ! j)"
  using assms by (simp add: matmul_def nrows_is_mat ncols_is_mat sum_list_upt)

lemma mT_shape:
  assumes "is_mat r c A" and "0 < r"
  shows "mT A = mk_mat c r (\<lambda>i j. A ! j ! i)"
  using assms by (simp add: mT_def nrows_is_mat ncols_is_mat)

lemma smul_shape:
  assumes "is_mat r c A"
  shows "smul a A = mk_mat r c (\<lambda>i j. a * A ! i ! j)"
  using assms by (intro mat_eqI[of r c]) (auto simp: is_mat_iff smul_def)

lemma madd_shape:
  assumes "is_mat r c A" and "is_mat r c B"
  shows "madd A B = mk_mat r c (\<lambda>i j. A ! i ! j + B ! i ! j)"
  using assms by (intro mat_eqI[of r c]) (auto simp: is_mat_iff madd_def)

lemma eye_ent: "i < n \<Longrightarrow> j < n \<Longrightarrow> eye n ! i ! j = (if i = j then 1 else 0)"
  by (simp add: eye_def)

lemma is_mat_eye [simp]: "is_mat n n (eye n)"
  by (simp add: eye_def)

lemma is_mat_matmul: "is_mat (nrows A) (ncols B) (matmul A B)"
  by (simp add: matmul_def)

lemma is_mat_smul: "is_mat r c A \<Longrightarrow> is_mat r c (smul a A)"
  by (simp add: smul_shape)

lemma is_mat_madd: "is_mat r c A \<Longrightarrow> is_mat r c B \<Longrightarrow> is_mat r c (madd A B)"
  by (simp add: madd_shape)

lemma is_mat_mT: "is_mat r c A \<Longrightarrow> 0 < r \<Longrightarrow> is_mat c r (mT A)"
  by (simp add: mT_shape)

lemma ncols_smul [simp]: "ncols (smul a A) = ncols A"
  by (cases A) (simp_all add: ncols_def smul_def)

lemma nrows_smul [simp]: "nrows (smul a A) = nrows A"
  by (simp add: nrows_def smul_def)

lemma reshape_shape: "is_mat (length v div c) c (reshape v c)"
  by (simp add: reshape_def)

subsection \<open>Symmetric matrices\<close>

lemma symmetric_iff:
  "symmetric A \<longleftrightarrow> is_mat (length A) (length A) A \<and> (\<forall>i<length A. \<forall>j<length A. A ! i ! j = A ! j ! i)"
proof (cases "length A = 0")
  case True
  then show ?thesis by (simp add: symmetric_def mT_def ncols_def nrows_def mk_mat_def is_mat_def)
next
  case False
  show ?thesis
  proof
    assume s: "symmetric A"
    then have m: "is_mat (length A) (length A) A" and t: "mT A = A" by (simp_all add: symmetric_def)
    have "mT A = mk_mat (length A) (length A) (\<lambda>i j. A ! j ! i)"
      using m False by (simp add: mT_shape)
    with t have "A = mk_mat (length A) (length A) (\<lambda>i j. A ! j ! i)" by simp
    then have "\<forall>i<length A. \<forall>j<length A. A ! i ! j = A ! j ! i"
      by (metis nth_mk_mat)
    with m show "is_mat (length A) (length A) A \<and> (\<forall>i<length A. \<forall>j<length A. A ! i ! j = A ! j ! i)"
      by simp
  next
    assume a: "is_mat (length A) (length A) A \<and> (\<forall>i<length A. \<forall>j<length A. A ! i ! j = A ! j ! i)"
    then have "mT A = mk_mat (length A) (length A) (\<lambda>i j. A ! j ! i)"
      using False by (simp add: mT_shape)
    also have "\<dots> = mk_mat (length A) (length A) (\<lambda>i j. A ! i ! j)"
      using a by (intro mk_mat_cong) simp
    also have "\<dots> = A" using a by (simp add: mk_mat_ent)
    finally show "symmetric A" using a by (simp add: symmetric_def)
  qed
qed

lemma symmetricI:
  "is_mat n n A \<Longrightarrow> (\<And>i j. i < n \<Longrightarrow> j < n \<Longrightarrow> A ! i ! j = A ! j ! i) \<Longrightarrow> symmetric A"
  by (simp add: symmetric_iff is_mat_iff)

lemma symmetricD:
  "symmetric A \<Longrightarrow> length A = n \<Longrightarrow> is_mat n n A \<and> (\<forall>i<n. \<forall>j<n. A ! i ! j = A ! j ! i)"
  by (auto simp: symmetric_iff)

lemma symmetric_mk_mat:
  "(\<And>i j. i < n \<Longrightarrow> j < n \<Longrightarrow> f i j = f j i) \<Longrightarrow> symmetric (mk_mat n n f)"
  by (intro symmetricI[of n]) simp_all

lemma symmetric_zeros: "symmetric (zeros n n)"
  by (simp add: zeros_mk_mat symmetric_mk_mat)

lemma symmetric_smul: "symmetric A \<Longrightarrow> symmetric (smul a A)"
proof -
  assume "symmetric A"
  then have A: "is_mat (length A) (length A) A" "\<forall>i<length A. \<forall>j<length A. A ! i ! j = A ! j ! i"
    by (auto simp: symmetric_iff)
  have "smul a A = mk_mat (length A) (length A) (\<lambda>i j. a * A ! i ! j)"
    using A(1) by (rule smul_shape)
  moreover have "symmetric (mk_mat (length A) (length A) (\<lambda>i j. a * A ! i ! j))"
    using A(2) by (intro symmetric_mk_mat) simp
  ultimately show ?thesis by simp
qed

lemma symmetric_madd:
  assumes "symmetric A" and "symmetric B" and "length A = length B"
  shows "symmetric (madd A B)"
proof -
  let ?n = "length A"
  from assms have A: "is_mat ?n ?n A" "\<forall>i<?n. \<forall>j<?n. A ! i ! j = A ! j ! i"
    and B: "is_mat ?n ?n B" "\<forall>i<?n. \<forall>j<?n. B ! i ! j = B ! j ! i"
    by (auto simp: symmetric_iff)
  have "madd A B = mk_mat ?n ?n (\<lambda>i j. A ! i ! j + B ! i ! j)"
    using A(1) B(1) by (rule madd_shape)
  moreover have "symmetric (mk_mat ?n ?n (\<lambda>i j. A ! i ! j + B ! i ! j))"
    using A(2) B(2) by (intro symmetric_mk_mat) simp
  ultimately show ?thesis by simp
qed

text \<open>\<open>B @ S @ B.T\<close> is symmetric when \<open>S\<close> is.\<close>

lemma symmetric_congruence:
  assumes B: "is_mat n d B" and S: "is_mat d d S" "\<forall>k<d. \<forall>l<d. S ! k ! l = S ! l ! k"
    and pos: "0 < n" "0 < d"
  shows "matmul (matmul B S) (mT B) = mk_mat n n (\<lambda>i j. \<Sum>l<d. (\<Sum>k<d. B ! i ! k * S ! k ! l) * B ! j ! l)"
    and "symmetric (matmul (matmul B S) (mT B))"
proof -
  have BS: "matmul B S = mk_mat n d (\<lambda>i l. \<Sum>k<d. B ! i ! k * S ! k ! l)"
    using B S(1) pos by (rule matmul_shape)
  have BT: "mT B = mk_mat d n (\<lambda>l j. B ! j ! l)"
    using B pos(1) by (rule mT_shape)
  have "matmul (matmul B S) (mT B)
      = mk_mat n n (\<lambda>i j. \<Sum>l<d. mk_mat n d (\<lambda>i l. \<Sum>k<d. B ! i ! k * S ! k ! l) ! i ! l
                                  * mk_mat d n (\<lambda>l j. B ! j ! l) ! l ! j)"
    unfolding BS BT by (rule matmul_shape) (simp_all add: pos)
  also have "\<dots> = mk_mat n n (\<lambda>i j. \<Sum>l<d. (\<Sum>k<d. B ! i ! k * S ! k ! l) * B ! j ! l)"
    by (intro mk_mat_cong sum.cong) simp_all
  finally show eq: "matmul (matmul B S) (mT B)
      = mk_mat n n (\<lambda>i j. \<Sum>l<d. (\<Sum>k<d. B ! i ! k * S ! k ! l) * B ! j ! l)" .
  have "(\<Sum>l<d. (\<Sum>k<d. B ! i ! k * S ! k ! l) * B ! j ! l)
      = (\<Sum>l<d. (\<Sum>k<d. B ! j ! k * S ! k ! l) * B ! i ! l)" for i j
  proof -
    have "(\<Sum>l<d. (\<Sum>k<d. B ! i ! k * S ! k ! l) * B ! j ! l)
        = (\<Sum>l<d. \<Sum>k<d. B ! i ! k * S ! k ! l * B ! j ! l)"
      by (simp add: sum_distrib_right)
    also have "\<dots> = (\<Sum>k<d. \<Sum>l<d. B ! i ! k * S ! k ! l * B ! j ! l)"
      by (rule sum.swap)
    also have "\<dots> = (\<Sum>k<d. \<Sum>l<d. B ! j ! l * S ! l ! k * B ! i ! k)"
      using S(2) by (intro sum.cong) (simp_all add: mult_ac)
    also have "\<dots> = (\<Sum>k<d. (\<Sum>l<d. B ! j ! l * S ! l ! k) * B ! i ! k)"
      by (simp add: sum_distrib_right)
    finally show ?thesis .
  qed
  then show "symmetric (matmul (matmul B S) (mT B))"
    unfolding eq by (intro symmetric_mk_mat)
qed

lemma mT_mT: "is_mat r c A \<Longrightarrow> 0 < r \<Longrightarrow> 0 < c \<Longrightarrow> mT (mT A) = A"
proof -
  assume A: "is_mat r c A" and pos: "0 < r" "0 < c"
  have "mT (mT A) = mk_mat r c (\<lambda>i j. mk_mat c r (\<lambda>i j. A ! j ! i) ! j ! i)"
    unfolding mT_shape[OF A pos(1)] by (rule mT_shape) (simp_all add: pos)
  also have "\<dots> = mk_mat r c (\<lambda>i j. A ! i ! j)" by (intro mk_mat_cong) simp
  finally show ?thesis using A by (simp add: mk_mat_ent)
qed

text \<open>\<open>B0.T @ C @ B0\<close> is symmetric when \<open>C\<close> is.\<close>

lemma symmetric_congruence_T:
  assumes B: "is_mat v n B" and C: "is_mat v v C" "\<forall>k<v. \<forall>l<v. C ! k ! l = C ! l ! k"
    and pos: "0 < n" "0 < v"
  shows "symmetric (matmul (matmul (mT B) C) B)" and "is_mat n n (matmul (matmul (mT B) C) B)"
proof -
  have T: "is_mat n v (mT B)" using B pos(2) by (rule is_mat_mT)
  have "symmetric (matmul (matmul (mT B) C) (mT (mT B)))"
    using T C pos by (rule symmetric_congruence(2))
  then show s: "symmetric (matmul (matmul (mT B) C) B)"
    using mT_mT[OF B pos(2) pos(1)] by simp
  have "nrows (matmul (mT B) C) = n" "ncols B = n"
    using T B pos by (simp_all add: matmul_def nrows_is_mat ncols_is_mat)
  then show "is_mat n n (matmul (matmul (mT B) C) B)"
    using is_mat_matmul[of "matmul (mT B) C" B] by simp
qed

section \<open>The solver returns non-negative weights within the tolerance\<close>

declare inner_loop.simps [simp del]

lemma np_min_le: "np_min xs = Inr m \<Longrightarrow> \<forall>v\<in>set xs. m \<le> v"
proof -
  have f: "\<And>a. fold min ys a \<le> a \<and> (\<forall>v\<in>set ys. fold min ys a \<le> v)" for ys :: "real list"
  proof (induction ys)
    case Nil
    then show ?case by simp
  next
    case (Cons y ys)
    have "fold min ys (min y a) \<le> min y a \<and> (\<forall>v\<in>set ys. fold min ys (min y a) \<le> v)"
      by (rule Cons.IH)
    then show ?case by auto
  qed
  assume "np_min xs = Inr m"
  then show ?thesis using f by (cases xs) (auto simp: np_min_def)
qed

lemma select_Cons: "select (x # xs) (m # ms) = (if m then x # select xs ms else select xs ms)"
  by (simp add: select_def)

lemma select_Nil [simp]: "select [] ms = []" "select xs [] = []"
  by (simp_all add: select_def)

lemma length_put_masked [simp]: "length (put_masked zs ms vs) = length zs"
  by (induction zs ms vs rule: put_masked.induct) simp_all

lemma put_masked_Nil [simp]: "put_masked zs ms [] = zs"
  by (induction zs ms "[] :: real list" rule: put_masked.induct) simp_all

text \<open>
  After \<open>zeta[~active_set] = 0\<close> and \<open>zeta[active_set] = ...\<close>, the trial vector is
  non-negative everywhere as soon as it is non-negative on the active set.
\<close>

lemma put_masked_nonneg:
  "\<forall>v\<in>set (select (put_masked (map2 (\<lambda>z a. if a then z else 0) zs ms) ms vs) ms). (0::real) \<le> v
   \<Longrightarrow> \<forall>v\<in>set (put_masked (map2 (\<lambda>z a. if a then z else 0) zs ms) ms vs). 0 \<le> v"
proof (induction ms arbitrary: zs vs)
  case Nil
  then show ?case by simp
next
  case (Cons m ms)
  show ?case
  proof (cases zs)
    case Nil
    then show ?thesis by simp
  next
    case zs: (Cons z zs')
    show ?thesis
    proof (cases m)
      case False
      with Cons.prems zs have "\<forall>v\<in>set (select (put_masked (map2 (\<lambda>z a. if a then z else 0) zs' ms) ms vs) ms). 0 \<le> v"
        by (simp add: select_Cons)
      from Cons.IH[OF this] False zs show ?thesis by simp
    next
      case True
      show ?thesis
      proof (cases vs)
        case Nil
        with Cons.prems zs True
        have "0 \<le> z" and "\<forall>v\<in>set (select (put_masked (map2 (\<lambda>z a. if a then z else 0) zs' ms) ms []) ms). 0 \<le> v"
          by (simp_all add: select_Cons)
        with Cons.IH[of zs' "[]"] True zs Nil show ?thesis by simp
      next
        case vs: (Cons v vs')
        with Cons.prems zs True
        have "0 \<le> v" and "\<forall>v\<in>set (select (put_masked (map2 (\<lambda>z a. if a then z else 0) zs' ms) ms vs') ms). 0 \<le> v"
          by (simp_all add: select_Cons)
        with Cons.IH[of zs' vs'] True zs vs show ?thesis by simp
      qed
    qed
  qed
qed

definition nnls_shape :: "nat \<Rightarrow> nnls_state \<Rightarrow> bool" where
  "nnls_shape n s = (length (nn_zeta s) = n \<and> length (nn_active_set s) = n)"

lemma inner_step_Break:
  assumes "inner_step G b s = Inr (Break s')" and "nnls_shape n s"
  shows "nnls_shape n s' \<and> (\<exists>x. nn_xi s' = Some x \<and> length x = n \<and> (\<forall>v\<in>set x. 0 \<le> v))"
proof -
  let ?z1 = "map2 (\<lambda>z a. if a then z else 0) (nn_zeta s) (nn_active_set s)"
  from assms(1) obtain sol m where
    m: "np_min (select (put_masked ?z1 (nn_active_set s) sol) (nn_active_set s)) = Inr m" "0 \<le> m"
    and s': "s' = s\<lparr>nn_xi := Some (put_masked ?z1 (nn_active_set s) sol),
                     nn_zeta := put_masked ?z1 (nn_active_set s) sol\<rparr>"
    by (auto simp: inner_step_def Let_def split: sum.splits if_splits prod.splits)
  from np_min_le[OF m(1)] m(2)
  have "\<forall>v\<in>set (select (put_masked ?z1 (nn_active_set s) sol) (nn_active_set s)). 0 \<le> v"
    by fastforce
  then have "\<forall>v\<in>set (put_masked ?z1 (nn_active_set s) sol). 0 \<le> v"
    by (rule put_masked_nonneg)
  with assms(2) show ?thesis by (simp add: s' nnls_shape_def)
qed

lemma inner_step_Continue:
  assumes "inner_step G b s = Inr (Continue s')" and "nnls_shape n s"
  shows "nnls_shape n s'"
  using assms
  by (auto simp: inner_step_def Let_def nnls_shape_def split: sum.splits if_splits prod.splits)

lemma inner_loop_result:
  "inner_loop G b s = Inr s' \<Longrightarrow> nnls_shape n s \<Longrightarrow>
   nnls_shape n s' \<and> (\<exists>x. nn_xi s' = Some x \<and> length x = n \<and> (\<forall>v\<in>set x. 0 \<le> v))"
proof (induction G b s rule: inner_loop.induct)
  case (1 G b s)
  show ?case
  proof (cases "inner_step G b s")
    case (Inl e)
    with "1.prems" show ?thesis by (simp add: inner_loop.simps[of G b s])
  next
    case (Inr l)
    show ?thesis
    proof (cases l)
      case (Break t)
      with Inr "1.prems" have "s' = t" by (simp add: inner_loop.simps[of G b s])
      with Inr Break "1.prems" show ?thesis using inner_step_Break by blast
    next
      case (Continue t)
      with Inr "1.prems" have "inner_loop G b t = Inr s'" by (simp add: inner_loop.simps[of G b s])
      moreover have "nnls_shape n t" using Inr Continue "1.prems" inner_step_Continue by blast
      ultimately show ?thesis using "1.IH" Inr Continue by blast
    qed
  qed
qed

text \<open>The facts that hold after every pass of the outer loop, and before the first.\<close>

definition nnls_inv :: "mat \<Rightarrow> vec \<Rightarrow> nnls_state \<Rightarrow> bool" where
  "nnls_inv G b s =
     (nnls_shape (ncols G) s \<and>
      (\<exists>x. nn_xi s = Some x \<and> length x = ncols G \<and> (\<forall>v\<in>set x. 0 \<le> v) \<and>
           nn_r s = vsub b (matvec (cols G (nn_active_set s)) (select x (nn_active_set s)))))"

lemma outer_body_inv:
  assumes "outer_body G b conv_stats s = Inr s'" and "nnls_shape (ncols G) s"
  shows "nnls_inv G b s'"
proof -
  from assms(1) obtain idx s1 x where
    il: "inner_loop G b (s\<lparr>nn_active_set := (nn_active_set s)[idx := True]\<rparr>) = Inr s1"
    and x: "nn_xi s1 = Some x"
    and s': "s' = s1\<lparr>nn_r := vsub b (matvec (cols G (nn_active_set s1)) (select x (nn_active_set s1))),
                      nn_stats := (if conv_stats
                         then nn_stats s1 @ [(length (where_nonzero x),
                                norm2 (vsub b (matvec (cols G (nn_active_set s1)) (select x (nn_active_set s1)))))]
                         else nn_stats s1)\<rparr>"
    by (auto simp: outer_body_def Let_def split: sum.splits if_splits option.splits)
  have "nnls_shape (ncols G) (s\<lparr>nn_active_set := (nn_active_set s)[idx := True]\<rparr>)"
    using assms(2) by (simp add: nnls_shape_def)
  from inner_loop_result[OF il this] x show ?thesis
    by (auto simp: nnls_inv_def nnls_shape_def s')
qed

lemma nnls_while_inv_aux:
  assumes "nnls_while G b tau conv_stats norm_b s = Some res"
  shows "nnls_inv G b s \<longrightarrow> (\<forall>s'. res = Inr s' \<longrightarrow>
   nnls_inv G b s' \<and> norm2 (nn_r s') \<le> tau * norm_b)"
  using assms
proof (induction G b tau conv_stats norm_b s res rule: nnls_while.raw_induct)
  case (1 f G b tau conv_stats norm_b s res)
  show ?case
  proof (intro impI allI)
    fix s'
    assume inv: "nnls_inv G b s" and res: "res = Inr s'"
    show "nnls_inv G b s' \<and> norm2 (nn_r s') \<le> tau * norm_b"
    proof (cases "norm2 (nn_r s) > tau * norm_b")
      case False
      with "1.hyps" res have "s' = s" by simp
      with False inv show ?thesis by simp
    next
      case True
      show ?thesis
      proof (cases "outer_body G b conv_stats s")
        case (Inl e)
        with True res "1.hyps" show ?thesis by simp
      next
        case (Inr t)
        with True "1.hyps" have "f G b tau conv_stats norm_b t = Some res" by simp
        moreover from True Inr "1.prems" have "nnls_while G b tau conv_stats norm_b t = Some res"
          by (simp add: nnls_while.simps[of G b tau conv_stats norm_b s])
        moreover have "nnls_inv G b t"
          using inv by (intro outer_body_inv[OF Inr]) (simp add: nnls_inv_def)
        ultimately show ?thesis using "1.IH" res by blast
      qed
    qed
  qed
qed (rule assms)

lemma nnls_while_inv:
  "nnls_while G b tau conv_stats norm_b s = Some (Inr s') \<Longrightarrow> nnls_inv G b s \<Longrightarrow>
   nnls_inv G b s' \<and> norm2 (nn_r s') \<le> tau * norm_b"
  using nnls_while_inv_aux by blast

lemma cols_none: "cols G (replicate n False) = map (\<lambda>_. []) G"
proof -
  have "select row (replicate n False) = []" for row :: "real list"
    by (auto simp: select_def filter_empty_conv dest!: set_zip_rightD)
  then show ?thesis by (simp add: cols_def)
qed

lemma vsub_zeros: "vsub b (replicate (length b) 0) = b"
  unfolding vsub_def by (induction b) simp_all

lemma residual_initial:
  assumes "length b = nrows G"
  shows "vsub b (matvec (cols G (replicate n False)) (select x (replicate n False))) = b"
proof -
  have nc: "ncols (replicate k []) = 0" for k by (cases k) (simp_all add: ncols_def)
  have "matvec (replicate (length G) []) v = replicate (length G) 0" for v
    unfolding matvec_def nc nrows_def by (simp add: map_replicate_const)
  then have "matvec (cols G (replicate n False)) (select x (replicate n False)) = replicate (length b) 0"
    using assms by (simp add: cols_none nrows_def map_replicate_const)
  then show ?thesis by (simp only: vsub_zeros)
qed

lemma nnls_inv_initial:
  assumes "length b = nrows G"
  shows "nnls_inv G b \<lparr>nn_xi = Some (replicate (ncols G) 0), nn_zeta = replicate (ncols G) 0,
            nn_active_set = replicate (ncols G) False, nn_r = b, nn_stats = []\<rparr>"
  using residual_initial[OF assms] by (simp add: nnls_inv_def nnls_shape_def)

lemma set_select_subset: "set (select xs ms) \<subseteq> set xs"
  by (auto simp: select_def dest: set_zip_leftD)

text \<open>
  Claim C1. Whenever \<open>sparse_nnls\<close> returns, for \<open>b\<close> of the shape that fits \<open>G\<close>: every
  returned weight is non-negative; the returned weights are \<open>xi[active_set]\<close> of the final
  state, and the residual \<open>b - G[:, active_set] @ xi[active_set]\<close> has norm at most
  \<open>tau\<close> times the norm of \<open>b\<close>; and there are at most as many returned indices as \<open>G\<close> has
  columns. (The theorem does not need the norm of \<open>b\<close> to be non-zero.)
\<close>

theorem sparse_nnls_returns:
  assumes "sparse_nnls G b tau conv_stats verbose = Some (Inr (indices, xi_red, stats))"
    and "length b = nrows G"
  shows "(\<forall>w\<in>set xi_red. 0 \<le> w) \<and>
         (\<exists>s x. sparse_nnls_run G b tau conv_stats = Some (Inr s) \<and> nn_xi s = Some x \<and>
                indices = where_nonzero x \<and> xi_red = select x (nn_active_set s) \<and>
                norm2 (vsub b (matvec (cols G (nn_active_set s)) xi_red)) \<le> tau * norm2 b) \<and>
         length indices \<le> ncols G"
proof -
  from assms(1) obtain s x where
    run: "sparse_nnls_run G b tau conv_stats = Some (Inr s)" and x: "nn_xi s = Some x"
    and ret: "indices = where_nonzero x" "xi_red = select x (nn_active_set s)"
    by (auto simp: sparse_nnls_def split: option.splits sum.splits)
  from run have "nnls_inv G b s \<and> norm2 (nn_r s) \<le> tau * norm2 b"
    unfolding sparse_nnls_run_def Let_def
    by (rule nnls_while_inv) (simp add: nnls_inv_initial[OF assms(2)])
  with x have nonneg: "\<forall>v\<in>set x. 0 \<le> v" and len: "length x = ncols G"
    and res: "norm2 (vsub b (matvec (cols G (nn_active_set s)) (select x (nn_active_set s)))) \<le> tau * norm2 b"
    by (auto simp: nnls_inv_def)
  have "\<forall>w\<in>set xi_red. 0 \<le> w" using nonneg set_select_subset[of x "nn_active_set s"] ret by blast
  moreover have "length indices \<le> ncols G"
    using len by (simp add: ret where_nonzero_def) (metis diff_zero length_filter_le length_upt)
  ultimately show ?thesis using run x ret res by blast
qed

text \<open>
  A run on the identity matrix: two passes, each adds one column and accepts the trial
  solution at once.
\<close>

lemma nnls_identity_pass1:
  "outer_body [[1, 0], [0, 1]] [1, 2] False
     \<lparr>nn_xi = Some [0, 0], nn_zeta = [0, 0], nn_active_set = [False, False], nn_r = [1, 2], nn_stats = []\<rparr>
   = Inr \<lparr>nn_xi = Some [0, 2], nn_zeta = [0, 2], nn_active_set = [False, True], nn_r = [1, 0], nn_stats = []\<rparr>"
proof -
  have "inner_loop [[1, 0], [0, 1]] [1, 2]
     \<lparr>nn_xi = Some [0, 0], nn_zeta = [0, 0], nn_active_set = [False, True], nn_r = [1, 2], nn_stats = []\<rparr>
   = Inr \<lparr>nn_xi = Some [0, 2], nn_zeta = [0, 2], nn_active_set = [False, True], nn_r = [1, 2], nn_stats = []\<rparr>"
    by code_simp
  then show ?thesis
    unfolding outer_body_def
    by (simp add: nrows_def ncols_def matvec_def mT_def mk_mat_def argmax_def cols_def select_def
          vsub_def upt_rec)
qed

lemma nnls_identity_pass2:
  "outer_body [[1, 0], [0, 1]] [1, 2] False
     \<lparr>nn_xi = Some [0, 2], nn_zeta = [0, 2], nn_active_set = [False, True], nn_r = [1, 0], nn_stats = []\<rparr>
   = Inr \<lparr>nn_xi = Some [1, 2], nn_zeta = [1, 2], nn_active_set = [True, True], nn_r = [0, 0], nn_stats = []\<rparr>"
proof -
  have "inner_loop [[1, 0], [0, 1]] [1, 2]
     \<lparr>nn_xi = Some [0, 2], nn_zeta = [0, 2], nn_active_set = [True, True], nn_r = [1, 0], nn_stats = []\<rparr>
   = Inr \<lparr>nn_xi = Some [1, 2], nn_zeta = [1, 2], nn_active_set = [True, True], nn_r = [1, 0], nn_stats = []\<rparr>"
    by code_simp
  then show ?thesis
    unfolding outer_body_def
    by (simp add: nrows_def ncols_def matvec_def mT_def mk_mat_def argmax_def cols_def select_def
          vsub_def upt_rec)
qed

lemma nnls_identity_run:
  "sparse_nnls_run [[1, 0], [0, 1]] [1, 2] 0 False
   = Some (Inr \<lparr>nn_xi = Some [1, 2], nn_zeta = [1, 2], nn_active_set = [True, True], nn_r = [0, 0], nn_stats = []\<rparr>)"
  unfolding sparse_nnls_run_def Let_def
  apply (simp add: ncols_def numeral_2_eq_2)
  apply (subst nnls_while.simps, simp add: norm2_def nnls_identity_pass1)
  apply (subst nnls_while.simps, simp add: norm2_def nnls_identity_pass2)
  apply (subst nnls_while.simps, simp add: norm2_def)
  done

lemma nnls_identity_returns:
  "sparse_nnls [[1, 0], [0, 1]] [1, 2] 0 False False = Some (Inr ([0, 1], [1, 2], []))"
  by (simp add: sparse_nnls_def nnls_identity_run where_nonzero_def select_def upt_rec)

theorem sparse_nnls_returns_witness:
  "sparse_nnls [[1, 0], [0, 1]] [1, 2] 0 False False = Some (Inr ([0, 1], [1, 2], [])) \<and>
   length [1, 2 :: real] = nrows [[1, 0], [0, 1]] \<and>
   list_all (\<lambda>w. 0 \<le> w) [1, 2 :: real] \<and>
   (\<exists>s x. sparse_nnls_run [[1, 0], [0, 1]] [1, 2] 0 False = Some (Inr s) \<and> nn_xi s = Some x \<and>
          [0, 1] = where_nonzero x \<and> [1, 2] = select x (nn_active_set s) \<and>
          norm2 (vsub [1, 2] (matvec (cols [[1, 0], [0, 1]] (nn_active_set s)) [1, 2])) \<le> 0 * norm2 [1, 2]) \<and>
   length [0, 1 :: nat] \<le> ncols [[1, 0], [0, 1]]"
proof -
  have len: "length [1, 2 :: real] = nrows [[1, 0], [0, 1]]" by (simp add: nrows_def)
  from sparse_nnls_returns[OF nnls_identity_returns len]
  show ?thesis using nnls_identity_returns len by (simp add: list_all_iff)
qed

section \<open>The returned indices and weights can disagree\<close>

text \<open>
  A run with three columns. The first two passes accept the columns \<open>0\<close> and \<open>1\<close> with
  positive weights; the third pass adds column \<open>2\<close>, and the least-squares solution on all
  three columns is \<open>(2, 0, 1)\<close>: non-negative, so it is accepted, with column \<open>1\<close> still in
  the active set and its weight exactly zero.
\<close>

lemma nnls_three_pass1:
  "outer_body [[1, -1, 0], [0, 2, 1], [0, 1, 0]] [2, 1, 0] False
     \<lparr>nn_xi = Some [0, 0, 0], nn_zeta = [0, 0, 0], nn_active_set = [False, False, False],
      nn_r = [2, 1, 0], nn_stats = []\<rparr>
   = Inr \<lparr>nn_xi = Some [2, 0, 0], nn_zeta = [2, 0, 0], nn_active_set = [True, False, False],
           nn_r = [0, 1, 0], nn_stats = []\<rparr>"
proof -
  have "inner_loop [[1, -1, 0], [0, 2, 1], [0, 1, 0]] [2, 1, 0]
     \<lparr>nn_xi = Some [0, 0, 0], nn_zeta = [0, 0, 0], nn_active_set = [True, False, False],
      nn_r = [2, 1, 0], nn_stats = []\<rparr>
   = Inr \<lparr>nn_xi = Some [2, 0, 0], nn_zeta = [2, 0, 0], nn_active_set = [True, False, False],
           nn_r = [2, 1, 0], nn_stats = []\<rparr>"
    by code_simp
  then show ?thesis
    unfolding outer_body_def
    by (simp add: nrows_def ncols_def matvec_def mT_def mk_mat_def argmax_def cols_def select_def
          vsub_def upt_rec)
qed

lemma nnls_three_pass2:
  "outer_body [[1, -1, 0], [0, 2, 1], [0, 1, 0]] [2, 1, 0] False
     \<lparr>nn_xi = Some [2, 0, 0], nn_zeta = [2, 0, 0], nn_active_set = [True, False, False],
      nn_r = [0, 1, 0], nn_stats = []\<rparr>
   = Inr \<lparr>nn_xi = Some [12 / 5, 2 / 5, 0], nn_zeta = [12 / 5, 2 / 5, 0],
           nn_active_set = [True, True, False], nn_r = [0, 1 / 5, - (2 / 5)], nn_stats = []\<rparr>"
proof -
  have "inner_loop [[1, -1, 0], [0, 2, 1], [0, 1, 0]] [2, 1, 0]
     \<lparr>nn_xi = Some [2, 0, 0], nn_zeta = [2, 0, 0], nn_active_set = [True, True, False],
      nn_r = [0, 1, 0], nn_stats = []\<rparr>
   = Inr \<lparr>nn_xi = Some [12 / 5, 2 / 5, 0], nn_zeta = [12 / 5, 2 / 5, 0],
           nn_active_set = [True, True, False], nn_r = [0, 1, 0], nn_stats = []\<rparr>"
    by code_simp
  then show ?thesis
    unfolding outer_body_def
    by (simp add: nrows_def ncols_def matvec_def mT_def mk_mat_def argmax_def cols_def select_def
          vsub_def upt_rec)
qed

lemma nnls_three_pass3:
  "outer_body [[1, -1, 0], [0, 2, 1], [0, 1, 0]] [2, 1, 0] False
     \<lparr>nn_xi = Some [12 / 5, 2 / 5, 0], nn_zeta = [12 / 5, 2 / 5, 0],
      nn_active_set = [True, True, False], nn_r = [0, 1 / 5, - (2 / 5)], nn_stats = []\<rparr>
   = Inr \<lparr>nn_xi = Some [2, 0, 1], nn_zeta = [2, 0, 1], nn_active_set = [True, True, True],
           nn_r = [0, 0, 0], nn_stats = []\<rparr>"
proof -
  have "inner_loop [[1, -1, 0], [0, 2, 1], [0, 1, 0]] [2, 1, 0]
     \<lparr>nn_xi = Some [12 / 5, 2 / 5, 0], nn_zeta = [12 / 5, 2 / 5, 0],
      nn_active_set = [True, True, True], nn_r = [0, 1 / 5, - (2 / 5)], nn_stats = []\<rparr>
   = Inr \<lparr>nn_xi = Some [2, 0, 1], nn_zeta = [2, 0, 1], nn_active_set = [True, True, True],
           nn_r = [0, 1 / 5, - (2 / 5)], nn_stats = []\<rparr>"
    by code_simp
  then show ?thesis
    unfolding outer_body_def
    by (simp add: nrows_def ncols_def matvec_def mT_def mk_mat_def argmax_def cols_def select_def
          vsub_def upt_rec)
qed

lemma nnls_three_run:
  "sparse_nnls_run [[1, -1, 0], [0, 2, 1], [0, 1, 0]] [2, 1, 0] 0 False
   = Some (Inr \<lparr>nn_xi = Some [2, 0, 1], nn_zeta = [2, 0, 1], nn_active_set = [True, True, True],
                 nn_r = [0, 0, 0], nn_stats = []\<rparr>)"
  unfolding sparse_nnls_run_def Let_def
  apply (simp add: ncols_def numeral_3_eq_3)
  apply (subst nnls_while.simps, simp add: norm2_def nnls_three_pass1)
  apply (subst nnls_while.simps, simp add: norm2_def nnls_three_pass2)
  apply (subst nnls_while.simps, simp add: norm2_def nnls_three_pass3)
  apply (subst nnls_while.simps, simp add: norm2_def)
  done

text \<open>
  Claim C2 says that the returned index array and weight array have equal length and
  that the \<open>k\<close>-th weight is the value of \<open>xi\<close> at the \<open>k\<close>-th index. On this input the
  solver returns the two indices \<open>0, 2\<close> (\<open>np.where(xi)\<close>) and the three weights
  \<open>2, 0, 1\<close> (\<open>xi[active_set]\<close>): the second weight belongs to no returned index.
\<close>

theorem sparse_nnls_indices_weights_differ:
  "sparse_nnls [[1, -1, 0], [0, 2, 1], [0, 1, 0]] [2, 1, 0] 0 False False
   = Some (Inr ([0, 2], [2, 0, 1], []))"
  by (simp add: sparse_nnls_def nnls_three_run where_nonzero_def select_def upt_rec)

section \<open>The bar element needs its set-up call\<close>

lemma reshape_4_2: "length X = 4 \<Longrightarrow> reshape X 2 = [[X ! 0, X ! 1], [X ! 2, X ! 3]]"
  by (simp add: reshape_def mk_mat_def upt_conv_Cons)

lemma norm2_pair_zero: "norm2 [a, b] = 0 \<longleftrightarrow> a = 0 \<and> b = 0"
proof -
  have "a * a + b * b = 0 \<longleftrightarrow> a = 0 \<and> b = 0"
    by (metis add_nonneg_eq_0_iff mult_eq_0_iff zero_le_square)
  then show ?thesis by (simp add: norm2_def)
qed

lemma bar_length_zero:
  "length X = 4 \<Longrightarrow> norm2 (vsub (reshape X 2 ! 1) (reshape X 2 ! 0)) = 0 \<longleftrightarrow> X ! 0 = X ! 2 \<and> X ! 1 = X ! 3"
  by (auto simp: reshape_4_2 vsub_def norm2_pair_zero)

lemma k_and_m_int_unset:
  assumes "length X = 4" and "bar_e_modul self = None"
  shows "Bar2Dlumped__k_and_m_int self X u t = Inl AttributeError"
  using assms by (simp add: Bar2Dlumped__k_and_m_int_def reshape_4_2 nrows_def getattr_def)

lemma k_and_m_int_fails_unset:
  assumes "bar_e_modul self = None"
  shows "\<exists>e. Bar2Dlumped__k_and_m_int self X u t = Inl e"
  using assms by (simp add: Bar2Dlumped__k_and_m_int_def getattr_def Let_def)

lemma k_and_m_int_set:
  assumes "length X = 4" and "bar_e_modul self = Some e" and "bar_crosssec self = Some a"
    and "bar_rho self = Some d" and "X ! 0 \<noteq> X ! 2 \<or> X ! 1 \<noteq> X ! 3"
  shows "\<exists>K M. Bar2Dlumped__k_and_m_int self X u t = Inr ((K, M), self\<lparr>bar_K := K, bar_M := M\<rparr>)"
proof -
  have "norm2 (vsub (reshape X 2 ! 1) (reshape X 2 ! 0)) \<noteq> 0"
    using assms(1,5) bar_length_zero[of X] by auto
  moreover have "length X mod 2 = 0" "\<not> nrows (reshape X 2) < 2"
    using assms(1) by (simp_all add: reshape_4_2 nrows_def)
  ultimately show ?thesis
    using assms(2-4) by (simp add: Bar2Dlumped__k_and_m_int_def getattr_def Let_def)
qed

text \<open>
  Claim C10. On a freshly constructed bar every evaluation (\<open>k_and_f_int\<close>, \<open>k_int\<close>,
  \<open>f_int\<close>, \<open>m_int\<close>) fails, for the coordinates of two nodes with \<open>AttributeError\<close>. After
  one call of \<open>foo\<close> each of them succeeds whenever the two nodes are different points,
  and the object it leaves still has the three attributes, so that later evaluations
  succeed as well.
\<close>

theorem Bar2Dlumped_needs_foo:
  assumes "length X = 4"
  shows "Bar2Dlumped_k_and_f_int (Bar2Dlumped_init mat) X u t = Inl AttributeError \<and>
         Bar2Dlumped_k_int (Bar2Dlumped_init mat) X u t = Inl AttributeError \<and>
         Bar2Dlumped_f_int (Bar2Dlumped_init mat) X u t = Inl AttributeError \<and>
         Bar2Dlumped_m_int (Bar2Dlumped_init mat) X u t = Inl AttributeError \<and>
         (\<forall>self. foo (Bar2Dlumped_init mat) = Inr self \<longrightarrow> (X ! 0 \<noteq> X ! 2 \<or> X ! 1 \<noteq> X ! 3) \<longrightarrow>
            (\<exists>K M. Bar2Dlumped_k_and_f_int self X u t = Inr ((K, bar_f self), self\<lparr>bar_K := K, bar_M := M\<rparr>) \<and>
                   Bar2Dlumped_k_int self X u t = Inr (K, self\<lparr>bar_K := K, bar_M := M\<rparr>) \<and>
                   Bar2Dlumped_f_int self X u t = Inr (bar_f self, self\<lparr>bar_K := K, bar_M := M\<rparr>) \<and>
                   Bar2Dlumped_m_int self X u t = Inr (M, self\<lparr>bar_K := K, bar_M := M\<rparr>) \<and>
                   bar_e_modul (self\<lparr>bar_K := K, bar_M := M\<rparr>) \<noteq> None \<and>
                   bar_crosssec (self\<lparr>bar_K := K, bar_M := M\<rparr>) \<noteq> None \<and>
                   bar_rho (self\<lparr>bar_K := K, bar_M := M\<rparr>) \<noteq> None))"
proof -
  have unset: "Bar2Dlumped__k_and_m_int (Bar2Dlumped_init mat) X u t = Inl AttributeError"
    using assms by (intro k_and_m_int_unset) (simp_all add: Bar2Dlumped_init_def)
  have after: "\<exists>K M. Bar2Dlumped_k_and_f_int self X u t = Inr ((K, bar_f self), self\<lparr>bar_K := K, bar_M := M\<rparr>) \<and>
                   Bar2Dlumped_k_int self X u t = Inr (K, self\<lparr>bar_K := K, bar_M := M\<rparr>) \<and>
                   Bar2Dlumped_f_int self X u t = Inr (bar_f self, self\<lparr>bar_K := K, bar_M := M\<rparr>) \<and>
                   Bar2Dlumped_m_int self X u t = Inr (M, self\<lparr>bar_K := K, bar_M := M\<rparr>) \<and>
                   bar_e_modul (self\<lparr>bar_K := K, bar_M := M\<rparr>) \<noteq> None \<and>
                   bar_crosssec (self\<lparr>bar_K := K, bar_M := M\<rparr>) \<noteq> None \<and>
                   bar_rho (self\<lparr>bar_K := K, bar_M := M\<rparr>) \<noteq> None"
    if foo: "foo (Bar2Dlumped_init mat) = Inr self" and ne: "X ! 0 \<noteq> X ! 2 \<or> X ! 1 \<noteq> X ! 3" for self
  proof -
    from foo obtain m where m: "mat = Some m"
      and attrs: "bar_e_modul self = Some (m_E m)" "bar_crosssec self = Some (m_crossec m)"
        "bar_rho self = Some (m_rho m)"
      by (auto simp: foo_def Bar2Dlumped_init_def split: option.splits)
    from k_and_m_int_set[OF assms attrs ne] obtain K M where
      "Bar2Dlumped__k_and_m_int self X u t = Inr ((K, M), self\<lparr>bar_K := K, bar_M := M\<rparr>)"
      by blast
    with attrs show ?thesis
      by (simp add: Bar2Dlumped_k_and_f_int_def Bar2Dlumped_k_int_def Bar2Dlumped_f_int_def
            Bar2Dlumped_m_int_def Bar2Dlumped__m_int_def Bar2Dlumped_compute_tensors_def)
  qed
  from unset after show ?thesis
    by (simp add: Bar2Dlumped_k_and_f_int_def Bar2Dlumped_k_int_def Bar2Dlumped_f_int_def
          Bar2Dlumped_m_int_def Bar2Dlumped__m_int_def Bar2Dlumped_compute_tensors_def)
qed

text \<open>The theorem at a bar from \<open>(0, 0)\<close> to \<open>(1, 0)\<close> with unit material data.\<close>

theorem Bar2Dlumped_needs_foo_witness:
  "length [0, 0, 1, 0 :: real] = 4 \<and>
   Bar2Dlumped_k_and_f_int
     (Bar2Dlumped_init (Some \<lparr>m_E = 1, m_crossec = 1, m_rho = 1, m_thickness = 1,
        S_Sv_and_C_2d = (\<lambda>E. (E, [], E)), S_Sv_and_C = (\<lambda>E. (E, [], E))\<rparr>))
     [0, 0, 1, 0] [0, 0, 0, 0] 0 = Inl AttributeError \<and>
   (\<exists>self K M.
      foo (Bar2Dlumped_init (Some \<lparr>m_E = 1, m_crossec = 1, m_rho = 1, m_thickness = 1,
        S_Sv_and_C_2d = (\<lambda>E. (E, [], E)), S_Sv_and_C = (\<lambda>E. (E, [], E))\<rparr>)) = Inr self \<and>
      Bar2Dlumped_k_and_f_int self [0, 0, 1, 0] [0, 0, 0, 0] 0
        = Inr ((K, bar_f self), self\<lparr>bar_K := K, bar_M := M\<rparr>) \<and>
      Bar2Dlumped_m_int self [0, 0, 1, 0] [0, 0, 0, 0] 0 = Inr (M, self\<lparr>bar_K := K, bar_M := M\<rparr>))"
proof -
  let ?m = "\<lparr>m_E = 1, m_crossec = 1, m_rho = 1, m_thickness = 1,
        S_Sv_and_C_2d = (\<lambda>E. (E, [], E)), S_Sv_and_C = (\<lambda>E. (E, [], E))\<rparr>"
  let ?X = "[0, 0, 1, 0 :: real]"
  have len: "length ?X = 4" by simp
  have foo: "foo (Bar2Dlumped_init (Some ?m))
     = Inr ((Bar2Dlumped_init (Some ?m))\<lparr>bar_e_modul := Some 1, bar_crosssec := Some 1, bar_rho := Some 1\<rparr>)"
    by (simp add: foo_def Bar2Dlumped_init_def)
  have ne: "?X ! 0 \<noteq> ?X ! 2 \<or> ?X ! 1 \<noteq> ?X ! 3" by simp
  note t = Bar2Dlumped_needs_foo[OF len, of "Some ?m" "[0, 0, 0, 0]" 0]
  from t have a: "Bar2Dlumped_k_and_f_int (Bar2Dlumped_init (Some ?m)) ?X [0, 0, 0, 0] 0 = Inl AttributeError"
    by blast
  from t foo ne have "\<exists>K M.
      Bar2Dlumped_k_and_f_int ((Bar2Dlumped_init (Some ?m))\<lparr>bar_e_modul := Some 1, bar_crosssec := Some 1, bar_rho := Some 1\<rparr>) ?X [0, 0, 0, 0] 0
        = Inr ((K, bar_f ((Bar2Dlumped_init (Some ?m))\<lparr>bar_e_modul := Some 1, bar_crosssec := Some 1, bar_rho := Some 1\<rparr>)),
               (Bar2Dlumped_init (Some ?m))\<lparr>bar_e_modul := Some 1, bar_crosssec := Some 1, bar_rho := Some 1\<rparr>\<lparr>bar_K := K, bar_M := M\<rparr>) \<and>
      Bar2Dlumped_m_int ((Bar2Dlumped_init (Some ?m))\<lparr>bar_e_modul := Some 1, bar_crosssec := Some 1, bar_rho := Some 1\<rparr>) ?X [0, 0, 0, 0] 0
        = Inr (M, (Bar2Dlumped_init (Some ?m))\<lparr>bar_e_modul := Some 1, bar_crosssec := Some 1, bar_rho := Some 1\<rparr>\<lparr>bar_K := K, bar_M := M\<rparr>)"
    by blast
  with foo a len show ?thesis by blast
qed

section \<open>The operator accessors of the hyper-reduced system\<close>

text \<open>
  Take a system whose basis \<open>V\<close> is set, and suppose that both assembly routines succeed
  on the arguments that the accessors pass. For \<open>K_and_f\<close> and \<open>K\<close>, called with or without
  \<open>u\<close>, and for \<open>f_int\<close> called with a \<open>u\<close> (an array or \<open>None\<close>): each raises if and only if
  the assembly type is neither \<open>direct\<close> nor \<open>indirect\<close>, and the error is the \<open>ValueError\<close>
  of the last branch; with \<open>direct\<close> they return what the direct routine returns, with
  \<open>indirect\<close> what the indirect one returns; and a \<open>u\<close> that is left out or \<open>None\<close> is the
  zero vector with one entry per column of \<open>V\<close>.
\<close>

lemma accessors_dispatch:
  assumes V: "sys_V self = Some V"
    and u0: "u0 = (case with_default None u of None \<Rightarrow> replicate (ncols V) 0 | Some u' \<Rightarrow> u')"
    and direct: "assemble_k_and_f_hyper (sys_assembly_class self)
                   (sys_V_unconstr self) (sys_weight_idx self) (sys_weights self) u0 t = Inr (Kd, fd)"
    and indirect: "assemble_k_and_f_hyper_no_inplace (sys_assembly_class self)
                   (sys_V_unconstr self) (sys_weight_idx self) (sys_weights self) u0 t = Inr (Ki, fi)"
  shows "((\<exists>e. K_and_f self u t = Inl e) \<longleftrightarrow>
            sys_assembly_type self \<noteq> ''direct'' \<and> sys_assembly_type self \<noteq> ''indirect'') \<and>
         ((\<exists>e. ecsw_K self u t = Inl e) \<longleftrightarrow>
            sys_assembly_type self \<noteq> ''direct'' \<and> sys_assembly_type self \<noteq> ''indirect'') \<and>
         ((\<exists>e. ecsw_f_int self (Passed (with_default None u)) t = Inl e) \<longleftrightarrow>
            sys_assembly_type self \<noteq> ''direct'' \<and> sys_assembly_type self \<noteq> ''indirect'') \<and>
         (sys_assembly_type self = ''direct'' \<longrightarrow>
            K_and_f self u t = Inr (Kd, fd) \<and> ecsw_K self u t = Inr Kd \<and>
            ecsw_f_int self (Passed (with_default None u)) t = Inr fd) \<and>
         (sys_assembly_type self = ''indirect'' \<longrightarrow>
            K_and_f self u t = Inr (Ki, fi) \<and> ecsw_K self u t = Inr Ki \<and>
            ecsw_f_int self (Passed (with_default None u)) t = Inr fi) \<and>
         (sys_assembly_type self \<noteq> ''direct'' \<and> sys_assembly_type self \<noteq> ''indirect'' \<longrightarrow>
            K_and_f self u t = Inl ValueError \<and> ecsw_K self u t = Inl ValueError \<and>
            ecsw_f_int self (Passed (with_default None u)) t = Inl ValueError)"
proof -
  have du: "default_u self (with_default None u) = Inr u0"
    using V u0 by (simp add: default_u_def split: option.splits)
  have h: "hyper_assembly self (with_default None u) t =
      (if sys_assembly_type self = ''direct'' then Inr (Kd, fd)
       else if sys_assembly_type self = ''indirect'' then Inr (Ki, fi)
       else Inl ValueError)"
    using direct indirect by (simp add: hyper_assembly_def du)
  show ?thesis
    by (simp add: K_and_f_def ecsw_K_def ecsw_f_int_def required_def h)
qed

text \<open>A call of \<open>f_int\<close> without \<open>u\<close> raises, whatever the system is.\<close>

lemma f_int_requires_u: "ecsw_f_int self Omitted t = Inl TypeError"
  by (simp add: ecsw_f_int_def required_def)

text \<open>
  Claim C7 says that each of \<open>K_and_f\<close>, \<open>K\<close> and \<open>f_int\<close> raises only for an assembly type
  that is neither \<open>direct\<close> nor \<open>indirect\<close>, and that an absent \<open>u\<close> is the zero vector. Here
  is a system with the \<open>direct\<close> strategy, a basis \<open>V\<close> with two columns and assembly
  routines that succeed. Without \<open>u\<close>, \<open>K_and_f\<close> and \<open>K\<close> return the direct assembly at the
  zero vector, and so does \<open>f_int\<close> when \<open>None\<close> is passed; but \<open>f_int\<close> without \<open>u\<close> raises
  \<open>TypeError\<close>: its signature \<open>f_int(self, u, t=0)\<close> lacks the default that the body's test
  \<open>u is None\<close> and the two other accessors have.
\<close>

theorem f_int_without_u_raises:
  "ecsw_f_int \<lparr>sys_class = ECSWSystem, sys_V = Some [[1, 0], [0, 1], [1, 1]], sys_V_unconstr = None,
       sys_weights = None, sys_weight_idx = None, sys_u_red_output = [], sys_M_constr = None,
       sys_D_constr = None, sys_assembly_type = ''direct'',
       sys_assembly_class = \<lparr>assemble_k_and_f_hyper = (\<lambda>V i w u t. Inr ([u, u], u)),
                             assemble_k_and_f_hyper_no_inplace = (\<lambda>V i w u t. Inr ([u], u)),
                             assemble_g_and_b = (\<lambda>V W v. Inl ValueError)\<rparr>,
       sys_mesh_class = \<lparr>no_of_elements = 3\<rparr>,
       sys_dirichlet_class = \<lparr>unconstrain_vec = (\<lambda>V. V)\<rparr>\<rparr> Omitted 0
     = Inl TypeError \<and>
   ecsw_f_int \<lparr>sys_class = ECSWSystem, sys_V = Some [[1, 0], [0, 1], [1, 1]], sys_V_unconstr = None,
       sys_weights = None, sys_weight_idx = None, sys_u_red_output = [], sys_M_constr = None,
       sys_D_constr = None, sys_assembly_type = ''direct'',
       sys_assembly_class = \<lparr>assemble_k_and_f_hyper = (\<lambda>V i w u t. Inr ([u, u], u)),
                             assemble_k_and_f_hyper_no_inplace = (\<lambda>V i w u t. Inr ([u], u)),
                             assemble_g_and_b = (\<lambda>V W v. Inl ValueError)\<rparr>,
       sys_mesh_class = \<lparr>no_of_elements = 3\<rparr>,
       sys_dirichlet_class = \<lparr>unconstrain_vec = (\<lambda>V. V)\<rparr>\<rparr> (Passed None) 0
     = Inr [0, 0] \<and>
   K_and_f \<lparr>sys_class = ECSWSystem, sys_V = Some [[1, 0], [0, 1], [1, 1]], sys_V_unconstr = None,
       sys_weights = None, sys_weight_idx = None, sys_u_red_output = [], sys_M_constr = None,
       sys_D_constr = None, sys_assembly_type = ''direct'',
       sys_assembly_class = \<lparr>assemble_k_and_f_hyper = (\<lambda>V i w u t. Inr ([u, u], u)),
                             assemble_k_and_f_hyper_no_inplace = (\<lambda>V i w u t. Inr ([u], u)),
                             assemble_g_and_b = (\<lambda>V W v. Inl ValueError)\<rparr>,
       sys_mesh_class = \<lparr>no_of_elements = 3\<rparr>,
       sys_dirichlet_class = \<lparr>unconstrain_vec = (\<lambda>V. V)\<rparr>\<rparr> Omitted 0
     = Inr ([[0, 0], [0, 0]], [0, 0]) \<and>
   ecsw_K \<lparr>sys_class = ECSWSystem, sys_V = Some [[1, 0], [0, 1], [1, 1]], sys_V_unconstr = None,
       sys_weights = None, sys_weight_idx = None, sys_u_red_output = [], sys_M_constr = None,
       sys_D_constr = None, sys_assembly_type = ''direct'',
       sys_assembly_class = \<lparr>assemble_k_and_f_hyper = (\<lambda>V i w u t. Inr ([u, u], u)),
                             assemble_k_and_f_hyper_no_inplace = (\<lambda>V i w u t. Inr ([u], u)),
                             assemble_g_and_b = (\<lambda>V W v. Inl ValueError)\<rparr>,
       sys_mesh_class = \<lparr>no_of_elements = 3\<rparr>,
       sys_dirichlet_class = \<lparr>unconstrain_vec = (\<lambda>V. V)\<rparr>\<rparr> Omitted 0
     = Inr [[0, 0], [0, 0]]"
  by (simp add: ecsw_f_int_def K_and_f_def ecsw_K_def required_def with_default_def
        hyper_assembly_def default_u_def ncols_def numeral_2_eq_2)

section \<open>Turning a mechanical system into a hyper-reduced one\<close>

text \<open>
  Claim C8. Let the reference name an object of the heap, and let a damping matrix, if
  there is one, have the shape that fits \<open>V\<close>. Without \<open>overwrite\<close> the function returns
  the reference of a new object and every object that was on the heap, the given system
  among them, is unchanged. With \<open>overwrite\<close> it returns the given reference, and the
  object it names now has the class \<open>ECSWSystem\<close>. In both cases the returned system has
  no weights and no weight indices, no cached constrained mass matrix, \<open>V\<close> as its basis,
  the unconstrained expansion of \<open>V\<close> as \<open>V_unconstr\<close>, the damping matrix \<open>D\<close> replaced by
  \<open>V.T @ D @ V\<close> when there was one, the requested assembly type, and every other
  attribute of the given system.
\<close>

theorem reduce_mechanical_system_ecsw_effect:
  assumes ref: "mechanical_system < length heap"
    and D: "case sys_D_constr (heap ! mechanical_system) of None \<Rightarrow> True
            | Some D \<Rightarrow> is_mat (nrows V) (nrows V) D"
  shows "\<exists>reduced_sys heap'.
      reduce_mechanical_system_ecsw heap mechanical_system V overwrite assembly = (Inr reduced_sys, heap') \<and>
      (if overwrite
       then reduced_sys = mechanical_system \<and> length heap' = length heap \<and>
            (\<forall>a<length heap. a \<noteq> mechanical_system \<longrightarrow> heap' ! a = heap ! a)
       else reduced_sys = length heap \<and> length heap' = Suc (length heap) \<and>
            (\<forall>a<length heap. heap' ! a = heap ! a)) \<and>
      heap' ! reduced_sys =
        (heap ! mechanical_system)
          \<lparr>sys_class := ECSWSystem,
           sys_V := Some V,
           sys_V_unconstr := Some (unconstrain_vec (sys_dirichlet_class (heap ! mechanical_system)) V),
           sys_weights := None,
           sys_weight_idx := None,
           sys_u_red_output := [],
           sys_M_constr := None,
           sys_D_constr := map_option (\<lambda>D. matmul (matmul (mT V) D) V)
                             (sys_D_constr (heap ! mechanical_system)),
           sys_assembly_type := assembly\<rparr>"
proof (cases overwrite)
  case True
  show ?thesis
  proof (cases "sys_D_constr (heap ! mechanical_system)")
    case None
    with True ref show ?thesis
      by (simp add: reduce_mechanical_system_ecsw_def Let_def)
  next
    case (Some D')
    with D have "is_mat (nrows V) (nrows V) D'" by simp
    with True ref Some show ?thesis
      by (simp add: reduce_mechanical_system_ecsw_def Let_def)
  qed
next
  case False
  show ?thesis
  proof (cases "sys_D_constr (heap ! mechanical_system)")
    case None
    with False ref show ?thesis
      by (simp add: reduce_mechanical_system_ecsw_def Let_def nth_append)
  next
    case (Some D')
    with D have "is_mat (nrows V) (nrows V) D'" by simp
    with False ref Some show ?thesis
      by (simp add: reduce_mechanical_system_ecsw_def Let_def nth_append)
  qed
qed

text \<open>The theorem on a heap with one system with damping, reduced into a copy.\<close>

theorem reduce_mechanical_system_ecsw_effect_witness:
  "reduce_mechanical_system_ecsw
     [\<lparr>sys_class = MechanicalSystem, sys_V = None, sys_V_unconstr = None,
       sys_weights = Some [1], sys_weight_idx = Some [0], sys_u_red_output = [[1]],
       sys_M_constr = Some [[5]], sys_D_constr = Some [[2]], sys_assembly_type = ''direct'',
       sys_assembly_class = \<lparr>assemble_k_and_f_hyper = (\<lambda>V i w u t. Inl ValueError),
                             assemble_k_and_f_hyper_no_inplace = (\<lambda>V i w u t. Inl ValueError),
                             assemble_g_and_b = (\<lambda>V W v. Inl ValueError)\<rparr>,
       sys_mesh_class = \<lparr>no_of_elements = 3\<rparr>,
       sys_dirichlet_class = \<lparr>unconstrain_vec = (\<lambda>V. V @ [[0]])\<rparr>\<rparr>]
     0 [[3]] False ''indirect''
   = (Inr 1,
      [\<lparr>sys_class = MechanicalSystem, sys_V = None, sys_V_unconstr = None,
       sys_weights = Some [1], sys_weight_idx = Some [0], sys_u_red_output = [[1]],
       sys_M_constr = Some [[5]], sys_D_constr = Some [[2]], sys_assembly_type = ''direct'',
       sys_assembly_class = \<lparr>assemble_k_and_f_hyper = (\<lambda>V i w u t. Inl ValueError),
                             assemble_k_and_f_hyper_no_inplace = (\<lambda>V i w u t. Inl ValueError),
                             assemble_g_and_b = (\<lambda>V W v. Inl ValueError)\<rparr>,
       sys_mesh_class = \<lparr>no_of_elements = 3\<rparr>,
       sys_dirichlet_class = \<lparr>unconstrain_vec = (\<lambda>V. V @ [[0]])\<rparr>\<rparr>,
       \<lparr>sys_class = ECSWSystem, sys_V = Some [[3]], sys_V_unconstr = Some [[3], [0]],
       sys_weights = None, sys_weight_idx = None, sys_u_red_output = [],
       sys_M_constr = None, sys_D_constr = Some [[18]], sys_assembly_type = ''indirect'',
       sys_assembly_class = \<lparr>assemble_k_and_f_hyper = (\<lambda>V i w u t. Inl ValueError),
                             assemble_k_and_f_hyper_no_inplace = (\<lambda>V i w u t. Inl ValueError),
                             assemble_g_and_b = (\<lambda>V W v. Inl ValueError)\<rparr>,
       sys_mesh_class = \<lparr>no_of_elements = 3\<rparr>,
       sys_dirichlet_class = \<lparr>unconstrain_vec = (\<lambda>V. V @ [[0]])\<rparr>\<rparr>])"
proof -
  let ?s = "\<lparr>sys_class = MechanicalSystem, sys_V = None, sys_V_unconstr = None,
       sys_weights = Some [1], sys_weight_idx = Some [0], sys_u_red_output = [[1]],
       sys_M_constr = Some [[5]], sys_D_constr = Some [[2]], sys_assembly_type = ''direct'',
       sys_assembly_class = \<lparr>assemble_k_and_f_hyper = (\<lambda>V i w u t. Inl ValueError),
                             assemble_k_and_f_hyper_no_inplace = (\<lambda>V i w u t. Inl ValueError),
                             assemble_g_and_b = (\<lambda>V W v. Inl ValueError)\<rparr>,
       sys_mesh_class = \<lparr>no_of_elements = 3\<rparr>,
       sys_dirichlet_class = \<lparr>unconstrain_vec = (\<lambda>V. V @ [[0]])\<rparr>\<rparr>"
  have ref: "0 < length [?s]" by simp
  have D: "case sys_D_constr ([?s] ! 0) of None \<Rightarrow> True | Some D \<Rightarrow> is_mat (nrows [[3]]) (nrows [[3]]) D"
    by (simp add: is_mat_def nrows_def)
  have prod: "matmul (matmul (mT [[3]]) [[2]]) [[3]] = [[18]]"
    by (simp add: matmul_def mT_def mk_mat_def nrows_def ncols_def)
  from reduce_mechanical_system_ecsw_effect[OF ref D, of False "''indirect''"]
  obtain reduced_sys heap' where
    r: "reduce_mechanical_system_ecsw [?s] 0 [[3]] False ''indirect'' = (Inr reduced_sys, heap')"
    and n: "reduced_sys = length [?s]" "length heap' = Suc (length [?s])" "\<forall>a<length [?s]. heap' ! a = [?s] ! a"
    and o: "heap' ! reduced_sys = ([?s] ! 0)
          \<lparr>sys_class := ECSWSystem, sys_V := Some [[3]],
           sys_V_unconstr := Some (unconstrain_vec (sys_dirichlet_class ([?s] ! 0)) [[3]]),
           sys_weights := None, sys_weight_idx := None, sys_u_red_output := [],
           sys_M_constr := None,
           sys_D_constr := map_option (\<lambda>D. matmul (matmul (mT [[3]]) D) [[3]]) (sys_D_constr ([?s] ! 0)),
           sys_assembly_type := ''indirect''\<rparr>"
    by auto
  from n have "heap' = [heap' ! 0, heap' ! 1]"
    by (cases heap'; cases "tl heap'"; cases "tl (tl heap')") auto
  with n o prod have "heap' = [?s, \<lparr>sys_class = ECSWSystem, sys_V = Some [[3]], sys_V_unconstr = Some [[3], [0]],
       sys_weights = None, sys_weight_idx = None, sys_u_red_output = [],
       sys_M_constr = None, sys_D_constr = Some [[18]], sys_assembly_type = ''indirect'',
       sys_assembly_class = \<lparr>assemble_k_and_f_hyper = (\<lambda>V i w u t. Inl ValueError),
                             assemble_k_and_f_hyper_no_inplace = (\<lambda>V i w u t. Inl ValueError),
                             assemble_g_and_b = (\<lambda>V W v. Inl ValueError)\<rparr>,
       sys_mesh_class = \<lparr>no_of_elements = 3\<rparr>,
       sys_dirichlet_class = \<lparr>unconstrain_vec = (\<lambda>V. V @ [[0]])\<rparr>\<rparr>]"
    by simp
  with r n show ?thesis by simp
qed

section \<open>The exported weight field\<close>

lemma length_fold_update [simp]:
  "length (fold (\<lambda>(i, v) y. y[i := v]) ps x) = length (x :: 'a list)"
  by (induction ps arbitrary: x) (auto split: prod.splits)

lemma fold_update_other:
  "p \<notin> fst ` set ps \<Longrightarrow> fold (\<lambda>(i, v) y. y[i := v]) ps x ! p = x ! p"
  by (induction ps arbitrary: x) (auto split: prod.splits)

lemma fold_update_last:
  assumes "k < length ps" and "fst (ps ! k) < length x"
    and "\<forall>j<length ps. k < j \<longrightarrow> fst (ps ! j) \<noteq> fst (ps ! k)"
  shows "fold (\<lambda>(i, v) y. y[i := v]) ps x ! fst (ps ! k) = snd (ps ! k)"
proof -
  have ps: "ps = take k ps @ ps ! k # drop (Suc k) ps"
    using assms(1) by (simp add: id_take_nth_drop)
  have later: "fst (ps ! k) \<notin> fst ` set (drop (Suc k) ps)"
  proof
    assume "fst (ps ! k) \<in> fst ` set (drop (Suc k) ps)"
    then obtain q where q: "q \<in> set (drop (Suc k) ps)" "fst q = fst (ps ! k)" by auto
    then obtain j where "j < length (drop (Suc k) ps)" "drop (Suc k) ps ! j = q"
      by (auto simp: in_set_conv_nth)
    then have "Suc k + j < length ps" "ps ! (Suc k + j) = q" by auto
    with assms(3) q(2) show False by (metis less_add_Suc1 add_Suc)
  qed
  let ?y = "fold (\<lambda>(i, v) y. y[i := v]) (take k ps) x"
  have "fold (\<lambda>(i, v) y. y[i := v]) ps x
      = fold (\<lambda>(i, v) y. y[i := v]) (drop (Suc k) ps) (?y[fst (ps ! k) := snd (ps ! k)])"
    by (subst ps) (simp add: case_prod_beta)
  then show ?thesis using later assms(2) by (simp add: fold_update_other)
qed

text \<open>
  Claim C9. When \<open>export_paraview\<close> reaches the inherited export, with weight indices and
  weights stored on the system: the file name is passed on; the list passed on is a new
  list, and every list that existed before, the caller's list among them, is unchanged;
  the new list is the caller's list (or the empty list) followed by exactly one field.
  That field is a vector with one entry per mesh element, zero at every position that is
  no stored index, and at the stored index \<open>k\<close> (the last one, should an index be
  repeated) the stored weight \<open>k\<close> (the single stored weight, should it be broadcast). Its
  dictionary says attribute type \<open>Scalar\<close>, center \<open>Cell\<close>, name \<open>weights_hyper_red\<close> and
  one component.
\<close>

theorem export_paraview_weight_field:
  assumes ex: "export_paraview self store filename field_list = Inr ((fn, new_field_list), store')"
    and idx: "sys_weight_idx self = Some idx" and w: "sys_weights self = Some w"
  shows "fn = filename \<and> new_field_list = length store \<and>
    (\<forall>a<length store. store' ! a = store ! a) \<and>
    (\<exists>xi. store' ! new_field_list =
            (case field_list of None \<Rightarrow> [] | Some l \<Rightarrow> store ! l) @ [(Arr1 xi, h5_xi_dict)] \<and>
          length xi = no_of_elements (sys_mesh_class self) \<and>
          (\<forall>p<length xi. p \<notin> set idx \<longrightarrow> xi ! p = 0) \<and>
          (\<forall>k<length idx. (\<forall>j<length idx. k < j \<longrightarrow> idx ! j \<noteq> idx ! k) \<longrightarrow>
              xi ! (idx ! k) = (if length w = length idx then w ! k else w ! 0))) \<and>
    map_of h5_xi_dict ''AttributeType'' = Some (HStr ''Scalar'') \<and>
    map_of h5_xi_dict ''Center'' = Some (HStr ''Cell'') \<and>
    map_of h5_xi_dict ''Name'' = Some (HStr ''weights_hyper_red'') \<and>
    map_of h5_xi_dict ''NoOfComponents'' = Some (HInt 1)"
proof -
  let ?n = "no_of_elements (sys_mesh_class self)"
  let ?w = "if length w = length idx then w else replicate (length idx) (w ! 0)"
  let ?xi = "fold (\<lambda>(i, v) y. y[i := v]) (zip idx ?w) (replicate ?n 0)"
  let ?old = "case field_list of None \<Rightarrow> [] | Some l \<Rightarrow> store ! l"
  from ex idx w have ok: "\<not> (length w \<noteq> length idx \<and> length w \<noteq> 1)" "\<not> list_ex (\<lambda>i. i \<ge> ?n) idx"
    by (auto simp: export_paraview_def index_put_def Let_def split: if_splits)
  then have put: "index_put (replicate ?n 0) (Some idx) (Some w) = Inr ?xi"
    by (simp add: index_put_def Let_def)
  have s1: "(case field_list of None \<Rightarrow> store @ [[]] | Some l \<Rightarrow> store @ [store ! l]) = store @ [?old]"
    by (simp split: option.splits)
  from ex have res: "fn = filename" "new_field_list = length store"
    "store' = store @ [?old @ [(Arr1 ?xi, h5_xi_dict)]]"
    unfolding export_paraview_def Let_def s1 idx w put by auto
  have lw: "length ?w = length idx" by simp
  have inrange: "\<forall>k<length idx. idx ! k < ?n"
    using ok(2) by (auto simp: list_ex_iff not_le)
  have zero: "\<forall>p<length ?xi. p \<notin> set idx \<longrightarrow> ?xi ! p = 0"
  proof (intro allI impI)
    fix p assume p: "p < length ?xi" "p \<notin> set idx"
    then have "p \<notin> fst ` set (zip idx ?w)" by (auto dest: set_zip_leftD)
    then have "?xi ! p = replicate ?n 0 ! p" by (rule fold_update_other)
    with p show "?xi ! p = 0" by simp
  qed
  have last: "\<forall>k<length idx. (\<forall>j<length idx. k < j \<longrightarrow> idx ! j \<noteq> idx ! k) \<longrightarrow>
              ?xi ! (idx ! k) = (if length w = length idx then w ! k else w ! 0)"
  proof (intro allI impI)
    fix k assume k: "k < length idx" and later: "\<forall>j<length idx. k < j \<longrightarrow> idx ! j \<noteq> idx ! k"
    have a: "k < length (zip idx ?w)" using k lw by simp
    have b: "fst (zip idx ?w ! k) < length (replicate ?n (0::real))" using k lw inrange by simp
    have c: "\<forall>j<length (zip idx ?w). k < j \<longrightarrow> fst (zip idx ?w ! j) \<noteq> fst (zip idx ?w ! k)"
      using later k lw by simp
    from fold_update_last[OF a b c] k lw
    show "?xi ! (idx ! k) = (if length w = length idx then w ! k else w ! 0)" by simp
  qed
  have "\<forall>a<length store. store' ! a = store ! a"
    by (simp add: res nth_append)
  moreover have "store' ! new_field_list = ?old @ [(Arr1 ?xi, h5_xi_dict)]"
    by (simp add: res)
  moreover have "length ?xi = ?n" by simp
  ultimately show ?thesis using res(1,2) zero last
    by (intro conjI exI[of _ ?xi]) (simp_all add: h5_xi_dict_def)
qed

text \<open>The theorem at a mesh of four elements with weights at the elements \<open>1\<close> and \<open>3\<close>.\<close>

theorem export_paraview_weight_field_witness:
  "export_paraview
     \<lparr>sys_class = ECSWSystem, sys_V = None, sys_V_unconstr = None,
       sys_weights = Some [5, 7], sys_weight_idx = Some [1, 3], sys_u_red_output = [],
       sys_M_constr = None, sys_D_constr = None, sys_assembly_type = ''direct'',
       sys_assembly_class = \<lparr>assemble_k_and_f_hyper = (\<lambda>V i w u t. Inl ValueError),
                             assemble_k_and_f_hyper_no_inplace = (\<lambda>V i w u t. Inl ValueError),
                             assemble_g_and_b = (\<lambda>V W v. Inl ValueError)\<rparr>,
       sys_mesh_class = \<lparr>no_of_elements = 4\<rparr>,
       sys_dirichlet_class = \<lparr>unconstrain_vec = (\<lambda>V. V)\<rparr>\<rparr>
     [[(Arr1 [9], [])]] ''out'' (Some 0)
   = Inr ((''out'', 1),
          [[(Arr1 [9], [])], [(Arr1 [9], []), (Arr1 [0, 5, 0, 7], h5_xi_dict)]]) \<and>
   map_of h5_xi_dict ''Name'' = Some (HStr ''weights_hyper_red'')"
proof -
  let ?self = "\<lparr>sys_class = ECSWSystem, sys_V = None, sys_V_unconstr = None,
       sys_weights = Some [5, 7], sys_weight_idx = Some [1, 3], sys_u_red_output = [],
       sys_M_constr = None, sys_D_constr = None, sys_assembly_type = ''direct'',
       sys_assembly_class = \<lparr>assemble_k_and_f_hyper = (\<lambda>V i w u t. Inl ValueError),
                             assemble_k_and_f_hyper_no_inplace = (\<lambda>V i w u t. Inl ValueError),
                             assemble_g_and_b = (\<lambda>V W v. Inl ValueError)\<rparr>,
       sys_mesh_class = \<lparr>no_of_elements = 4\<rparr>,
       sys_dirichlet_class = \<lparr>unconstrain_vec = (\<lambda>V. V)\<rparr>\<rparr>"
  have ex: "export_paraview ?self [[(Arr1 [9], [])]] ''out'' (Some 0)
      = Inr ((''out'', 1), [[(Arr1 [9], [])], [(Arr1 [9], []), (Arr1 [0, 5, 0, 7], h5_xi_dict)]])"
    by (simp add: export_paraview_def index_put_def numeral_eq_Suc)
  have idx: "sys_weight_idx ?self = Some [1, 3]" and w: "sys_weights ?self = Some [5, 7]" by simp_all
  from export_paraview_weight_field[OF ex idx w] ex show ?thesis by simp
qed

section \<open>Properties of the tensor computation\<close>

subsection \<open>One integration point\<close>

lemma law_symmetricD:
  assumes "law_symmetric d law" and "symmetric E" and "length E = d"
    and "law E = (S, S_v, C)"
  shows "symmetric S" and "length S = d" and "length S_v = d * (d + 1) div 2"
    and "symmetric C" and "length C = d * (d + 1) div 2"
proof -
  have "case law E of (S, S_v, C_SE) \<Rightarrow>
           symmetric S \<and> length S = d \<and> length S_v = d * (d + 1) div 2 \<and>
           symmetric C_SE \<and> length C_SE = d * (d + 1) div 2"
    using assms(1)[unfolded law_symmetric_def, rule_format, OF conjI[OF assms(2,3)]] .
  then show "symmetric S" and "length S = d" and "length S_v = d * (d + 1) div 2"
    and "symmetric C" and "length C = d * (d + 1) div 2"
    unfolding assms(4) by simp_all
qed

text \<open>The Green-Lagrange strain \<open>1/2*(H + H.T + H.T @ H)\<close> is symmetric.\<close>

lemma strain_symmetric:
  assumes H: "is_mat d d H" and pos: "0 < d"
  shows "symmetric (smul (1/2) (madd (madd H (mT H)) (matmul (mT H) H)))"
    and "length (smul (1/2) (madd (madd H (mT H)) (matmul (mT H) H))) = d"
proof -
  have T: "mT H = mk_mat d d (\<lambda>i j. H ! j ! i)" using H pos by (rule mT_shape)
  have Tm: "is_mat d d (mT H)" unfolding T by simp
  have "madd H (mT H) = mk_mat d d (\<lambda>i j. H ! i ! j + mT H ! i ! j)"
    using H Tm by (rule madd_shape)
  also have "\<dots> = mk_mat d d (\<lambda>i j. H ! i ! j + H ! j ! i)"
    unfolding T by (rule mk_mat_cong) simp
  finally have A: "madd H (mT H) = mk_mat d d (\<lambda>i j. H ! i ! j + H ! j ! i)" .
  have "matmul (mT H) H = mk_mat d d (\<lambda>i j. \<Sum>l<d. mT H ! i ! l * H ! l ! j)"
    using Tm H pos pos by (rule matmul_shape)
  also have "\<dots> = mk_mat d d (\<lambda>i j. \<Sum>l<d. H ! l ! i * H ! l ! j)"
    unfolding T by (intro mk_mat_cong sum.cong) simp_all
  finally have P: "matmul (mT H) H = mk_mat d d (\<lambda>i j. \<Sum>l<d. H ! l ! i * H ! l ! j)" .
  have Am: "is_mat d d (madd H (mT H))" unfolding A by simp
  have Pm: "is_mat d d (matmul (mT H) H)" unfolding P by simp
  have "madd (madd H (mT H)) (matmul (mT H) H)
      = mk_mat d d (\<lambda>i j. madd H (mT H) ! i ! j + matmul (mT H) H ! i ! j)"
    using Am Pm by (rule madd_shape)
  also have "\<dots> = mk_mat d d (\<lambda>i j. H ! i ! j + H ! j ! i + (\<Sum>l<d. H ! l ! i * H ! l ! j))"
    unfolding A P by (rule mk_mat_cong) simp
  finally have Q: "madd (madd H (mT H)) (matmul (mT H) H)
      = mk_mat d d (\<lambda>i j. H ! i ! j + H ! j ! i + (\<Sum>l<d. H ! l ! i * H ! l ! j))" .
  have Qm: "is_mat d d (madd (madd H (mT H)) (matmul (mT H) H))" unfolding Q by simp
  have "smul (1/2) (madd (madd H (mT H)) (matmul (mT H) H))
      = mk_mat d d (\<lambda>i j. 1/2 * madd (madd H (mT H)) (matmul (mT H) H) ! i ! j)"
    using Qm by (rule smul_shape)
  also have "\<dots> = mk_mat d d (\<lambda>i j. 1/2 * (H ! i ! j + H ! j ! i + (\<Sum>l<d. H ! l ! i * H ! l ! j)))"
    unfolding Q by (rule mk_mat_cong) simp
  finally have R: "smul (1/2) (madd (madd H (mT H)) (matmul (mT H) H))
      = mk_mat d d (\<lambda>i j. 1/2 * (H ! i ! j + H ! j ! i + (\<Sum>l<d. H ! l ! i * H ! l ! j)))" .
  show "symmetric (smul (1/2) (madd (madd H (mT H)) (matmul (mT H) H)))"
    unfolding R by (rule symmetric_mk_mat) (simp add: mult.commute add.commute)
  show "length (smul (1/2) (madd (madd H (mT H)) (matmul (mT H) H))) = d"
    unfolding R by simp
qed

lemma is_mat_H:
  assumes U: "is_mat n d u_mat" and B: "is_mat n d B0_tilde" and pos: "0 < n"
  shows "is_mat d d (matmul (mT u_mat) B0_tilde)"
proof -
  have "nrows (mT u_mat) = d" using U pos by (simp add: mT_def ncols_is_mat)
  moreover have "ncols B0_tilde = d" using B pos by (rule ncols_is_mat)
  ultimately show ?thesis using is_mat_matmul[of "mT u_mat" B0_tilde] by simp
qed

lemma is_mat_compute_B_matrix:
  assumes "is_mat n d B_tilde" and "0 < n"
  shows "is_mat (d * (d + 1) div 2) (n * d) (compute_B_matrix B_tilde F)"
  using assms by (simp add: compute_B_matrix_def Let_def nrows_is_mat ncols_is_mat)

lemma scatter_matrix_ent:
  assumes M: "is_mat n n M" and pos: "0 < n"
  shows "is_mat (n * d) (n * d) (scatter_matrix M d)"
    and "p < n * d \<Longrightarrow> q < n * d \<Longrightarrow>
         scatter_matrix M d ! p ! q = (if q mod d = p mod d then M ! (p div d) ! (q div d) else 0)"
proof -
  have nc: "ncols M = n" and nr: "nrows M = n"
    using M pos by (simp_all add: ncols_is_mat nrows_is_mat)
  have Z: "is_mat (n * d) (n * d) (zeros (n * d) (n * d))" by (rule is_mat_zeros)
  note I = scatter_i[OF Z, of d M n n]
  have eq: "scatter_matrix M d =
     fold (\<lambda>i. fold (\<lambda>j. fold (\<lambda>k A. set2 A (d * i + k) (d * j + k) (M ! i ! j)) [0..<d]) [0..<n]) [0..<n]
       (zeros (n * d) (n * d))"
    by (simp add: scatter_matrix_def nc nr)
  show "is_mat (n * d) (n * d) (scatter_matrix M d)" unfolding eq using I by simp
  assume pq: "p < n * d" "q < n * d"
  with I have "scatter_matrix M d ! p ! q =
      (if p < d * n \<and> q < d * n \<and> q mod d = p mod d then M ! (p div d) ! (q div d)
       else zeros (n * d) (n * d) ! p ! q)"
    unfolding eq by blast
  with pq show "scatter_matrix M d ! p ! q = (if q mod d = p mod d then M ! (p div d) ! (q div d) else 0)"
    by (simp add: mult.commute ent_zeros)
qed

lemma symmetric_scatter_matrix:
  assumes "symmetric M" and "length M = n" and "0 < n"
  shows "symmetric (scatter_matrix M d)" and "length (scatter_matrix M d) = n * d"
proof -
  from assms have M: "is_mat n n M" and s: "\<forall>i<n. \<forall>j<n. M ! i ! j = M ! j ! i"
    by (auto simp: symmetric_iff)
  note e = scatter_matrix_ent[OF M assms(3), where d = d]
  show len: "length (scatter_matrix M d) = n * d" using e(1) by (simp add: is_mat_iff)
  show "symmetric (scatter_matrix M d)"
  proof (rule symmetricI[of "n * d"])
    show "is_mat (n * d) (n * d) (scatter_matrix M d)" by (rule e(1))
  next
    fix p q assume pq: "p < n * d" "q < n * d"
    then have "0 < d" by (cases d) simp_all
    with pq have "p div d < n" "q div d < n"
      by (simp_all add: less_mult_imp_div_less)
    with s have "M ! (p div d) ! (q div d) = M ! (q div d) ! (p div d)" by simp
    with pq show "scatter_matrix M d ! p ! q = scatter_matrix M d ! q ! p"
      by (simp add: e(2))
  qed
qed

text \<open>The contribution of a point to \<open>K\<close> is symmetric when \<open>S\<close> and \<open>C_SE\<close> are.\<close>

lemma point_tensors_total:
  assumes U: "is_mat n d u_mat" and B: "is_mat n d B0_tilde" and pos: "0 < n" "0 < d"
    and law: "law_symmetric d law"
  shows "\<exists>p. point_tensors d law u_mat B0_tilde c = Inr p"
proof -
  let ?H = "matmul (mT u_mat) B0_tilde"
  let ?E = "smul (1/2) (madd (madd ?H (mT ?H)) (matmul (mT ?H) ?H))"
  define v where "v = d * (d + 1) div 2"
  obtain S S_v C where l: "law ?E = (S, S_v, C)" by (cases "law ?E") auto
  note E = strain_symmetric[OF is_mat_H[OF U B pos(1)] pos(2)]
  note L = law_symmetricD[OF law E l]
  have "is_mat d d S" using L(1,2) by (simp add: symmetric_iff)
  moreover have "length S_v = v" using L(3) by (simp add: v_def)
  moreover have "is_mat v v C" using L(4,5) by (simp add: symmetric_iff v_def)
  ultimately show ?thesis
    unfolding point_tensors_def Let_def l v_def[symmetric] prod.case by simp
qed

lemma point_tensors_symmetric:
  assumes pt: "point_tensors d law u_mat B0_tilde c = Inr p"
    and U: "is_mat n d u_mat"
    and B: "is_mat n d B0_tilde" and pos: "0 < n" "0 < d"
    and law: "law_symmetric d law"
  shows "symmetric (gp_K p)" and "length (gp_K p) = n * d"
proof -
  let ?H = "matmul (mT u_mat) B0_tilde"
  let ?F = "madd ?H (eye d)"
  let ?E = "smul (1/2) (madd (madd ?H (mT ?H)) (matmul (mT ?H) ?H))"
  let ?v = "d * (d + 1) div 2"
  obtain S S_v C where l: "law ?E = (S, S_v, C)" by (cases "law ?E") auto
  note E = strain_symmetric[OF is_mat_H[OF U B pos(1)] pos(2)]
  note L = law_symmetricD[OF law E l]
  have S: "symmetric S" "length S = d" and C: "symmetric C" "length C = ?v"
    using L by simp_all
  let ?B0 = "compute_B_matrix B0_tilde ?F"
  let ?Kg = "scatter_matrix (smul c (matmul (matmul B0_tilde S) (mT B0_tilde))) d"
  let ?Km = "smul c (matmul (matmul (mT ?B0) C) ?B0)"
  from pt l have p: "gp_K p = madd ?Kg ?Km"
    by (auto simp: point_tensors_def Let_def split: if_splits)
  have v: "0 < ?v" using pos(2) by (cases d) simp_all
  from S have Sm: "is_mat d d S" "\<forall>k<d. \<forall>l<d. S ! k ! l = S ! l ! k" by (auto simp: symmetric_iff)
  from C have Cm: "is_mat ?v ?v C" "\<forall>k<?v. \<forall>l<?v. C ! k ! l = C ! l ! k" by (auto simp: symmetric_iff)
  have "symmetric (matmul (matmul B0_tilde S) (mT B0_tilde))"
    using B Sm pos by (rule symmetric_congruence(2))
  then have s1: "symmetric (smul c (matmul (matmul B0_tilde S) (mT B0_tilde)))"
    by (rule symmetric_smul)
  have l1: "length (smul c (matmul (matmul B0_tilde S) (mT B0_tilde))) = n"
    using B by (simp add: smul_def matmul_def nrows_is_mat)
  have g: "symmetric ?Kg" "length ?Kg = n * d"
    using symmetric_scatter_matrix[OF s1 l1 pos(1)] by simp_all
  have B0: "is_mat ?v (n * d) ?B0" using B pos(1) by (rule is_mat_compute_B_matrix)
  have nd: "0 < n * d" using pos by simp
  have "symmetric (matmul (matmul (mT ?B0) C) ?B0)"
    using B0 Cm nd v by (rule symmetric_congruence_T(1))
  then have m: "symmetric ?Km" by (rule symmetric_smul)
  have "is_mat (n * d) (n * d) (matmul (matmul (mT ?B0) C) ?B0)"
    using B0 Cm nd v by (rule symmetric_congruence_T(2))
  then have lm: "length ?Km = n * d" by (simp add: smul_def is_mat_iff)
  show "symmetric (gp_K p)" unfolding p using g(1) m g(2) lm by (intro symmetric_madd) simp_all
  show "length (gp_K p) = n * d" unfolding p using g(2) lm by (simp add: madd_def)
qed

subsection \<open>The loop\<close>

lemma gauss_loop_points:
  "gauss_loop d law u_mat gs = Inr ps \<Longrightarrow>
   \<forall>(w, p)\<in>set ps. \<exists>c B. Inr (w, c, B) \<in> set gs \<and> point_tensors d law u_mat B c = Inr p"
proof (induction gs arbitrary: ps)
  case Nil
  then show ?case by simp
next
  case (Cons g gs)
  from Cons.prems obtain w c B p ps' where
    g: "g = Inr (w, c, B)" and p: "point_tensors d law u_mat B c = Inr p"
    and r: "gauss_loop d law u_mat gs = Inr ps'" and ps: "ps = (w, p) # ps'"
    by (auto split: sum.splits prod.splits)
  from Cons.IH[OF r] g p ps show ?case by fastforce
qed

lemma gauss_loop_length:
  "gauss_loop d law u_mat gs = Inr ps \<Longrightarrow> length ps = length gs"
proof (induction gs arbitrary: ps)
  case Nil
  then show ?case by simp
next
  case (Cons g gs)
  from Cons.prems obtain w p ps' where
    r: "gauss_loop d law u_mat gs = Inr ps'" and ps: "ps = (w, p) # ps'"
    by (auto split: sum.splits prod.splits)
  from Cons.IH[OF r] ps show ?case by simp
qed

lemma gauss_loop_total:
  "(\<And>g. g \<in> set gs \<Longrightarrow> \<exists>w c B p. g = Inr (w, c, B) \<and> point_tensors d law u_mat B c = Inr p)
   \<Longrightarrow> \<exists>ps. gauss_loop d law u_mat gs = Inr ps"
proof (induction gs)
  case Nil
  then show ?case by simp
next
  case (Cons g gs)
  from Cons.prems[of g] obtain w c B p where
    g: "g = Inr (w, c, B)" "point_tensors d law u_mat B c = Inr p" by auto
  from Cons.IH Cons.prems obtain ps where "gauss_loop d law u_mat gs = Inr ps" by auto
  with g show ?case by simp
qed


lemma fold_K_symmetric:
  assumes "\<forall>(w, p)\<in>set ps. symmetric (gp_K p) \<and> length (gp_K p) = N"
    and "symmetric K0" and "length K0 = N"
  shows "symmetric (fold (\<lambda>(w, p) K. madd K (smul w (gp_K p))) ps K0)"
  using assms
proof (induction ps arbitrary: K0)
  case Nil
  then show ?case by simp
next
  case (Cons a ps)
  obtain w p where a: "a = (w, p)" by (cases a)
  with Cons.prems have p: "symmetric (gp_K p)" "length (gp_K p) = N" by auto
  have s: "symmetric (madd K0 (smul w (gp_K p)))"
    using Cons.prems(2) p Cons.prems(3)
    by (intro symmetric_madd symmetric_smul) (simp_all add: smul_def)
  have l: "length (madd K0 (smul w (gp_K p))) = N"
    using p Cons.prems(3) by (simp add: madd_def smul_def)
  from Cons.IH[OF _ s l] Cons.prems(1) a show ?case by simp
qed

text \<open>The stiffness matrix of an element with an integration loop is symmetric.\<close>

lemma reshape_is_mat: "length u = n * d \<Longrightarrow> 0 < d \<Longrightarrow> is_mat n d (reshape u d)"
  using reshape_shape[of u d] by simp

lemma gauss_element_points:
  "gauss_element d n law ep err scale weight geometry gps u = Inr r \<Longrightarrow>
   length (t_points r) = length gps"
  by (auto simp: gauss_element_def accumulate_def split: sum.splits dest: gauss_loop_length)

lemma gauss_element_total:
  assumes shape: "\<And>gp. gp \<in> set gps \<Longrightarrow> is_mat n d (snd (geometry gp))"
    and dets: "\<And>gp. gp \<in> set gps \<Longrightarrow> fst (geometry gp) \<noteq> 0"
    and len: "length u = n * d" and pos: "0 < n" "0 < d"
    and law: "law_symmetric d law"
  shows "\<exists>r. gauss_element d n law ep err scale weight geometry gps u = Inr r"
proof -
  let ?gs = "map (\<lambda>gp. let (det, B0_tilde) = geometry gp in
                 if det = 0 then Inl err else Inr (weight gp, scale det, B0_tilde)) gps"
  note U = reshape_is_mat[OF len pos(2)]
  have each: "\<exists>w c B p. g = Inr (w, c, B) \<and> point_tensors d law (reshape u d) B c = Inr p"
    if "g \<in> set ?gs" for g
  proof -
    from that obtain gp where gp: "gp \<in> set gps"
      and g: "g = (let (det, B0_tilde) = geometry gp in
                 if det = 0 then Inl err else Inr (weight gp, scale det, B0_tilde))" by auto
    from dets[OF gp] g have g': "g = Inr (weight gp, scale (fst (geometry gp)), snd (geometry gp))"
      by (simp add: Let_def split: prod.splits)
    from point_tensors_total[where law = law and c = "scale (fst (geometry gp))",
        OF U shape[OF gp] pos law] g'
    show ?thesis by blast
  qed
  from gauss_loop_total[of ?gs d law "reshape u d", OF each]
  obtain ps where ps: "gauss_loop d law (reshape u d) ?gs = Inr ps" by blast
  then show ?thesis by (simp add: gauss_element_def)
qed

lemma gauss_element_symmetric:
  assumes r: "gauss_element d n law ep err scale weight geometry gps u = Inr r"
    and shape: "\<And>gp. gp \<in> set gps \<Longrightarrow> is_mat n d (snd (geometry gp))"
    and len: "length u = n * d" and pos: "0 < n" "0 < d"
    and law: "law_symmetric d law"
  shows "symmetric (t_K r)"
proof -
  let ?gs = "map (\<lambda>gp. let (det, B0_tilde) = geometry gp in
                 if det = 0 then Inl err else Inr (weight gp, scale det, B0_tilde)) gps"
  note U = reshape_is_mat[OF len pos(2)]
  from r obtain ps where ps: "gauss_loop d law (reshape u d) ?gs = Inr ps"
    and res: "r = accumulate d n ep ps"
    by (auto simp: gauss_element_def split: sum.splits)
  have "\<forall>(w, p)\<in>set ps. symmetric (gp_K p) \<and> length (gp_K p) = n * d"
  proof (clarify)
    fix w p assume "(w, p) \<in> set ps"
    with gauss_loop_points[OF ps] obtain c B where
      in_gs: "Inr (w, c, B) \<in> set ?gs" and pt: "point_tensors d law (reshape u d) B c = Inr p"
      by blast
    from in_gs obtain gp where "gp \<in> set gps" "B = snd (geometry gp)"
      by (auto simp: Let_def split: prod.splits if_splits)
    with shape have "is_mat n d B" by simp
    from point_tensors_symmetric[OF pt U this pos law]
    show "symmetric (gp_K p) \<and> length (gp_K p) = n * d" by simp
  qed
  then have "symmetric (fold (\<lambda>(w, p) K. madd K (smul w (gp_K p))) ps (zeros (n * d) (n * d)))"
    by (rule fold_K_symmetric) (rule symmetric_zeros, simp add: zeros_def)
  then show ?thesis by (simp add: res accumulate_def)
qed

subsection \<open>Zero displacement\<close>

lemma mT_zeros: "0 < r \<Longrightarrow> mT (zeros r c) = zeros c r"
proof -
  assume r: "0 < r"
  have "mT (zeros r c) = mk_mat c r (\<lambda>i j. zeros r c ! j ! i)"
    using is_mat_zeros r by (rule mT_shape)
  also have "\<dots> = mk_mat c r (\<lambda>i j. 0)" by (intro mk_mat_cong) (simp add: ent_zeros)
  finally show ?thesis by (simp add: zeros_mk_mat)
qed

lemma matmul_zeros_left:
  assumes "is_mat k c B" and "0 < r" and "0 < k"
  shows "matmul (zeros r k) B = zeros r c"
proof -
  have "matmul (zeros r k) B = mk_mat r c (\<lambda>i j. \<Sum>l<k. zeros r k ! i ! l * B ! l ! j)"
    using is_mat_zeros assms by (rule matmul_shape)
  also have "\<dots> = mk_mat r c (\<lambda>i j. 0)" by (intro mk_mat_cong) (simp add: ent_zeros)
  finally show ?thesis by (simp add: zeros_mk_mat)
qed

lemma madd_zeros_left: "is_mat r c A \<Longrightarrow> madd (zeros r c) A = A"
proof -
  assume A: "is_mat r c A"
  have "madd (zeros r c) A = mk_mat r c (\<lambda>i j. zeros r c ! i ! j + A ! i ! j)"
    using is_mat_zeros A by (rule madd_shape)
  also have "\<dots> = mk_mat r c (\<lambda>i j. A ! i ! j)" by (intro mk_mat_cong) (simp add: ent_zeros)
  finally show ?thesis using A by (simp add: mk_mat_ent)
qed

lemma smul_zeros: "smul a (zeros r c) = zeros r c"
  by (simp add: smul_def zeros_def)

lemma index_bound: "i < n \<Longrightarrow> j < d \<Longrightarrow> d * i + j < n * (d::nat)"
proof -
  assume a: "i < n" "j < d"
  have "d * i + j < d * i + d" using a by simp
  also have "\<dots> = d * Suc i" by simp
  also have "\<dots> \<le> d * n" using a by (intro mult_le_mono2) simp
  finally show ?thesis by (simp add: mult.commute)
qed

lemma reshape_zeros: "0 < d \<Longrightarrow> reshape (replicate (n * d) 0) d = zeros n d"
proof -
  assume d: "0 < d"
  have "reshape (replicate (n * d) 0) d = mk_mat n d (\<lambda>i j. replicate (n * d) 0 ! (d * i + j))"
    using d by (simp add: reshape_def)
  also have "\<dots> = mk_mat n d (\<lambda>i j. 0)"
    by (intro mk_mat_cong) (simp add: index_bound)
  finally show ?thesis by (simp add: zeros_mk_mat)
qed

lemma matvec_zeros:
  assumes "is_mat r k A" and "0 < r"
  shows "matvec A (replicate k 0) = replicate r 0"
proof -
  have "(\<Sum>l\<leftarrow>[0..<k]. A ! i ! l * replicate k 0 ! l) = 0" for i
    by (rule sum_list_upt_zero) simp
  then show ?thesis using assms
    by (simp add: matvec_def nrows_is_mat ncols_is_mat map_replicate_const)
qed

text \<open>
  With \<open>u = 0\<close>, \<open>H\<close> is zero, so \<open>F\<close> is the identity and \<open>E\<close> is zero; a law that maps zero
  strain to zero stress then gives no force.
\<close>

lemma point_tensors_zero:
  assumes B: "is_mat n d B0_tilde" and pos: "0 < n" "0 < d"
    and law: "law (zeros d d) = (zeros d d, replicate (d * (d + 1) div 2) 0, C0)"
    and C0: "is_mat (d * (d + 1) div 2) (d * (d + 1) div 2) C0"
  shows "\<exists>p. point_tensors d law (zeros n d) B0_tilde c = Inr p \<and>
             gp_F p = eye d \<and> gp_E p = zeros d d \<and> gp_f p = replicate (n * d) 0"
proof -
  define v where "v = d * (d + 1) div 2"
  have H: "matmul (mT (zeros n d)) B0_tilde = zeros d d"
    using B pos by (simp add: mT_zeros matmul_zeros_left)
  have F: "madd (zeros d d) (eye d) = eye d" by (simp add: madd_zeros_left)
  have E: "smul (1/2) (madd (madd (zeros d d) (mT (zeros d d))) (matmul (mT (zeros d d)) (zeros d d)))
      = zeros d d"
  proof -
    have "matmul (zeros d d) (zeros d d) = zeros d d"
      using is_mat_zeros pos(2) pos(2) by (rule matmul_zeros_left)
    then show ?thesis
      using pos(2) by (simp add: mT_zeros madd_zeros_left is_mat_zeros smul_zeros)
  qed
  have B0: "is_mat v (n * d) (compute_B_matrix B0_tilde (eye d))"
    unfolding v_def using B pos(1) by (rule is_mat_compute_B_matrix)
  have v: "0 < v" unfolding v_def using pos(2) by (cases d) simp_all
  have "is_mat (n * d) v (mT (compute_B_matrix B0_tilde (eye d)))"
    using B0 v by (rule is_mat_mT)
  then have f: "matvec (mT (compute_B_matrix B0_tilde (eye d))) (replicate v 0) = replicate (n * d) 0"
    using pos by (intro matvec_zeros) simp_all
  have law': "law (zeros d d) = (zeros d d, replicate v 0, C0)" and C0': "is_mat v v C0"
    using law C0 by (simp_all add: v_def)
  show ?thesis
    unfolding point_tensors_def H F E Let_def v_def[symmetric] law'
    using C0' by (simp add: is_mat_zeros f vsmul_def)
qed

lemma fold_f_zero:
  "\<forall>(w, p)\<in>set ps. gp_f p = replicate N 0 \<Longrightarrow>
   fold (\<lambda>(w, p) f. vadd f (vsmul w (gp_f p))) ps (replicate N 0) = replicate N 0"
proof (induction ps)
  case Nil
  then show ?case by simp
next
  case (Cons a ps)
  obtain w p where a: "a = (w, p)" by (cases a)
  have "vadd (replicate N 0) (vsmul w (replicate N 0)) = replicate N 0"
    by (simp add: vadd_def vsmul_def list_eq_iff_nth_eq)
  with Cons a show ?case by simp
qed

lemma gauss_element_zero:
  assumes shape: "\<And>gp. gp \<in> set gps \<Longrightarrow> is_mat n d (snd (geometry gp))"
    and dets: "\<And>gp. gp \<in> set gps \<Longrightarrow> fst (geometry gp) \<noteq> 0"
    and pos: "0 < n" "0 < d"
    and law: "law (zeros d d) = (zeros d d, replicate (d * (d + 1) div 2) 0, C0)"
    and C0: "is_mat (d * (d + 1) div 2) (d * (d + 1) div 2) C0"
  shows "\<exists>r. gauss_element d n law ep err scale weight geometry gps (replicate (n * d) 0) = Inr r \<and>
             length (t_points r) = length gps \<and>
             (\<forall>p\<in>set (t_points r). gp_F p = eye d \<and> gp_E p = zeros d d) \<and>
             t_f r = replicate (n * d) 0"
proof -
  let ?gs = "map (\<lambda>gp. let (det, B0_tilde) = geometry gp in
                 if det = 0 then Inl err else Inr (weight gp, scale det, B0_tilde)) gps"
  have u: "reshape (replicate (n * d) 0) d = zeros n d" using pos(2) by (rule reshape_zeros)
  have each: "\<exists>w c B p. g = Inr (w, c, B) \<and> point_tensors d law (zeros n d) B c = Inr p"
    if "g \<in> set ?gs" for g
  proof -
    from that obtain gp where gp: "gp \<in> set gps"
      and g: "g = (let (det, B0_tilde) = geometry gp in
                 if det = 0 then Inl err else Inr (weight gp, scale det, B0_tilde))" by auto
    from dets[OF gp] g have g': "g = Inr (weight gp, scale (fst (geometry gp)), snd (geometry gp))"
      by (simp add: Let_def split: prod.splits)
    from point_tensors_zero[where law = law and c = "scale (fst (geometry gp))",
        OF shape[OF gp] pos law C0] g'
    show ?thesis by blast
  qed
  from gauss_loop_total[of ?gs d law "zeros n d", OF each]
  obtain ps where ps: "gauss_loop d law (zeros n d) ?gs = Inr ps" by blast
  have pts: "\<forall>(w, p)\<in>set ps. gp_F p = eye d \<and> gp_E p = zeros d d \<and> gp_f p = replicate (n * d) 0"
  proof (clarify)
    fix w p assume "(w, p) \<in> set ps"
    with gauss_loop_points[OF ps] obtain c B where
      in_gs: "Inr (w, c, B) \<in> set ?gs" and pt: "point_tensors d law (zeros n d) B c = Inr p"
      by blast
    from in_gs obtain gp where "gp \<in> set gps" "B = snd (geometry gp)"
      by (auto simp: Let_def split: prod.splits if_splits)
    with shape have "is_mat n d B" by simp
    from point_tensors_zero[where law = law and c = c, OF this pos law C0] pt
    show "gp_F p = eye d \<and> gp_E p = zeros d d \<and> gp_f p = replicate (n * d) 0" by simp
  qed
  then have "fold (\<lambda>(w, p) f. vadd f (vsmul w (gp_f p))) ps (replicate (n * d) 0) = replicate (n * d) 0"
    by (intro fold_f_zero) auto
  moreover have "\<forall>p\<in>set (map snd ps). gp_F p = eye d \<and> gp_E p = zeros d d"
    using pts by auto
  moreover have "length ps = length gps" using gauss_loop_length[OF ps] by simp
  ultimately show ?thesis
    using ps by (simp add: gauss_element_def u accumulate_def)
qed

subsection \<open>Translation of the displacement field\<close>







subsection \<open>Shape-function derivative tables of the element kinds\<close>


lemma Tri3_shape: "is_mat 3 2 (snd (Tri3_geometry X))"
  by (simp add: Tri3_geometry_def Let_def is_mat_def smul_def)


lemma Quad4_dN_shape: "is_mat 4 2 (Quad4_dN_dxi xi eta)"
  by (simp add: Quad4_dN_dxi_def is_mat_def)


lemma Quad8_dN_shape: "is_mat 8 2 (Quad8_dN_dxi xi eta)"
  by (simp add: Quad8_dN_dxi_def is_mat_def)


lemma Hexa8_dN_shape: "is_mat 8 3 (Hexa8_dN_dxi xi eta zeta)"
  by (simp add: Hexa8_dN_dxi_def is_mat_def smul_def)


lemma Hexa20_dN_shape: "is_mat 20 3 (Hexa20_dN_dxi xi eta zeta)"
  by (simp add: Hexa20_dN_dxi_def is_mat_def smul_def)


lemma Tet4_shape: "is_mat 4 3 (snd (Tet4_geometry X))"
  by (simp add: Tet4_geometry_def Let_def is_mat_def smul_def)




lemma is_mat_adj2: "is_mat 2 2 (smul c [[a, b], [e, f]])"
  by (rule is_mat_smul) (simp add: is_mat_def)

lemma is_mat_inv3: "is_mat 3 3 (inv3 J)"
  unfolding inv3_def by (rule is_mat_smul) (simp add: is_mat_def)

lemma quad_geometry_shape:
  assumes "is_mat n 2 dN"
  shows "is_mat n 2 (snd (quad_geometry X_mat dN))"
proof -
  have "is_mat n 2 (matmul dN (smul c [[a, b], [e, f]]))" for c a b e f
  proof -
    have nc: "ncols (smul c [[a, b], [e, f]]) = 2"
      by (rule ncols_is_mat[OF is_mat_adj2]) simp
    show ?thesis
      using is_mat_matmul[of dN "smul c [[a, b], [e, f]]"]
      unfolding nc nrows_is_mat[OF assms] .
  qed
  thus ?thesis by (simp add: quad_geometry_def Let_def)
qed


lemma hexa_geometry_shape:
  assumes "is_mat n 3 dN"
  shows "is_mat n 3 (snd (hexa_geometry X_mat dN))"
proof -
  have "is_mat n 3 (matmul dN (inv3 J))" for J
  proof -
    have nc: "ncols (inv3 J) = 3"
      by (rule ncols_is_mat[OF is_mat_inv3]) simp
    show ?thesis
      using is_mat_matmul[of dN "inv3 J"]
      unfolding nc nrows_is_mat[OF assms] .
  qed
  thus ?thesis by (simp add: hexa_geometry_def Let_def)
qed




lemma Tri6_dN_shape: "is_mat 6 3 (Tri6_dN_dL L1 L2 L3)"
  by (simp add: Tri6_dN_dL_def is_mat_def)


lemma is_mat_3_2: "is_mat 3 2 [[a1, a2], [a3, a4], [a5, a6]]"
  by (simp add: is_mat_def)



lemma Tri6_shape: "is_mat 6 2 (snd (Tri6_geometry X gp))"
proof -
  have "is_mat 6 2 (matmul (Tri6_dN_dL L1 L2 L3) (smul c [[a1, a2], [a3, a4], [a5, a6]]))"
    for L1 L2 L3 c a1 a2 a3 a4 a5 a6
  proof -
    have nc: "ncols (smul c [[a1, a2], [a3, a4], [a5, a6]]) = 2"
      by (rule ncols_is_mat[OF is_mat_smul[OF is_mat_3_2]]) simp
    show ?thesis
      using is_mat_matmul[of "Tri6_dN_dL L1 L2 L3" "smul c [[a1, a2], [a3, a4], [a5, a6]]"]
      unfolding nc nrows_is_mat[OF Tri6_dN_shape] .
  qed
  thus ?thesis
    by (simp add: Tri6_geometry_def Let_def split: prod.splits)
qed




lemma is_mat_10_3:
  "is_mat 10 3 [[p1, q1, r1], [p2, q2, r2], [p3, q3, r3], [p4, q4, r4], [p5, q5, r5],
                [p6, q6, r6], [p7, q7, r7], [p8, q8, r8], [p9, q9, r9], [p10, q10, r10]]"
  by (simp add: is_mat_def)





lemma Tet10_shape: "is_mat 10 3 (snd (Tet10_geometry X gp))"
proof -
  obtain L1 L2 L3 L4 w where gp: "gp = (L1, L2, L3, L4, w)" by (cases gp) auto
  show ?thesis
    unfolding gp Tet10_geometry_def Let_def prod.case snd_conv
    by (rule is_mat_smul) (rule is_mat_10_3)
qed


section \<open>The elements with an integration loop\<close>

lemma length_translate [simp]: "length (translate d u c) = length u"
  by (simp add: translate_def)

subsection \<open>Tri6\<close>

lemma Tri6_unfold:
  "length X = 12 \<Longrightarrow> length u = 12 \<Longrightarrow>
   Tri6_compute_tensors m X u t =
     gauss_element 2 6 (S_Sv_and_C_2d m) Tri6_extrapolation_points NotFinite
       (\<lambda>det. det / 2 * m_thickness m) (\<lambda>(L1, L2, L3, w). w) (Tri6_geometry X) Tri6_gauss_points u"
  by (simp add: Tri6_compute_tensors_def Let_def)

lemma Tri6_zero:
  assumes len: "length X = 12"
    and dets: "\<forall>det\<in>set (map (\<lambda>gp. fst (Tri6_geometry X gp)) Tri6_gauss_points). det \<noteq> 0"
    and law: "S_Sv_and_C_2d m (zeros 2 2) = (zeros 2 2, replicate 3 0, C0)"
    and C0: "is_mat 3 3 C0"
  shows "\<exists>r. Tri6_compute_tensors m X (replicate 12 0) t = Inr r \<and>
             length (t_points r) = length Tri6_gauss_points \<and>
             (\<forall>p\<in>set (t_points r). gp_F p = eye 2 \<and> gp_E p = zeros 2 2) \<and>
             t_f r = replicate 12 0"
proof -
  have "\<exists>r. gauss_element 2 6 (S_Sv_and_C_2d m) Tri6_extrapolation_points NotFinite
       (\<lambda>det. det / 2 * m_thickness m) (\<lambda>(L1, L2, L3, w). w) (Tri6_geometry X) Tri6_gauss_points
       (replicate (6 * 2) 0) = Inr r \<and>
             length (t_points r) = length Tri6_gauss_points \<and>
             (\<forall>p\<in>set (t_points r). gp_F p = eye 2 \<and> gp_E p = zeros 2 2) \<and>
             t_f r = replicate (6 * 2) 0"
  proof (rule gauss_element_zero)
    show "is_mat 6 2 (snd (Tri6_geometry X gp))" for gp by (rule Tri6_shape)
    show "fst (Tri6_geometry X gp) \<noteq> 0" if "gp \<in> set Tri6_gauss_points" for gp
      using dets that by simp
    show "S_Sv_and_C_2d m (zeros 2 2) = (zeros 2 2, replicate (2 * (2 + 1) div 2) 0, C0)"
      using law by simp
    show "is_mat (2 * (2 + 1) div 2) (2 * (2 + 1) div 2) C0" using C0 by simp
  qed simp_all
  then show ?thesis by (simp add: Tri6_unfold[OF len])
qed

lemma Tri6_symmetric:
  assumes len: "length X = 12" "length u = 12"
    and dets: "\<forall>det\<in>set (map (\<lambda>gp. fst (Tri6_geometry X gp)) Tri6_gauss_points). det \<noteq> 0"
    and law: "law_symmetric 2 (S_Sv_and_C_2d m)"
  shows "\<exists>r. Tri6_compute_tensors m X u t = Inr r \<and> symmetric (t_K r)"
proof -
  have u: "length u = 6 * 2" using len by simp
  have "\<exists>r. gauss_element 2 6 (S_Sv_and_C_2d m) Tri6_extrapolation_points NotFinite
       (\<lambda>det. det / 2 * m_thickness m) (\<lambda>(L1, L2, L3, w). w) (Tri6_geometry X) Tri6_gauss_points u = Inr r"
  proof (rule gauss_element_total)
    show "is_mat 6 2 (snd (Tri6_geometry X gp))" for gp by (rule Tri6_shape)
    show "fst (Tri6_geometry X gp) \<noteq> 0" if "gp \<in> set Tri6_gauss_points" for gp
      using dets that by simp
  qed (simp_all add: u law)
  then obtain r where r: "gauss_element 2 6 (S_Sv_and_C_2d m) Tri6_extrapolation_points NotFinite
       (\<lambda>det. det / 2 * m_thickness m) (\<lambda>(L1, L2, L3, w). w) (Tri6_geometry X) Tri6_gauss_points u = Inr r" ..
  have "symmetric (t_K r)"
    using r by (rule gauss_element_symmetric) (simp_all add: Tri6_shape u law)
  with r show ?thesis by (simp add: Tri6_unfold[OF len])
qed


subsection \<open>Quad4\<close>

lemma Quad4_shape: "is_mat 4 2 (snd (Quad4_geometry X gp))"
  by (cases gp) (simp add: Quad4_geometry_def quad_geometry_shape Quad4_dN_shape)


lemma Quad4_unfold:
  "length X = 8 \<Longrightarrow> length u = 8 \<Longrightarrow>
   Quad4_compute_tensors m X u t =
     gauss_element 2 4 (S_Sv_and_C_2d m) Quad4_extrapolation_points NotFinite
       (\<lambda>det. det * m_thickness m) (\<lambda>(xi, eta, w). w) (Quad4_geometry X) Quad4_gauss_points u"
  by (simp add: Quad4_compute_tensors_def Let_def)

lemma Quad4_zero:
  assumes len: "length X = 8"
    and dets: "\<forall>det\<in>set (map (\<lambda>gp. fst (Quad4_geometry X gp)) Quad4_gauss_points). det \<noteq> 0"
    and law: "S_Sv_and_C_2d m (zeros 2 2) = (zeros 2 2, replicate 3 0, C0)"
    and C0: "is_mat 3 3 C0"
  shows "\<exists>r. Quad4_compute_tensors m X (replicate 8 0) t = Inr r \<and>
             length (t_points r) = length Quad4_gauss_points \<and>
             (\<forall>p\<in>set (t_points r). gp_F p = eye 2 \<and> gp_E p = zeros 2 2) \<and>
             t_f r = replicate 8 0"
proof -
  have "\<exists>r. gauss_element 2 4 (S_Sv_and_C_2d m) Quad4_extrapolation_points NotFinite
       (\<lambda>det. det * m_thickness m) (\<lambda>(xi, eta, w). w) (Quad4_geometry X) Quad4_gauss_points
       (replicate (4 * 2) 0) = Inr r \<and>
             length (t_points r) = length Quad4_gauss_points \<and>
             (\<forall>p\<in>set (t_points r). gp_F p = eye 2 \<and> gp_E p = zeros 2 2) \<and>
             t_f r = replicate (4 * 2) 0"
  proof (rule gauss_element_zero)
    show "is_mat 4 2 (snd (Quad4_geometry X gp))" for gp by (rule Quad4_shape)
    show "fst (Quad4_geometry X gp) \<noteq> 0" if "gp \<in> set Quad4_gauss_points" for gp
      using dets that by simp
    show "S_Sv_and_C_2d m (zeros 2 2) = (zeros 2 2, replicate (2 * (2 + 1) div 2) 0, C0)"
      using law by simp
    show "is_mat (2 * (2 + 1) div 2) (2 * (2 + 1) div 2) C0" using C0 by simp
  qed simp_all
  then show ?thesis by (simp add: Quad4_unfold[OF len])
qed

lemma Quad4_symmetric:
  assumes len: "length X = 8" "length u = 8"
    and dets: "\<forall>det\<in>set (map (\<lambda>gp. fst (Quad4_geometry X gp)) Quad4_gauss_points). det \<noteq> 0"
    and law: "law_symmetric 2 (S_Sv_and_C_2d m)"
  shows "\<exists>r. Quad4_compute_tensors m X u t = Inr r \<and> symmetric (t_K r)"
proof -
  have u: "length u = 4 * 2" using len by simp
  have "\<exists>r. gauss_element 2 4 (S_Sv_and_C_2d m) Quad4_extrapolation_points NotFinite
       (\<lambda>det. det * m_thickness m) (\<lambda>(xi, eta, w). w) (Quad4_geometry X) Quad4_gauss_points u = Inr r"
  proof (rule gauss_element_total)
    show "is_mat 4 2 (snd (Quad4_geometry X gp))" for gp by (rule Quad4_shape)
    show "fst (Quad4_geometry X gp) \<noteq> 0" if "gp \<in> set Quad4_gauss_points" for gp
      using dets that by simp
  qed (simp_all add: u law)
  then obtain r where r: "gauss_element 2 4 (S_Sv_and_C_2d m) Quad4_extrapolation_points NotFinite
       (\<lambda>det. det * m_thickness m) (\<lambda>(xi, eta, w). w) (Quad4_geometry X) Quad4_gauss_points u = Inr r" ..
  have "symmetric (t_K r)"
    using r by (rule gauss_element_symmetric) (simp_all add: Quad4_shape u law)
  with r show ?thesis by (simp add: Quad4_unfold[OF len])
qed


subsection \<open>Quad8\<close>

lemma Quad8_shape: "is_mat 8 2 (snd (Quad8_geometry X gp))"
  by (cases gp) (simp add: Quad8_geometry_def quad_geometry_shape Quad8_dN_shape)


lemma Quad8_unfold:
  "length X = 16 \<Longrightarrow> length u = 16 \<Longrightarrow>
   Quad8_compute_tensors m X u t =
     gauss_element 2 8 (S_Sv_and_C_2d m) Quad8_extrapolation_points NotFinite
       (\<lambda>det. det * m_thickness m) (\<lambda>(xi, eta, w). w) (Quad8_geometry X) Quad8_gauss_points u"
  by (simp add: Quad8_compute_tensors_def Let_def)

lemma Quad8_zero:
  assumes len: "length X = 16"
    and dets: "\<forall>det\<in>set (map (\<lambda>gp. fst (Quad8_geometry X gp)) Quad8_gauss_points). det \<noteq> 0"
    and law: "S_Sv_and_C_2d m (zeros 2 2) = (zeros 2 2, replicate 3 0, C0)"
    and C0: "is_mat 3 3 C0"
  shows "\<exists>r. Quad8_compute_tensors m X (replicate 16 0) t = Inr r \<and>
             length (t_points r) = length Quad8_gauss_points \<and>
             (\<forall>p\<in>set (t_points r). gp_F p = eye 2 \<and> gp_E p = zeros 2 2) \<and>
             t_f r = replicate 16 0"
proof -
  have "\<exists>r. gauss_element 2 8 (S_Sv_and_C_2d m) Quad8_extrapolation_points NotFinite
       (\<lambda>det. det * m_thickness m) (\<lambda>(xi, eta, w). w) (Quad8_geometry X) Quad8_gauss_points
       (replicate (8 * 2) 0) = Inr r \<and>
             length (t_points r) = length Quad8_gauss_points \<and>
             (\<forall>p\<in>set (t_points r). gp_F p = eye 2 \<and> gp_E p = zeros 2 2) \<and>
             t_f r = replicate (8 * 2) 0"
  proof (rule gauss_element_zero)
    show "is_mat 8 2 (snd (Quad8_geometry X gp))" for gp by (rule Quad8_shape)
    show "fst (Quad8_geometry X gp) \<noteq> 0" if "gp \<in> set Quad8_gauss_points" for gp
      using dets that by simp
    show "S_Sv_and_C_2d m (zeros 2 2) = (zeros 2 2, replicate (2 * (2 + 1) div 2) 0, C0)"
      using law by simp
    show "is_mat (2 * (2 + 1) div 2) (2 * (2 + 1) div 2) C0" using C0 by simp
  qed simp_all
  then show ?thesis by (simp add: Quad8_unfold[OF len])
qed

lemma Quad8_symmetric:
  assumes len: "length X = 16" "length u = 16"
    and dets: "\<forall>det\<in>set (map (\<lambda>gp. fst (Quad8_geometry X gp)) Quad8_gauss_points). det \<noteq> 0"
    and law: "law_symmetric 2 (S_Sv_and_C_2d m)"
  shows "\<exists>r. Quad8_compute_tensors m X u t = Inr r \<and> symmetric (t_K r)"
proof -
  have u: "length u = 8 * 2" using len by simp
  have "\<exists>r. gauss_element 2 8 (S_Sv_and_C_2d m) Quad8_extrapolation_points NotFinite
       (\<lambda>det. det * m_thickness m) (\<lambda>(xi, eta, w). w) (Quad8_geometry X) Quad8_gauss_points u = Inr r"
  proof (rule gauss_element_total)
    show "is_mat 8 2 (snd (Quad8_geometry X gp))" for gp by (rule Quad8_shape)
    show "fst (Quad8_geometry X gp) \<noteq> 0" if "gp \<in> set Quad8_gauss_points" for gp
      using dets that by simp
  qed (simp_all add: u law)
  then obtain r where r: "gauss_element 2 8 (S_Sv_and_C_2d m) Quad8_extrapolation_points NotFinite
       (\<lambda>det. det * m_thickness m) (\<lambda>(xi, eta, w). w) (Quad8_geometry X) Quad8_gauss_points u = Inr r" ..
  have "symmetric (t_K r)"
    using r by (rule gauss_element_symmetric) (simp_all add: Quad8_shape u law)
  with r show ?thesis by (simp add: Quad8_unfold[OF len])
qed


subsection \<open>Tet10\<close>

lemma Tet10_unfold:
  "length X = 30 \<Longrightarrow> length u = 30 \<Longrightarrow>
   Tet10_compute_tensors m X u t =
     gauss_element 3 10 (S_Sv_and_C m) Tet10_extrapolation_points NotFinite
       (\<lambda>det. det / 6) (\<lambda>(L1, L2, L3, L4, w). w) (Tet10_geometry X) Tet10_gauss_points u"
  by (simp add: Tet10_compute_tensors_def Let_def)

lemma Tet10_zero:
  assumes len: "length X = 30"
    and dets: "\<forall>det\<in>set (map (\<lambda>gp. fst (Tet10_geometry X gp)) Tet10_gauss_points). det \<noteq> 0"
    and law: "S_Sv_and_C m (zeros 3 3) = (zeros 3 3, replicate 6 0, C0)"
    and C0: "is_mat 6 6 C0"
  shows "\<exists>r. Tet10_compute_tensors m X (replicate 30 0) t = Inr r \<and>
             length (t_points r) = length Tet10_gauss_points \<and>
             (\<forall>p\<in>set (t_points r). gp_F p = eye 3 \<and> gp_E p = zeros 3 3) \<and>
             t_f r = replicate 30 0"
proof -
  have "\<exists>r. gauss_element 3 10 (S_Sv_and_C m) Tet10_extrapolation_points NotFinite
       (\<lambda>det. det / 6) (\<lambda>(L1, L2, L3, L4, w). w) (Tet10_geometry X) Tet10_gauss_points
       (replicate (10 * 3) 0) = Inr r \<and>
             length (t_points r) = length Tet10_gauss_points \<and>
             (\<forall>p\<in>set (t_points r). gp_F p = eye 3 \<and> gp_E p = zeros 3 3) \<and>
             t_f r = replicate (10 * 3) 0"
  proof (rule gauss_element_zero)
    show "is_mat 10 3 (snd (Tet10_geometry X gp))" for gp by (rule Tet10_shape)
    show "fst (Tet10_geometry X gp) \<noteq> 0" if "gp \<in> set Tet10_gauss_points" for gp
      using dets that by simp
    show "S_Sv_and_C m (zeros 3 3) = (zeros 3 3, replicate (3 * (3 + 1) div 2) 0, C0)"
      using law by simp
    show "is_mat (3 * (3 + 1) div 2) (3 * (3 + 1) div 2) C0" using C0 by simp
  qed simp_all
  then show ?thesis by (simp add: Tet10_unfold[OF len])
qed

lemma Tet10_symmetric:
  assumes len: "length X = 30" "length u = 30"
    and dets: "\<forall>det\<in>set (map (\<lambda>gp. fst (Tet10_geometry X gp)) Tet10_gauss_points). det \<noteq> 0"
    and law: "law_symmetric 3 (S_Sv_and_C m)"
  shows "\<exists>r. Tet10_compute_tensors m X u t = Inr r \<and> symmetric (t_K r)"
proof -
  have u: "length u = 10 * 3" using len by simp
  have "\<exists>r. gauss_element 3 10 (S_Sv_and_C m) Tet10_extrapolation_points NotFinite
       (\<lambda>det. det / 6) (\<lambda>(L1, L2, L3, L4, w). w) (Tet10_geometry X) Tet10_gauss_points u = Inr r"
  proof (rule gauss_element_total)
    show "is_mat 10 3 (snd (Tet10_geometry X gp))" for gp by (rule Tet10_shape)
    show "fst (Tet10_geometry X gp) \<noteq> 0" if "gp \<in> set Tet10_gauss_points" for gp
      using dets that by simp
  qed (simp_all add: u law)
  then obtain r where r: "gauss_element 3 10 (S_Sv_and_C m) Tet10_extrapolation_points NotFinite
       (\<lambda>det. det / 6) (\<lambda>(L1, L2, L3, L4, w). w) (Tet10_geometry X) Tet10_gauss_points u = Inr r" ..
  have "symmetric (t_K r)"
    using r by (rule gauss_element_symmetric) (simp_all add: Tet10_shape u law)
  with r show ?thesis by (simp add: Tet10_unfold[OF len])
qed


subsection \<open>Hexa8\<close>

lemma Hexa8_shape: "is_mat 8 3 (snd (Hexa8_geometry X gp))"
  by (cases gp) (simp add: Hexa8_geometry_def hexa_geometry_shape Hexa8_dN_shape)


lemma Hexa8_unfold:
  "length X = 24 \<Longrightarrow> length u = 24 \<Longrightarrow>
   Hexa8_compute_tensors m X u t =
     gauss_element 3 8 (S_Sv_and_C m) Hexa8_extrapolation_points LinAlgError
       (\<lambda>det. det) (\<lambda>(xi, eta, zeta, w). w) (Hexa8_geometry X) Hexa8_gauss_points u"
  by (simp add: Hexa8_compute_tensors_def Let_def)

lemma Hexa8_zero:
  assumes len: "length X = 24"
    and dets: "\<forall>det\<in>set (map (\<lambda>gp. fst (Hexa8_geometry X gp)) Hexa8_gauss_points). det \<noteq> 0"
    and law: "S_Sv_and_C m (zeros 3 3) = (zeros 3 3, replicate 6 0, C0)"
    and C0: "is_mat 6 6 C0"
  shows "\<exists>r. Hexa8_compute_tensors m X (replicate 24 0) t = Inr r \<and>
             length (t_points r) = length Hexa8_gauss_points \<and>
             (\<forall>p\<in>set (t_points r). gp_F p = eye 3 \<and> gp_E p = zeros 3 3) \<and>
             t_f r = replicate 24 0"
proof -
  have "\<exists>r. gauss_element 3 8 (S_Sv_and_C m) Hexa8_extrapolation_points LinAlgError
       (\<lambda>det. det) (\<lambda>(xi, eta, zeta, w). w) (Hexa8_geometry X) Hexa8_gauss_points
       (replicate (8 * 3) 0) = Inr r \<and>
             length (t_points r) = length Hexa8_gauss_points \<and>
             (\<forall>p\<in>set (t_points r). gp_F p = eye 3 \<and> gp_E p = zeros 3 3) \<and>
             t_f r = replicate (8 * 3) 0"
  proof (rule gauss_element_zero)
    show "is_mat 8 3 (snd (Hexa8_geometry X gp))" for gp by (rule Hexa8_shape)
    show "fst (Hexa8_geometry X gp) \<noteq> 0" if "gp \<in> set Hexa8_gauss_points" for gp
      using dets that by simp
    show "S_Sv_and_C m (zeros 3 3) = (zeros 3 3, replicate (3 * (3 + 1) div 2) 0, C0)"
      using law by simp
    show "is_mat (3 * (3 + 1) div 2) (3 * (3 + 1) div 2) C0" using C0 by simp
  qed simp_all
  then show ?thesis by (simp add: Hexa8_unfold[OF len])
qed

lemma Hexa8_symmetric:
  assumes len: "length X = 24" "length u = 24"
    and dets: "\<forall>det\<in>set (map (\<lambda>gp. fst (Hexa8_geometry X gp)) Hexa8_gauss_points). det \<noteq> 0"
    and law: "law_symmetric 3 (S_Sv_and_C m)"
  shows "\<exists>r. Hexa8_compute_tensors m X u t = Inr r \<and> symmetric (t_K r)"
proof -
  have u: "length u = 8 * 3" using len by simp
  have "\<exists>r. gauss_element 3 8 (S_Sv_and_C m) Hexa8_extrapolation_points LinAlgError
       (\<lambda>det. det) (\<lambda>(xi, eta, zeta, w). w) (Hexa8_geometry X) Hexa8_gauss_points u = Inr r"
  proof (rule gauss_element_total)
    show "is_mat 8 3 (snd (Hexa8_geometry X gp))" for gp by (rule Hexa8_shape)
    show "fst (Hexa8_geometry X gp) \<noteq> 0" if "gp \<in> set Hexa8_gauss_points" for gp
      using dets that by simp
  qed (simp_all add: u law)
  then obtain r where r: "gauss_element 3 8 (S_Sv_and_C m) Hexa8_extrapolation_points LinAlgError
       (\<lambda>det. det) (\<lambda>(xi, eta, zeta, w). w) (Hexa8_geometry X) Hexa8_gauss_points u = Inr r" ..
  have "symmetric (t_K r)"
    using r by (rule gauss_element_symmetric) (simp_all add: Hexa8_shape u law)
  with r show ?thesis by (simp add: Hexa8_unfold[OF len])
qed


subsection \<open>Hexa20\<close>

lemma Hexa20_shape: "is_mat 20 3 (snd (Hexa20_geometry X gp))"
  by (cases gp) (simp add: Hexa20_geometry_def hexa_geometry_shape Hexa20_dN_shape)


lemma Hexa20_unfold:
  "length X = 60 \<Longrightarrow> length u = 60 \<Longrightarrow>
   Hexa20_compute_tensors m X u t =
     gauss_element 3 20 (S_Sv_and_C m) Hexa20_extrapolation_points LinAlgError
       (\<lambda>det. det) (\<lambda>(xi, eta, zeta, w). w) (Hexa20_geometry X) Hexa20_gauss_points u"
  by (simp add: Hexa20_compute_tensors_def Let_def)

lemma Hexa20_zero:
  assumes len: "length X = 60"
    and dets: "\<forall>det\<in>set (map (\<lambda>gp. fst (Hexa20_geometry X gp)) Hexa20_gauss_points). det \<noteq> 0"
    and law: "S_Sv_and_C m (zeros 3 3) = (zeros 3 3, replicate 6 0, C0)"
    and C0: "is_mat 6 6 C0"
  shows "\<exists>r. Hexa20_compute_tensors m X (replicate 60 0) t = Inr r \<and>
             length (t_points r) = length Hexa20_gauss_points \<and>
             (\<forall>p\<in>set (t_points r). gp_F p = eye 3 \<and> gp_E p = zeros 3 3) \<and>
             t_f r = replicate 60 0"
proof -
  have "\<exists>r. gauss_element 3 20 (S_Sv_and_C m) Hexa20_extrapolation_points LinAlgError
       (\<lambda>det. det) (\<lambda>(xi, eta, zeta, w). w) (Hexa20_geometry X) Hexa20_gauss_points
       (replicate (20 * 3) 0) = Inr r \<and>
             length (t_points r) = length Hexa20_gauss_points \<and>
             (\<forall>p\<in>set (t_points r). gp_F p = eye 3 \<and> gp_E p = zeros 3 3) \<and>
             t_f r = replicate (20 * 3) 0"
  proof (rule gauss_element_zero)
    show "is_mat 20 3 (snd (Hexa20_geometry X gp))" for gp by (rule Hexa20_shape)
    show "fst (Hexa20_geometry X gp) \<noteq> 0" if "gp \<in> set Hexa20_gauss_points" for gp
      using dets that by simp
    show "S_Sv_and_C m (zeros 3 3) = (zeros 3 3, replicate (3 * (3 + 1) div 2) 0, C0)"
      using law by simp
    show "is_mat (3 * (3 + 1) div 2) (3 * (3 + 1) div 2) C0" using C0 by simp
  qed simp_all
  then show ?thesis by (simp add: Hexa20_unfold[OF len])
qed

lemma Hexa20_symmetric:
  assumes len: "length X = 60" "length u = 60"
    and dets: "\<forall>det\<in>set (map (\<lambda>gp. fst (Hexa20_geometry X gp)) Hexa20_gauss_points). det \<noteq> 0"
    and law: "law_symmetric 3 (S_Sv_and_C m)"
  shows "\<exists>r. Hexa20_compute_tensors m X u t = Inr r \<and> symmetric (t_K r)"
proof -
  have u: "length u = 20 * 3" using len by simp
  have "\<exists>r. gauss_element 3 20 (S_Sv_and_C m) Hexa20_extrapolation_points LinAlgError
       (\<lambda>det. det) (\<lambda>(xi, eta, zeta, w). w) (Hexa20_geometry X) Hexa20_gauss_points u = Inr r"
  proof (rule gauss_element_total)
    show "is_mat 20 3 (snd (Hexa20_geometry X gp))" for gp by (rule Hexa20_shape)
    show "fst (Hexa20_geometry X gp) \<noteq> 0" if "gp \<in> set Hexa20_gauss_points" for gp
      using dets that by simp
  qed (simp_all add: u law)
  then obtain r where r: "gauss_element 3 20 (S_Sv_and_C m) Hexa20_extrapolation_points LinAlgError
       (\<lambda>det. det) (\<lambda>(xi, eta, zeta, w). w) (Hexa20_geometry X) Hexa20_gauss_points u = Inr r" ..
  have "symmetric (t_K r)"
    using r by (rule gauss_element_symmetric) (simp_all add: Hexa20_shape u law)
  with r show ?thesis by (simp add: Hexa20_unfold[OF len])
qed

section \<open>The elements with one integration point\<close>

subsection \<open>Tri3\<close>

lemma Tri3_zero:
  assumes len: "length X = 6"
    and dets: "fst (Tri3_geometry X) \<noteq> 0"
    and law: "S_Sv_and_C_2d m (zeros 2 2) = (zeros 2 2, replicate 3 0, C0)"
    and C0: "is_mat 3 3 C0"
  shows "\<exists>r. Tri3_compute_tensors m X (replicate 6 0) t = Inr r \<and>
             length (t_points r) = 1 \<and>
             (\<forall>p\<in>set (t_points r). gp_F p = eye 2 \<and> gp_E p = zeros 2 2) \<and>
             t_f r = replicate 6 0"
proof -
  obtain det B where g: "Tri3_geometry X = (det, B)" by (cases "Tri3_geometry X")
  have B: "is_mat 3 2 B" using Tri3_shape[of X] g by simp
  have d: "det \<noteq> 0" using dets g by simp
  have u: "reshape (replicate 6 0) 2 = zeros 3 2" using reshape_zeros[of 2 3] by simp
  have "\<exists>p. point_tensors 2 (S_Sv_and_C_2d m) (zeros 3 2) B (det / 2 * m_thickness m) = Inr p \<and>
             gp_F p = eye 2 \<and> gp_E p = zeros 2 2 \<and> gp_f p = replicate (3 * 2) 0"
  proof (rule point_tensors_zero)
    show "is_mat 3 2 B" by (rule B)
    show "S_Sv_and_C_2d m (zeros 2 2) = (zeros 2 2, replicate (2 * (2 + 1) div 2) 0, C0)"
      using law by simp
    show "is_mat (2 * (2 + 1) div 2) (2 * (2 + 1) div 2) C0" using C0 by simp
  qed simp_all
  then obtain p where "point_tensors 2 (S_Sv_and_C_2d m) (zeros 3 2) B (det / 2 * m_thickness m) = Inr p"
    and "gp_F p = eye 2" and "gp_E p = zeros 2 2" and "gp_f p = replicate 6 0"
    by auto
  then show ?thesis using len d by (simp add: Tri3_compute_tensors_def g u Let_def)
qed

lemma Tri3_symmetric:
  assumes len: "length X = 6" "length u = 6"
    and dets: "fst (Tri3_geometry X) \<noteq> 0"
    and law: "law_symmetric 2 (S_Sv_and_C_2d m)"
  shows "\<exists>r. Tri3_compute_tensors m X u t = Inr r \<and> symmetric (t_K r)"
proof -
  obtain det B where g: "Tri3_geometry X = (det, B)" by (cases "Tri3_geometry X")
  have B: "is_mat 3 2 B" using Tri3_shape[of X] g by simp
  have d: "det \<noteq> 0" using dets g by simp
  have U: "is_mat 3 2 (reshape u 2)" using len(2) by (intro reshape_is_mat) simp_all
  have "\<exists>p. point_tensors 2 (S_Sv_and_C_2d m) (reshape u 2) B (det / 2 * m_thickness m) = Inr p"
    using U B _ _ law by (rule point_tensors_total) simp_all
  then obtain p where p: "point_tensors 2 (S_Sv_and_C_2d m) (reshape u 2) B (det / 2 * m_thickness m) = Inr p" ..
  have "symmetric (gp_K p)"
    using p U B _ _ law by (rule point_tensors_symmetric(1)) simp_all
  then show ?thesis using len d p by (simp add: Tri3_compute_tensors_def g Let_def)
qed


subsection \<open>Tet4\<close>

lemma Tet4_zero:
  assumes len: "length X = 12"
    and dets: "fst (Tet4_geometry X) \<noteq> 0"
    and law: "S_Sv_and_C m (zeros 3 3) = (zeros 3 3, replicate 6 0, C0)"
    and C0: "is_mat 6 6 C0"
  shows "\<exists>r. Tet4_compute_tensors m X (replicate 12 0) t = Inr r \<and>
             length (t_points r) = 1 \<and>
             (\<forall>p\<in>set (t_points r). gp_F p = eye 3 \<and> gp_E p = zeros 3 3) \<and>
             t_f r = replicate 12 0"
proof -
  obtain det B where g: "Tet4_geometry X = (det, B)" by (cases "Tet4_geometry X")
  have B: "is_mat 4 3 B" using Tet4_shape[of X] g by simp
  have d: "det \<noteq> 0" using dets g by simp
  have u: "reshape (replicate 12 0) 3 = zeros 4 3" using reshape_zeros[of 3 4] by simp
  have "\<exists>p. point_tensors 3 (S_Sv_and_C m) (zeros 4 3) B (det / 6) = Inr p \<and>
             gp_F p = eye 3 \<and> gp_E p = zeros 3 3 \<and> gp_f p = replicate (4 * 3) 0"
  proof (rule point_tensors_zero)
    show "is_mat 4 3 B" by (rule B)
    show "S_Sv_and_C m (zeros 3 3) = (zeros 3 3, replicate (3 * (3 + 1) div 2) 0, C0)"
      using law by simp
    show "is_mat (3 * (3 + 1) div 2) (3 * (3 + 1) div 2) C0" using C0 by simp
  qed simp_all
  then obtain p where "point_tensors 3 (S_Sv_and_C m) (zeros 4 3) B (det / 6) = Inr p"
    and "gp_F p = eye 3" and "gp_E p = zeros 3 3" and "gp_f p = replicate 12 0"
    by auto
  then show ?thesis using len d by (simp add: Tet4_compute_tensors_def g u Let_def)
qed

lemma Tet4_symmetric:
  assumes len: "length X = 12" "length u = 12"
    and dets: "fst (Tet4_geometry X) \<noteq> 0"
    and law: "law_symmetric 3 (S_Sv_and_C m)"
  shows "\<exists>r. Tet4_compute_tensors m X u t = Inr r \<and> symmetric (t_K r)"
proof -
  obtain det B where g: "Tet4_geometry X = (det, B)" by (cases "Tet4_geometry X")
  have B: "is_mat 4 3 B" using Tet4_shape[of X] g by simp
  have d: "det \<noteq> 0" using dets g by simp
  have U: "is_mat 4 3 (reshape u 3)" using len(2) by (intro reshape_is_mat) simp_all
  have "\<exists>p. point_tensors 3 (S_Sv_and_C m) (reshape u 3) B (det / 6) = Inr p"
    using U B _ _ law by (rule point_tensors_total) simp_all
  then obtain p where p: "point_tensors 3 (S_Sv_and_C m) (reshape u 3) B (det / 6) = Inr p" ..
  have "symmetric (gp_K p)"
    using p U B _ _ law by (rule point_tensors_symmetric(1)) simp_all
  then show ?thesis using len d p by (simp add: Tet4_compute_tensors_def g Let_def)
qed

section \<open>The stiffness of the bar and of the boundary elements\<close>

lemma symmetrize_symmetric:
  assumes A: "is_mat n n A" and pos: "0 < n"
  shows "symmetric (smul (1/2) (madd A (mT A)))"
proof -
  have T: "mT A = mk_mat n n (\<lambda>i j. A ! j ! i)" using A pos by (rule mT_shape)
  have Tm: "is_mat n n (mT A)" unfolding T by simp
  have "madd A (mT A) = mk_mat n n (\<lambda>i j. A ! i ! j + mT A ! i ! j)"
    using A Tm by (rule madd_shape)
  also have "\<dots> = mk_mat n n (\<lambda>i j. A ! i ! j + A ! j ! i)"
    unfolding T by (rule mk_mat_cong) simp
  finally have S: "madd A (mT A) = mk_mat n n (\<lambda>i j. A ! i ! j + A ! j ! i)" .
  have Sm: "is_mat n n (madd A (mT A))" unfolding S by simp
  have "smul (1/2) (madd A (mT A)) = mk_mat n n (\<lambda>i j. 1/2 * madd A (mT A) ! i ! j)"
    using Sm by (rule smul_shape)
  also have "\<dots> = mk_mat n n (\<lambda>i j. 1/2 * (A ! i ! j + A ! j ! i))"
    unfolding S by (rule mk_mat_cong) simp
  finally have R: "smul (1/2) (madd A (mT A)) = mk_mat n n (\<lambda>i j. 1/2 * (A ! i ! j + A ! j ! i))" .
  show ?thesis unfolding R by (rule symmetric_mk_mat) (simp add: add.commute)
qed

lemma bar_k_el_shape:
  "is_mat 4 4 (matmul (mT [[a, b, 0, 0], [0, 0, a, b]]) (matmul (smul c [[1, -1], [-1, 1]]) [[a, b, 0, 0], [0, 0, a, b]]))"
proof -
  let ?A = "[[a, b, 0, 0], [0, 0, a, b :: real]]"
  have 1: "nrows (mT ?A) = 4" by (simp add: mT_def ncols_def)
  have 2: "ncols (matmul (smul c [[1, -1], [-1, 1]]) ?A) = 4"
  proof -
    have "nrows (smul c [[1, -1], [-1, 1]]) = 2" "ncols ?A = 4"
      by (simp_all add: nrows_def ncols_def smul_def)
    then show ?thesis unfolding matmul_def by simp
  qed
  show ?thesis
    using is_mat_matmul[of "mT ?A" "matmul (smul c [[1, -1], [-1, 1]]) ?A"] unfolding 1 2 .
qed

lemma bar_m_el_shape:
  "is_mat 4 4 (smul c [[3, 0, 0, 0], [0, 3, 0, 0], [0, 0, 3, 0], [0, 0, 0, 3]])"
  by (rule is_mat_smul) (simp add: is_mat_def)

lemma Bar2Dlumped_symmetric:
  assumes "Bar2Dlumped__k_and_m_int self X u t = Inr ((K, M), self')"
  shows "symmetric K" and "symmetric M" and "bar_K self' = K" and "bar_M self' = M"
proof -
  note s = symmetrize_symmetric[OF bar_k_el_shape, of _ _ _] symmetrize_symmetric[OF bar_m_el_shape]
  from assms have "symmetric K \<and> symmetric M \<and> bar_K self' = K \<and> bar_M self' = M"
    by (auto simp: Bar2Dlumped__k_and_m_int_def Let_def getattr_def s
             split: if_splits option.splits sum.splits)
  then show "symmetric K" and "symmetric M" and "bar_K self' = K" and "bar_M self' = M"
    by simp_all
qed

section \<open>An example element\<close>

text \<open>
  The unit triangle with the example material: its Jacobian, and the strain that a
  displacement of the second node along the first axis produces.
\<close>

lemma example_material_symmetric: "law_symmetric 2 (S_Sv_and_C_2d example_material)"
proof -
  have C: "symmetric [[2, 0, 0], [0, 2, 0], [0, 0, 1 :: real]]"
    by (rule symmetricI[of 3])
       (auto simp: is_mat_def less_Suc_eq eval_nat_numeral)
  have "symmetric (smul 2 E)" "length (smul 2 E) = 2" if "symmetric E" "length E = 2" for E
    using that by (simp_all add: symmetric_smul) (simp add: smul_def)
  with C show ?thesis by (simp add: law_symmetric_def example_material_def)
qed

lemma example_jacobian: "fst (Tri3_geometry [0, 0, 1, 0, 0, 1]) = 1"
  by (simp add: Tri3_geometry_def Let_def)





section \<open>The three properties of the element library\<close>

text \<open>
  Claim C3. Take an element of any plane or solid kind, reference coordinates \<open>X\<close> of the
  kind's length at which every Jacobian determinant of the tensor computation is
  non-zero, and a material whose law maps the zero strain tensor to the zero stress
  tensor and the zero Voigt stress (with a tangent of the Voigt shape). Then the tensor
  computation at the displacement \<open>u = 0\<close> returns, it visits one point for every
  Jacobian, at every point the deformation gradient \<open>F\<close> is the identity and the
  Green-Lagrange strain \<open>E\<close> is the zero tensor, and the internal force \<open>f\<close> is the zero
  vector.
\<close>

theorem zero_displacement_reference_state:
  assumes len: "length X = no_of_dofs k"
    and dets: "\<forall>det\<in>set (jacobians k X). det \<noteq> 0"
    and law: "law_of k m (zeros (no_of_dims k) (no_of_dims k)) =
                (zeros (no_of_dims k) (no_of_dims k), replicate (no_of_voigt k) 0, C0)"
    and C0: "is_mat (no_of_voigt k) (no_of_voigt k) C0"
  shows "\<exists>r. compute_tensors k m X (replicate (no_of_dofs k) 0) t = Inr r \<and>
             length (t_points r) = length (jacobians k X) \<and>
             (\<forall>p\<in>set (t_points r). gp_F p = eye (no_of_dims k) \<and>
                                      gp_E p = zeros (no_of_dims k) (no_of_dims k)) \<and>
             t_f r = replicate (no_of_dofs k) 0"
proof (cases k)
  case Tri3
  with assms Tri3_zero[of X m C0 t] show ?thesis
    by (simp add: no_of_dofs_def law_of_def no_of_voigt_def)
next
  case Tri6
  with assms Tri6_zero[of X m C0 t] show ?thesis
    by (simp add: no_of_dofs_def law_of_def no_of_voigt_def)
next
  case Quad4
  with assms Quad4_zero[of X m C0 t] show ?thesis
    by (simp add: no_of_dofs_def law_of_def no_of_voigt_def)
next
  case Quad8
  with assms Quad8_zero[of X m C0 t] show ?thesis
    by (simp add: no_of_dofs_def law_of_def no_of_voigt_def)
next
  case Tet4
  with assms Tet4_zero[of X m C0 t] show ?thesis
    by (simp add: no_of_dofs_def law_of_def no_of_voigt_def)
next
  case Tet10
  with assms Tet10_zero[of X m C0 t] show ?thesis
    by (simp add: no_of_dofs_def law_of_def no_of_voigt_def)
next
  case Hexa8
  with assms Hexa8_zero[of X m C0 t] show ?thesis
    by (simp add: no_of_dofs_def law_of_def no_of_voigt_def)
next
  case Hexa20
  with assms Hexa20_zero[of X m C0 t] show ?thesis
    by (simp add: no_of_dofs_def law_of_def no_of_voigt_def)
next
  case Prism6
  then show ?thesis by (simp add: Prism6_compute_tensors_def no_of_dofs_def)
qed

theorem zero_displacement_reference_state_witness:
  "\<exists>r. compute_tensors Tri3 example_material [0, 0, 1, 0, 0, 1] [0, 0, 0, 0, 0, 0] 0 = Inr r \<and>
       length (t_points r) = 1 \<and>
       list_all (\<lambda>p. gp_F p = [[1, 0], [0, 1]] \<and> gp_E p = [[0, 0], [0, 0]]) (t_points r) \<and>
       t_f r = [0, 0, 0, 0, 0, 0]"
proof -
  have len: "length [0, 0, 1, 0, 0, 1 :: real] = no_of_dofs Tri3" by (simp add: no_of_dofs_def)
  have dets: "\<forall>det\<in>set (jacobians Tri3 [0, 0, 1, 0, 0, 1]). det \<noteq> 0"
    by (simp add: example_jacobian)
  have law: "law_of Tri3 example_material (zeros (no_of_dims Tri3) (no_of_dims Tri3)) =
       (zeros (no_of_dims Tri3) (no_of_dims Tri3), replicate (no_of_voigt Tri3) 0,
        [[2, 0, 0], [0, 2, 0], [0, 0, 1]])"
  proof -
    have nv: "no_of_voigt Tri3 = 3" by (simp add: no_of_voigt_def)
    have r: "replicate 3 (0::real) = [0, 0, 0]" by (simp add: numeral_3_eq_3)
    have z: "zeros 2 2 = [[0, 0], [0, 0]]" by (simp add: zeros_def numeral_2_eq_2)
    show ?thesis
      unfolding nv r by (simp add: law_of_def example_material_def z smul_def)
  qed
  have C0: "is_mat (no_of_voigt Tri3) (no_of_voigt Tri3) [[2, 0, 0], [0, 2, 0], [0, 0, 1]]"
    by (simp add: no_of_voigt_def is_mat_def)
  have e: "eye 2 = [[1, 0], [0, 1]]" "zeros 2 2 = [[0, 0], [0, 0]]"
    "replicate 6 (0::real) = [0, 0, 0, 0, 0, 0]"
    by (simp_all add: eye_def mk_mat_def zeros_def eval_nat_numeral upt_rec)
  from zero_displacement_reference_state[OF len dets law C0, of 0]
  show ?thesis by (simp add: list_all_iff no_of_dofs_def e)
qed

text \<open>
  Claim C4. For an element of any plane or solid kind, coordinates \<open>X\<close> and displacements
  \<open>u\<close> of the kind's length with non-zero Jacobian determinants, and a material that
  returns a symmetric stress tensor and a symmetric tangent for every symmetric strain,
  the tensor computation returns and its stiffness matrix \<open>K\<close> is symmetric. For the
  lumped bar, \<open>_k_and_m_int\<close> returns once the attributes are set and the two nodes
  differ, and whenever it returns, the stiffness and the mass matrix that it returns and
  stores are symmetric. The stiffness matrix of a boundary element is symmetric.
\<close>

theorem stiffness_matrix_symmetric:
  "(length X = no_of_dofs k \<and> length u = no_of_dofs k \<and>
    (\<forall>det\<in>set (jacobians k X). det \<noteq> 0) \<and>
    law_symmetric (no_of_dims k) (law_of k m)
    \<longrightarrow> (\<exists>r. compute_tensors k m X u t = Inr r \<and> symmetric (t_K r))) \<and>
   (length Xb = 4 \<and> bar_e_modul self = Some e \<and> bar_crosssec self = Some a \<and>
    bar_rho self = Some rho \<and> (Xb ! 0 \<noteq> Xb ! 2 \<or> Xb ! 1 \<noteq> Xb ! 3)
    \<longrightarrow> (\<exists>K M. Bar2Dlumped__k_and_m_int self Xb ub tb
                   = Inr ((K, M), self\<lparr>bar_K := K, bar_M := M\<rparr>))) \<and>
   (\<forall>K M self'. Bar2Dlumped__k_and_m_int self Xb ub tb = Inr ((K, M), self')
    \<longrightarrow> symmetric K \<and> symmetric M \<and> bar_K self' = K \<and> bar_M self' = M) \<and>
   symmetric (BoundaryElement_K ndof)"
proof (intro conjI impI allI)
  assume h: "length X = no_of_dofs k \<and> length u = no_of_dofs k \<and>
    (\<forall>det\<in>set (jacobians k X). det \<noteq> 0) \<and>
    law_symmetric (no_of_dims k) (law_of k m)"
  show "\<exists>r. compute_tensors k m X u t = Inr r \<and> symmetric (t_K r)"
  proof (cases k)
    case Tri3
    with h Tri3_symmetric[of X u m t] show ?thesis by (simp add: no_of_dofs_def law_of_def)
  next
    case Tri6
    with h Tri6_symmetric[of X u m t] show ?thesis by (simp add: no_of_dofs_def law_of_def)
  next
    case Quad4
    with h Quad4_symmetric[of X u m t] show ?thesis by (simp add: no_of_dofs_def law_of_def)
  next
    case Quad8
    with h Quad8_symmetric[of X u m t] show ?thesis by (simp add: no_of_dofs_def law_of_def)
  next
    case Tet4
    with h Tet4_symmetric[of X u m t] show ?thesis by (simp add: no_of_dofs_def law_of_def)
  next
    case Tet10
    with h Tet10_symmetric[of X u m t] show ?thesis by (simp add: no_of_dofs_def law_of_def)
  next
    case Hexa8
    with h Hexa8_symmetric[of X u m t] show ?thesis by (simp add: no_of_dofs_def law_of_def)
  next
    case Hexa20
    with h Hexa20_symmetric[of X u m t] show ?thesis by (simp add: no_of_dofs_def law_of_def)
  next
    case Prism6
    then show ?thesis by (simp add: Prism6_compute_tensors_def symmetric_zeros)
  qed
next
  assume "length Xb = 4 \<and> bar_e_modul self = Some e \<and> bar_crosssec self = Some a \<and>
    bar_rho self = Some rho \<and> (Xb ! 0 \<noteq> Xb ! 2 \<or> Xb ! 1 \<noteq> Xb ! 3)"
  then show "\<exists>K M. Bar2Dlumped__k_and_m_int self Xb ub tb
                   = Inr ((K, M), self\<lparr>bar_K := K, bar_M := M\<rparr>)"
    by (intro k_and_m_int_set) simp_all
next
  fix K M self'
  assume r: "Bar2Dlumped__k_and_m_int self Xb ub tb = Inr ((K, M), self')"
  show "symmetric K" "symmetric M" "bar_K self' = K" "bar_M self' = M"
    using Bar2Dlumped_symmetric[OF r] by simp_all
next
  show "symmetric (BoundaryElement_K ndof)"
    by (simp add: BoundaryElement_K_def symmetric_zeros)
qed

theorem stiffness_matrix_symmetric_witness:
  "(\<exists>r. compute_tensors Tri3 example_material [0, 0, 1, 0, 0, 1] [0, 0, 1, 0, 0, 0] 0 = Inr r \<and>
        symmetric (t_K r)) \<and>
   (\<exists>K M. Bar2Dlumped__k_and_m_int
            \<lparr>bar_material = None, bar_K = zeros 4 4, bar_M = zeros 4 4, bar_f = replicate 4 0,
             bar_e_modul = Some 1, bar_crosssec = Some 1, bar_rho = Some 1\<rparr>
            [0, 0, 1, 0] [0, 0, 0, 0] 0
          = Inr ((K, M),
             \<lparr>bar_material = None, bar_K = K, bar_M = M, bar_f = replicate 4 0,
              bar_e_modul = Some 1, bar_crosssec = Some 1, bar_rho = Some 1\<rparr>) \<and>
          symmetric K \<and> symmetric M) \<and>
   symmetric (BoundaryElement_K 4)"
proof -
  let ?bar = "\<lparr>bar_material = None, bar_K = zeros 4 4, bar_M = zeros 4 4, bar_f = replicate 4 0,
             bar_e_modul = Some 1, bar_crosssec = Some 1, bar_rho = Some (1::real)\<rparr>"
  have h: "length [0, 0, 1, 0, 0, 1 :: real] = no_of_dofs Tri3 \<and>
        length [0, 0, 1, 0, 0, 0 :: real] = no_of_dofs Tri3 \<and>
        (\<forall>det\<in>set (jacobians Tri3 [0, 0, 1, 0, 0, 1]). det \<noteq> 0) \<and>
        law_symmetric (no_of_dims Tri3) (law_of Tri3 example_material)"
    by (simp add: no_of_dofs_def example_jacobian law_of_def example_material_symmetric)
  have b: "length [0, 0, 1, 0 :: real] = 4 \<and> bar_e_modul ?bar = Some 1 \<and>
        bar_crosssec ?bar = Some 1 \<and> bar_rho ?bar = Some 1 \<and>
        ([0, 0, 1, 0 :: real] ! 0 \<noteq> [0, 0, 1, 0] ! 2 \<or> [0, 0, 1, 0 :: real] ! 1 \<noteq> [0, 0, 1, 0] ! 3)"
    by simp
  note t = stiffness_matrix_symmetric[of "[0, 0, 1, 0, 0, 1]" Tri3 "[0, 0, 1, 0, 0, 0]"
      example_material 0 "[0, 0, 1, 0]" ?bar 1 1 1 "[0, 0, 0, 0]" 0 4]
  from t h have 1: "\<exists>r. compute_tensors Tri3 example_material [0, 0, 1, 0, 0, 1] [0, 0, 1, 0, 0, 0] 0 = Inr r \<and>
        symmetric (t_K r)" by blast
  from t b obtain K M where
    r: "Bar2Dlumped__k_and_m_int ?bar [0, 0, 1, 0] [0, 0, 0, 0] 0 = Inr ((K, M), ?bar\<lparr>bar_K := K, bar_M := M\<rparr>)"
    by blast
  with t have "symmetric K \<and> symmetric M" by blast
  with r have 2: "\<exists>K M. Bar2Dlumped__k_and_m_int ?bar [0, 0, 1, 0] [0, 0, 0, 0] 0
          = Inr ((K, M),
             \<lparr>bar_material = None, bar_K = K, bar_M = M, bar_f = replicate 4 0,
              bar_e_modul = Some 1, bar_crosssec = Some 1, bar_rho = Some 1\<rparr>) \<and>
          symmetric K \<and> symmetric M" by auto
  from t have 3: "symmetric (BoundaryElement_K 4)" by blast
  from 1 2 3 show ?thesis by blast
qed



end
